(* ===== verification/Prelude.thy ===== *)
theory Prelude
  imports Main "HOL-Library.Word" "HOL-Library.Signed_Division"
begin

text \<open>
  Shared vocabulary of the development: the fixed-width integer types of the C sources
  (\<open>uint8_t\<close>, \<open>uint16_t\<close>, \<open>uint32_t\<close>, \<open>uint64_t\<close>), the little-endian byte order that the
  emulator's memory, the linker's section buffers and the object file format share, the
  contract of a store of 32-bit words (\<open>word_store\<close>, with the read-modify-write pattern both
  programs use), the contract of a first-match table of named symbols (\<open>name_table\<close>), and
  the collections of simplification rules that the component theories extend.
\<close>

unbundle bit_operations_syntax

subsection \<open>Machine integers\<close>

type_synonym u8 = "8 word"
type_synonym u16 = "16 word"
type_synonym u32 = "32 word"
type_synonym u64 = "64 word"

text \<open>
  Rule collections: \<open>bytes_simps\<close> evaluates byte extraction and assembly, \<open>frame_simps\<close> says
  which fields of the machine an operation leaves alone, \<open>mem_simps\<close> reads back memory.
\<close>

named_theorems bytes_simps
named_theorems frame_simps
named_theorems mem_simps

lemma mask8_u32: "(0xFF :: u32) = mask 8"
  by (simp add: mask_eq_exp_minus_1)

lemma mask16_u32: "(0xFFFF :: u32) = mask 16"
  by (simp add: mask_eq_exp_minus_1)

subsection \<open>Little-endian bytes of a 32-bit word\<close>

definition le32 :: "u8 \<Rightarrow> u8 \<Rightarrow> u8 \<Rightarrow> u8 \<Rightarrow> u32" where
  "le32 b0 b1 b2 b3 =
     ucast b0 OR push_bit 8 (ucast b1) OR push_bit 16 (ucast b2) OR push_bit 24 (ucast b3)"

definition byte_at :: "nat \<Rightarrow> u32 \<Rightarrow> u8" where
  "byte_at i v = ucast (drop_bit (8 * i) v AND 0xFF)"

definition le16 :: "u8 \<Rightarrow> u8 \<Rightarrow> u16" where
  "le16 b0 b1 = ucast ((ucast b0 :: u32) OR push_bit 8 (ucast b1))"

definition le32_bytes :: "u32 \<Rightarrow> u8 list" where
  "le32_bytes v = [byte_at 0 v, byte_at 1 v, byte_at 2 v, byte_at 3 v]"

lemma bit_byte_at: "bit (byte_at i v) n \<longleftrightarrow> n < 8 \<and> bit v (8 * i + n)"
  by (auto simp: byte_at_def mask8_u32 bit_simps dest: bit_imp_le_length)

lemma bit_le32:
  "bit (le32 a b c d) n \<longleftrightarrow>
     (if n < 8 then bit a n else if n < 16 then bit b (n - 8)
      else if n < 24 then bit c (n - 16) else bit d (n - 24))"
  by (auto simp: le32_def bit_simps dest: bit_imp_le_length)

lemma le32_byte_at [bytes_simps, simp]:
  "le32 (byte_at 0 v) (byte_at (Suc 0) v) (byte_at 2 v) (byte_at 3 v) = v"
  by (rule bit_word_eqI) (auto simp: bit_le32 bit_byte_at)

lemma byte_at_le32 [bytes_simps, simp]:
  "byte_at 0 (le32 a b c d) = a"
  "byte_at (Suc 0) (le32 a b c d) = b"
  "byte_at 2 (le32 a b c d) = c"
  "byte_at 3 (le32 a b c d) = d"
  by (rule bit_word_eqI; auto simp: bit_le32 bit_byte_at dest: bit_imp_le_length)+

lemma length_le32_bytes [simp]: "length (le32_bytes v) = 4"
  by (simp add: le32_bytes_def)

lemma le32_bytes_nth [bytes_simps]: "i < 4 \<Longrightarrow> le32_bytes v ! i = byte_at i v"
  by (auto simp: le32_bytes_def less_Suc_eq numeral_eq_Suc)

lemma bit_le16: "bit (le16 a b) n \<longleftrightarrow> (if n < 8 then bit a n else bit b (n - 8))"
  by (auto simp: le16_def bit_simps dest: bit_imp_le_length)

subsection \<open>Single-bit tests\<close>

text \<open>
  The sources test a flag with a mask, \<open>flags & (1u << n)\<close>; the bit view of such a test.
\<close>

lemma and_bit_eq_0: "(w AND push_bit n 1 = (0 :: 'a::len word)) \<longleftrightarrow> \<not> bit w n"
proof -
  have "w AND push_bit n 1 = (if bit w n then push_bit n 1 else 0)"
    by (rule bit_word_eqI) (auto simp: bit_simps)
  moreover have "bit w n \<Longrightarrow> push_bit n (1 :: 'a word) \<noteq> 0"
    by (metis bit_0_eq bit_1_iff bit_imp_le_length bit_push_bit_iff bot_apply bot_bool_def
        diff_self_eq_0 order_refl possible_bit_word)
  ultimately show ?thesis by simp
qed

lemma and_1_eq_0: "(w AND 1 = (0 :: u32)) \<longleftrightarrow> \<not> bit w 0"
  using and_bit_eq_0 [of w 0] by simp

lemma and_numeral_bit_eq_0:
  fixes w :: u32
  shows "(w AND 2 = 0) \<longleftrightarrow> \<not> bit w 1" "(w AND 0x20 = 0) \<longleftrightarrow> \<not> bit w 5"
    "(w AND 0x40 = 0) \<longleftrightarrow> \<not> bit w 6" "(w AND 0x80 = 0) \<longleftrightarrow> \<not> bit w 7"
    "(w AND 0x100 = 0) \<longleftrightarrow> \<not> bit w 8" "(w AND 0x10000000 = 0) \<longleftrightarrow> \<not> bit w 28"
    "(w AND 0x20000000 = 0) \<longleftrightarrow> \<not> bit w 29" "(w AND 0x40000000 = 0) \<longleftrightarrow> \<not> bit w 30"
    "(w AND 0x80000000 = 0) \<longleftrightarrow> \<not> bit w 31"
  using and_bit_eq_0 [of w 1] and_bit_eq_0 [of w 5] and_bit_eq_0 [of w 6] and_bit_eq_0 [of w 7]
    and_bit_eq_0 [of w 8] and_bit_eq_0 [of w 28] and_bit_eq_0 [of w 29] and_bit_eq_0 [of w 30]
    and_bit_eq_0 [of w 31]
  by (simp_all add: push_bit_eq_mult)

lemma bit_single_u32: "bit (push_bit k 1 :: u32) n \<longleftrightarrow> n = k \<and> k < 32"
  by (auto simp: bit_simps)

lemma bit_field_u32: "bit (push_bit k (mask w) :: u32) n \<longleftrightarrow> k \<le> n \<and> n - k < w \<and> n < 32"
  by (auto simp: bit_simps)

lemma msb_u32_sint: "bit (w :: u32) 31 \<longleftrightarrow> sint w < 0"
  by (simp add: bit_last_iff [symmetric])

subsection \<open>Words as integers\<close>

text \<open>
  The unsigned and signed readings of a 32-bit word as linear arithmetic, so that statements
  about carry, borrow and overflow become case splits over two integers.
\<close>

lemma uint_u32_bounds: "0 \<le> uint (w :: u32)" "uint (w :: u32) < 4294967296"
  using uint_lt2p [of w] by simp_all

lemma uint_ucast_u64: "uint (ucast (a :: u32) :: u64) = uint a"
  using uint_u32_bounds [of a] by (simp add: unsigned_ucast_eq take_bit_int_eq_self)

lemma uint_u32_cases:
  obtains x where "uint (w :: u32) = x" "0 \<le> x" "x < 4294967296"
  using uint_u32_bounds [of w] by blast

lemma bit31_iff: "bit (w :: u32) 31 \<longleftrightarrow> 2147483648 \<le> uint w"
proof -
  obtain x where x: "uint w = x" "0 \<le> x" "x < 4294967296" by (rule uint_u32_cases)
  have "bit w 31 \<longleftrightarrow> bit (uint w) 31" by (simp add: bit_uint_iff)
  also have "\<dots> \<longleftrightarrow> odd (x div 2 ^ 31)" by (simp add: bit_iff_odd x)
  also have "x div 2 ^ 31 = (if 2147483648 \<le> x then 1 else 0)" using x by auto
  finally show ?thesis by (simp add: x)
qed

lemma sint_u32: "sint (w :: u32) = uint w - (if bit w 31 then 4294967296 else 0)"
  using uint_u32_bounds [of w]
  by (simp add: sint_uint signed_take_bit_eq_take_bit_minus bit_uint_iff take_bit_int_eq_self)

lemma carry_iff: "((ucast (a::u32) :: u64) + ucast (b::u32) > 0xFFFFFFFF) \<longleftrightarrow> 4294967296 \<le> uint a + uint b"
proof -
  have "uint ((ucast a :: u64) + ucast b) = uint a + uint b"
    using uint_u32_bounds [of a] uint_u32_bounds [of b] by (simp add: uint_word_ariths uint_ucast_u64)
  then have "((ucast a :: u64) + ucast b > 0xFFFFFFFF) \<longleftrightarrow> 4294967295 < uint a + uint b"
    by (simp add: word_less_def)
  then show ?thesis by presburger
qed

lemma borrow_iff: "((ucast (b::u32) :: u64) > ucast a) \<longleftrightarrow> a < b"
  by (simp add: word_less_def uint_ucast_u64)

lemma mod_small_add:
  assumes "0 \<le> x" "x < m" "0 \<le> y" "y < (m :: int)"
  shows "(x + y) mod m = x + y - (if m \<le> x + y then m else 0)"
proof (cases "m \<le> x + y")
  case True
  have "(x + y) mod m = (x + y - m) mod m" by simp
  also have "\<dots> = x + y - m" using assms True by (intro mod_pos_pos_trivial) simp_all
  finally show ?thesis using True by simp
next
  case False
  with assms show ?thesis by (simp add: mod_pos_pos_trivial)
qed

lemma mod_small_diff:
  assumes "0 \<le> x" "x < m" "0 \<le> y" "y < (m :: int)"
  shows "(x - y) mod m = x - y + (if x < y then m else 0)"
proof (cases "x < y")
  case True
  have "(x - y) mod m = (x - y + m) mod m" by simp
  also have "\<dots> = x - y + m" using assms True by (intro mod_pos_pos_trivial) simp_all
  finally show ?thesis using True by simp
next
  case False
  with assms show ?thesis by (simp add: mod_pos_pos_trivial)
qed

lemma uint_add_u32: "uint (a + b :: u32) = uint a + uint b - (if 4294967296 \<le> uint a + uint b then 4294967296 else 0)"
proof -
  obtain x where x: "uint a = x" "0 \<le> x" "x < 4294967296" by (rule uint_u32_cases)
  obtain y where y: "uint b = y" "0 \<le> y" "y < 4294967296" by (rule uint_u32_cases)
  have "uint (a + b) = (x + y) mod 4294967296" by (simp add: uint_word_ariths x y)
  also have "\<dots> = x + y - (if 4294967296 \<le> x + y then 4294967296 else 0)"
    by (rule mod_small_add) (use x(2,3) y(2,3) in simp_all)
  finally show ?thesis by (simp add: x y)
qed

lemma uint_sub_u32: "uint (a - b :: u32) = uint a - uint b + (if uint a < uint b then 4294967296 else 0)"
proof -
  obtain x where x: "uint a = x" "0 \<le> x" "x < 4294967296" by (rule uint_u32_cases)
  obtain y where y: "uint b = y" "0 \<le> y" "y < 4294967296" by (rule uint_u32_cases)
  have "uint (a - b) = (x - y) mod 4294967296" by (simp add: uint_word_ariths x y)
  also have "\<dots> = x - y + (if x < y then 4294967296 else 0)"
    by (rule mod_small_diff) (use x(2,3) y(2,3) in simp_all)
  finally show ?thesis by (simp add: x y)
qed

lemma xor_msb: "((a XOR b) AND 0x80000000 = (0::u32)) \<longleftrightarrow> (bit a 31 \<longleftrightarrow> bit b 31)"
  by (simp add: and_numeral_bit_eq_0 bit_simps)

lemma ucast_u8_u32 [simp]: "(ucast (ucast (c :: u8) :: u32) :: u8) = c"
  by (rule bit_word_eqI) (simp add: bit_simps)

lemma unat_u32_less: "unat (w :: u32) < 4294967296"
proof -
  have "unat w < 2 ^ LENGTH(32)" by (rule unsigned_less)
  then show ?thesis by simp
qed
lemma unat_of_nat_u32: "k < 4294967296 \<Longrightarrow> unat (of_nat k :: u32) = k"
  by (simp add: unat_of_nat)
lemma countdown_arith:
  assumes "Suc k < unat (c :: u32)"
  shows "0 < c - of_nat k" "c - of_nat k \<noteq> 1"
proof -
  have "k < 4294967296" using assms unat_u32_less [of c] by linarith
  then have small: "unat (of_nat k :: u32) = k" by (rule unat_of_nat_u32)
  have le: "(of_nat k :: u32) \<le> c" unfolding word_le_nat_alt small using assms by linarith
  have u: "unat (c - of_nat k) = unat c - k"
    using unat_sub [OF le] small by simp
  show "0 < c - of_nat k" using u assms by (simp add: word_less_nat_alt)
  show "c - of_nat k \<noteq> 1" 
  proof
    assume "c - of_nat k = 1"
    then have "unat (c - of_nat k) = 1" by simp
    with u assms show False by linarith
  qed
qed

subsection \<open>Stores of 32-bit words\<close>

text \<open>
  Both programs keep 32-bit words as four bytes in a byte store and change some bits of a word
  in place: the emulator sets the dirty bit of a page table entry in \<open>mem\<close>, the linker patches
  an instruction inside a section's bytes. \<open>rmw\<close> is that read-modify-write; the locale states
  what it needs of the store: a written word is read back, words at places that are apart do not
  disturb each other.
\<close>

definition rmw :: "('m \<Rightarrow> 'a \<Rightarrow> u32) \<Rightarrow> ('m \<Rightarrow> 'a \<Rightarrow> u32 \<Rightarrow> 'm) \<Rightarrow> (u32 \<Rightarrow> u32) \<Rightarrow> 'm \<Rightarrow> 'a \<Rightarrow> 'm" where
  "rmw get put f m a = put m a (f (get m a))"

fun rmw_all ::
    "('m \<Rightarrow> 'a \<Rightarrow> u32) \<Rightarrow> ('m \<Rightarrow> 'a \<Rightarrow> u32 \<Rightarrow> 'm) \<Rightarrow> ('a \<times> (u32 \<Rightarrow> u32)) list \<Rightarrow> 'm \<Rightarrow> 'm" where
  "rmw_all get put [] m = m"
| "rmw_all get put ((a, f) # ps) m = rmw_all get put ps (rmw get put f m a)"

locale word_store =
  fixes get :: "'m \<Rightarrow> 'a \<Rightarrow> u32"
    and put :: "'m \<Rightarrow> 'a \<Rightarrow> u32 \<Rightarrow> 'm"
    and valid :: "'m \<Rightarrow> 'a \<Rightarrow> bool"
    and apart :: "'a \<Rightarrow> 'a \<Rightarrow> bool"
  assumes get_put: "valid m a \<Longrightarrow> get (put m a v) a = v"
    and get_put_apart: "valid m a \<Longrightarrow> valid m b \<Longrightarrow> apart a b \<Longrightarrow> get (put m a v) b = get m b"
    and valid_put: "valid (put m a v) b = valid m b"
    and put_put: "valid m a \<Longrightarrow> put (put m a v) a w = put m a w"
    and apart_commute: "apart a b \<Longrightarrow> apart b a"
begin

lemma get_rmw: "valid m a \<Longrightarrow> get (rmw get put f m a) a = f (get m a)"
  by (simp add: rmw_def get_put)

lemma get_rmw_apart:
  "valid m a \<Longrightarrow> valid m b \<Longrightarrow> apart a b \<Longrightarrow> get (rmw get put f m a) b = get m b"
  by (simp add: rmw_def get_put_apart)

lemma valid_rmw: "valid (rmw get put f m a) b = valid m b"
  by (simp add: rmw_def valid_put)

lemma rmw_rmw:
  "valid m a \<Longrightarrow> rmw get put g (rmw get put f m a) a = rmw get put (g \<circ> f) m a"
  by (simp add: rmw_def get_put put_put)

lemma valid_rmw_all: "valid (rmw_all get put ps m) b = valid m b"
proof (induction ps arbitrary: m)
  case (Cons p ps)
  then show ?case by (cases p) (simp add: valid_rmw)
qed simp

lemma get_rmw_all_apart:
  "valid m b \<Longrightarrow> (\<And>a f. (a, f) \<in> set ps \<Longrightarrow> valid m a \<and> apart a b) \<Longrightarrow>
     get (rmw_all get put ps m) b = get m b"
proof (induction ps arbitrary: m)
  case Nil
  then show ?case by simp
next
  case (Cons p ps)
  obtain a f where p: "p = (a, f)" by force
  have "get (rmw_all get put ps (rmw get put f m a)) b = get (rmw get put f m a) b"
    using Cons.prems by (intro Cons.IH) (auto simp: valid_rmw)
  moreover have "get (rmw get put f m a) b = get m b"
    using Cons.prems p by (intro get_rmw_apart) auto
  ultimately show ?case by (simp add: p)
qed

text \<open>A batch of patches at pairwise separate places applies each exactly once.\<close>

lemma get_rmw_all:
  assumes "\<And>a f. (a, f) \<in> set ps \<Longrightarrow> valid m a"
    and "sorted_wrt (\<lambda>p q. apart (fst p) (fst q)) ps"
    and "(a, f) \<in> set ps"
  shows "get (rmw_all get put ps m) a = f (get m a)"
  using assms
proof (induction ps arbitrary: m)
  case Nil
  then show ?case by simp
next
  case (Cons p ps)
  obtain b g where p: "p = (b, g)" by force
  show ?case
  proof (cases "(a, f) = p")
    case True
    then have "get (rmw_all get put ps (rmw get put f m a)) a = get (rmw get put f m a) a"
      using Cons.prems p by (intro get_rmw_all_apart) (fastforce simp: valid_rmw intro: apart_commute)+
    moreover have "valid m a"
      using Cons.prems by blast
    ultimately show ?thesis using True p by (simp add: get_rmw)
  next
    case False
    with Cons.prems have mem: "(a, f) \<in> set ps" by simp
    then have "get (rmw_all get put ps (rmw get put g m b)) a = f (get (rmw get put g m b) a)"
      using Cons.prems p by (intro Cons.IH) (auto simp: valid_rmw)
    moreover have "get (rmw get put g m b) a = get m a"
      using Cons.prems p mem by (intro get_rmw_apart) auto
    ultimately show ?thesis by (simp add: p)
  qed
qed

end

subsection \<open>First-match tables of named entries\<close>

text \<open>
  The assembler's \<open>symtab\<close> and the linker's \<open>glob_syms\<close> are arrays searched from the front for
  an entry of a given name. \<open>find\<close> is that search, \<open>key\<close> the name of an entry.
\<close>

locale name_table =
  fixes key :: "'e \<Rightarrow> 'n"
    and find :: "'e list \<Rightarrow> 'n \<Rightarrow> 'e option"
  assumes find_Nil: "find [] n = None"
    and find_Cons: "find (e # t) n = (if key e = n then Some e else find t n)"
begin

lemma find_None_iff: "find t n = None \<longleftrightarrow> n \<notin> key ` set t"
  by (induction t) (auto simp: find_Nil find_Cons)

lemma find_Some_key: "find t n = Some e \<Longrightarrow> key e = n \<and> e \<in> set t"
  by (induction t) (auto simp: find_Nil find_Cons split: if_splits)

lemma find_append:
  "find (t @ u) n = (case find t n of Some e \<Rightarrow> Some e | None \<Rightarrow> find u n)"
  by (induction t) (auto simp: find_Nil find_Cons)

lemma find_add_fresh: "find t (key e) = None \<Longrightarrow> find (t @ [e]) n = (if key e = n then Some e else find t n)"
  by (auto simp: find_append find_Nil find_Cons split: option.split)

lemma find_distinct: "distinct (map key t) \<Longrightarrow> e \<in> set t \<Longrightarrow> find t (key e) = Some e"
  by (induction t) (auto simp: find_Nil find_Cons rev_image_eqI)

lemma distinct_add_fresh:
  "distinct (map key t) \<Longrightarrow> find t (key e) = None \<Longrightarrow> distinct (map key (t @ [e]))"
  by (auto simp: find_None_iff)

end

end
