(* ===== verification/Machine.thy ===== *)
theory Machine
  imports Prelude
begin

text \<open>
  The state of the emulator (\<open>emulator.c\<close>, lines 43 to 141): the physical memory \<open>mem\<close>, the
  64-entry translation buffer \<open>tlb\<close>, the \<open>CPU\<close> structure, and the memory helpers. The record
  \<open>CPU\<close> has the fields of the C structure, and \<open>machine\<close> extends it with the file's other
  variables and with what the emulator reads and writes of its surroundings:
  \<^item> \<open>stdin_q\<close>: what successive calls of \<open>read_one\<close> find on standard input, \<open>None\<close> for nothing;
  \<^item> \<open>stdout_q\<close>: the bytes written to standard output, oldest first;
  \<^item> \<open>exited\<close>: the process has called \<open>exit\<close>.

  Two fields are not variables of the program but record that it has left defined C:
  \<^item> \<open>oob\<close>: \<open>mem[]\<close> has been indexed outside its \<open>MEM_SIZE\<close> bytes;
  \<^item> \<open>sovf\<close>: a signed \<open>int32_t\<close> operation has overflowed.
  Once one of them is set the state after it is what a host with wrapping arithmetic and a
  zero-based 32-bit memory would show, and the theorems that need defined behaviour say so.
\<close>

subsection \<open>Address map\<close>

abbreviation MEM_SIZE :: u32 where "MEM_SIZE \<equiv> 0x04000000"
abbreviation MMIO_BASE :: u32 where "MMIO_BASE \<equiv> 0x03F00000"
abbreviation UART_BASE :: u32 where "UART_BASE \<equiv> 0x03F00000"
abbreviation TIMER_BASE :: u32 where "TIMER_BASE \<equiv> 0x03F01000"
abbreviation IC_BASE :: u32 where "IC_BASE \<equiv> 0x03F02000"
abbreviation BLK_BASE :: u32 where "BLK_BASE \<equiv> 0x03F03000"
abbreviation SV_BASE :: u32 where "SV_BASE \<equiv> 0x03FFF000"

subsection \<open>The translation buffer\<close>

text \<open>
  The integer fields \<open>valid\<close>, \<open>global\<close> and \<open>superpage\<close> only ever hold 0 or 1. The buffer is
  indexed by \<open>va_vpn % TLB_SIZE\<close> with \<open>TLB_SIZE\<close> = 64, so its index type is the 6-bit words.
\<close>

record TLBEntry =
  va_tag :: u32
  te_pa :: u32
  te_flags :: u32
  te_valid :: bool
  te_global :: bool
  te_superpage :: bool
  sp_pa_base :: u32

type_synonym tlb = "6 word \<Rightarrow> TLBEntry"

definition tlb_entry0 :: TLBEntry where
  "tlb_entry0 = \<lparr>va_tag = 0, te_pa = 0, te_flags = 0, te_valid = False, te_global = False,
     te_superpage = False, sp_pa_base = 0\<rparr>"

subsection \<open>The CPU structure and the machine\<close>

text \<open>A register number is a 4-bit field of an instruction word: it indexes \<open>r[16]\<close> in bounds.\<close>

type_synonym reg = "4 word"

record CPU =
  regs :: "reg \<Rightarrow> u32"
  flags :: u32
  epc :: u32
  eflags :: u32
  evec :: u32
  cause :: u32
  status :: u32
  halted :: bool
  estatus :: u32
  uart_poll_divider :: u32
  faulting_pc :: u32
  satp :: u32
  badaddr :: u32
  uart_control :: u32
  uart_rx_ready :: bool
  uart_rx_byte :: u8
  timer_period :: u32
  timer_count :: u32
  timer_control :: u32
  ic_pending :: u32
  ic_mask :: u32
  blk_sector :: u32
  blk_buffer :: u32
  blk_status :: u32
  blk_control :: u32
  blk_file :: "u8 list option"

type_synonym memory = "u32 \<Rightarrow> u8"

record machine = CPU +
  mem :: memory
  tlb :: tlb
  escape_pending :: bool
  stdin_q :: "u8 option list"
  stdout_q :: "u8 list"
  exited :: bool
  oob :: bool
  sovf :: bool

abbreviation PC :: reg where "PC \<equiv> 15"

text \<open>All statics zero, as the C runtime leaves them before \<open>main\<close>.\<close>

definition zero_machine :: machine where
  "zero_machine =
     \<lparr>regs = (\<lambda>i. 0), flags = 0, epc = 0, eflags = 0, evec = 0, cause = 0, status = 0,
      halted = False, estatus = 0, uart_poll_divider = 0, faulting_pc = 0, satp = 0, badaddr = 0,
      uart_control = 0, uart_rx_ready = False, uart_rx_byte = 0, timer_period = 0, timer_count = 0,
      timer_control = 0, ic_pending = 0, ic_mask = 0, blk_sector = 0, blk_buffer = 0,
      blk_status = 0, blk_control = 0, blk_file = None, mem = (\<lambda>a. 0), tlb = (\<lambda>i. tlb_entry0),
      escape_pending = False, stdin_q = [], stdout_q = [], exited = False, oob = False, sovf = False\<rparr>"

definition set_reg :: "reg \<Rightarrow> u32 \<Rightarrow> machine \<Rightarrow> machine" where
  "set_reg i v s = s\<lparr>regs := (regs s)(i := v)\<rparr>"

definition supervisor :: "machine \<Rightarrow> bool" where
  "supervisor s \<longleftrightarrow> status s AND 1 \<noteq> 0"

subsection \<open>Memory helpers\<close>

definition mem_read32 :: "memory \<Rightarrow> u32 \<Rightarrow> u32" where
  "mem_read32 m addr = le32 (m addr) (m (addr + 1)) (m (addr + 2)) (m (addr + 3))"

definition mem_read16 :: "memory \<Rightarrow> u32 \<Rightarrow> u16" where
  "mem_read16 m addr = le16 (m addr) (m (addr + 1))"

definition mem_read8 :: "memory \<Rightarrow> u32 \<Rightarrow> u8" where
  "mem_read8 m addr = m addr"

definition mem_write32 :: "memory \<Rightarrow> u32 \<Rightarrow> u32 \<Rightarrow> memory" where
  "mem_write32 m addr v =
     m(addr := byte_at 0 v, addr + 1 := byte_at 1 v, addr + 2 := byte_at 2 v, addr + 3 := byte_at 3 v)"

definition mem_write16 :: "memory \<Rightarrow> u32 \<Rightarrow> u16 \<Rightarrow> memory" where
  "mem_write16 m addr v = m(addr := ucast (v AND 0xFF), addr + 1 := ucast (drop_bit 8 v AND 0xFF))"

definition mem_write8 :: "memory \<Rightarrow> u32 \<Rightarrow> u8 \<Rightarrow> memory" where
  "mem_write8 m addr v = m(addr := v)"

text \<open>
  Every access of the emulator to \<open>mem[addr .. addr+n-1]\<close> goes through \<open>touch\<close>, which records
  an access outside the array.
\<close>

definition in_mem :: "u32 \<Rightarrow> nat \<Rightarrow> bool" where
  "in_mem addr n \<longleftrightarrow> uint addr + int n \<le> 0x04000000"

definition touch :: "u32 \<Rightarrow> nat \<Rightarrow> machine \<Rightarrow> machine" where
  "touch addr n s = s\<lparr>oob := (oob s \<or> \<not> in_mem addr n)\<rparr>"

definition store32 :: "u32 \<Rightarrow> u32 \<Rightarrow> machine \<Rightarrow> machine" where
  "store32 addr v s = (touch addr 4 s)\<lparr>mem := mem_write32 (mem s) addr v\<rparr>"

definition store16 :: "u32 \<Rightarrow> u16 \<Rightarrow> machine \<Rightarrow> machine" where
  "store16 addr v s = (touch addr 2 s)\<lparr>mem := mem_write16 (mem s) addr v\<rparr>"

definition store8 :: "u32 \<Rightarrow> u8 \<Rightarrow> machine \<Rightarrow> machine" where
  "store8 addr v s = (touch addr 1 s)\<lparr>mem := mem_write8 (mem s) addr v\<rparr>"

lemma touch_in_mem [simp]: "in_mem addr n \<Longrightarrow> touch addr n s = s"
  by (simp add: touch_def)

subsection \<open>Reading back what was written\<close>

lemma mem_read_write32 [mem_simps, simp]: "mem_read32 (mem_write32 m a v) a = v"
  by (simp add: mem_read32_def mem_write32_def)

text \<open>Two words at addresses that are apart (at least four bytes, both ways round) are independent.\<close>

definition apart32 :: "u32 \<Rightarrow> u32 \<Rightarrow> bool" where
  "apart32 a b \<longleftrightarrow> 4 \<le> b - a \<and> 4 \<le> a - b"

lemma apart32_commute: "apart32 a b \<Longrightarrow> apart32 b a"
  by (simp add: apart32_def)

lemma apart32_neq: "apart32 a b \<Longrightarrow> b - a \<noteq> 0 \<and> b - a \<noteq> 1 \<and> b - a \<noteq> 2 \<and> b - a \<noteq> 3 \<and> b - a \<noteq> - 1 \<and> b - a \<noteq> - 2 \<and> b - a \<noteq> - 3"
proof -
  assume "apart32 a b"
  then have "4 \<le> b - a" "4 \<le> - (b - a)" by (auto simp: apart32_def)
  then show ?thesis by (intro conjI notI; simp add: word_le_def)
qed
lemma apart32_offsets:
  assumes "apart32 a b"
  shows "b \<noteq> a" "b + 1 \<noteq> a" "b + 2 \<noteq> a" "b + 3 \<noteq> a" "b \<noteq> a + 1" "b \<noteq> a + 2" "b \<noteq> a + 3"
    "b + 2 \<noteq> a + 1" "b + 3 \<noteq> a + 1" "b + 1 \<noteq> a + 2" "b + 3 \<noteq> a + 2" "b + 1 \<noteq> a + 3" "b + 2 \<noteq> a + 3"
  using apart32_neq [OF assms] by (auto simp: diff_eq_eq eq_diff_eq algebra_simps)

lemma mem_read_write32_apart [mem_simps]:
  "apart32 a b \<Longrightarrow> mem_read32 (mem_write32 m a v) b = mem_read32 m b"
  by (simp add: mem_read32_def mem_write32_def apart32_offsets)

lemma mem_write_write32 [mem_simps]: "mem_write32 (mem_write32 m a v) a w = mem_write32 m a w"
  by (auto simp: mem_write32_def fun_eq_iff)

interpretation memw: word_store mem_read32 mem_write32 "\<lambda>m a. True" apart32
  by unfold_locales (auto simp: mem_simps apart32_commute)

text \<open>Word-aligned addresses are either equal or apart, and an aligned word starting in memory ends in it.\<close>

lemma and3_dvd: "(a AND 3 = (0::u32)) \<longleftrightarrow> 4 dvd uint a"
proof -
  have "(3 :: u32) = mask 2" by (simp add: mask_eq_exp_minus_1)
  then have "a AND 3 = take_bit 2 a" by (simp add: take_bit_eq_mask)
  moreover have "take_bit 2 a = 0 \<longleftrightarrow> uint (take_bit 2 a) = 0" by (simp add: word_uint_eq_iff)
  moreover have "uint (take_bit 2 a) = uint a mod 4"
    by (simp add: take_bit_eq_mod uint_mod)
  ultimately show ?thesis by (simp add: dvd_eq_mod_eq_0)
qed

lemma uint_diff_dvd4: "4 dvd uint a \<Longrightarrow> 4 dvd uint b \<Longrightarrow> 4 dvd uint (a - b :: u32)"
  by (simp add: uint_word_ariths dvd_mod)

lemma dvd4_ge: "4 dvd uint (d::u32) \<Longrightarrow> d \<noteq> 0 \<Longrightarrow> 4 \<le> d"
proof -
  assume "4 dvd uint d" "d \<noteq> 0"
  then have "4 \<le> uint d" by (metis uint_0_iff zdvd_imp_le linorder_not_le uint_ge_0 order_le_less word_uint_eq_iff uint_0_eq)
  then show ?thesis by (simp add: word_le_def)
qed

lemma aligned_apart32:
  assumes "a AND 3 = 0" "b AND 3 = 0" "a \<noteq> b"
  shows "apart32 a b"
  using assms unfolding apart32_def and3_dvd by (simp add: dvd4_ge uint_diff_dvd4)


lemma in_mem_aligned: "a AND 3 = 0 \<Longrightarrow> a < MEM_SIZE \<Longrightarrow> in_mem a 4"
proof -
  assume "a AND 3 = 0" "a < MEM_SIZE"
  then have "4 dvd uint a" "uint a < 0x04000000" by (auto simp: and3_dvd word_less_def)
  then have "uint a + 4 \<le> 0x04000000" by presburger
  then show ?thesis by (simp add: in_mem_def)
qed

end
