(* ===== verification/Flags.thy ===== *)
theory Flags
  imports Machine
begin

text \<open>
  Exception entry and the status flags (\<open>emulator.c\<close>, lines 148 to 192), and the branch
  conditions that read the flags (the switch at lines 1032 to 1051). The first group of lemmas
  gives the state an exception leaves; the second reads the flag word bit by bit and relates it
  to integer arithmetic: carry and borrow to the unsigned values, overflow to the signed ones.
  \<open>branch_after_sub\<close> is what the two halves of a compare-and-branch sequence compute together.
\<close>

subsection \<open>Exception dispatch\<close>

definition vector_pc :: "u32 \<Rightarrow> machine \<Rightarrow> machine" where
  "vector_pc hvec s =
     (if hvec < MEM_SIZE then set_reg PC (mem_read32 (mem s) hvec) (touch hvec 4 s)
      else set_reg PC 0 s)"

definition raise_exception :: "u32 \<Rightarrow> machine \<Rightarrow> machine" where
  "raise_exception c s =
     vector_pc (evec s + c * 4)
       (s\<lparr>estatus := status s, epc := faulting_pc s, eflags := flags s, cause := c, status := 0x01\<rparr>)"

definition handler :: "u32 \<Rightarrow> machine \<Rightarrow> u32" where
  "handler c s = (let hvec = evec s + c * 4 in if hvec < MEM_SIZE then mem_read32 (mem s) hvec else 0)"

lemma raise_exception_eq:
  "raise_exception c s =
     s\<lparr>estatus := status s, epc := faulting_pc s, eflags := flags s, cause := c, status := 1,
       regs := (regs s)(PC := handler c s),
       oob := (oob s \<or> evec s + c * 4 < MEM_SIZE \<and> \<not> in_mem (evec s + c * 4) 4)\<rparr>"
  by (simp add: raise_exception_def vector_pc_def handler_def set_reg_def touch_def Let_def)

lemma raise_exception_fields [frame_simps, simp]:
  "estatus (raise_exception c s) = status s" "epc (raise_exception c s) = faulting_pc s"
  "eflags (raise_exception c s) = flags s" "cause (raise_exception c s) = c"
  "status (raise_exception c s) = 1" "regs (raise_exception c s) = (regs s)(PC := handler c s)"
  by (simp_all add: raise_exception_eq)

lemma raise_exception_frame [frame_simps, simp]:
  "mem (raise_exception c s) = mem s" "tlb (raise_exception c s) = tlb s"
  "flags (raise_exception c s) = flags s" "evec (raise_exception c s) = evec s"
  "satp (raise_exception c s) = satp s" "badaddr (raise_exception c s) = badaddr s"
  "halted (raise_exception c s) = halted s" "exited (raise_exception c s) = exited s"
  "uart_poll_divider (raise_exception c s) = uart_poll_divider s"
  "faulting_pc (raise_exception c s) = faulting_pc s"
  "blk_file (raise_exception c s) = blk_file s" "blk_buffer (raise_exception c s) = blk_buffer s"
  "stdout_q (raise_exception c s) = stdout_q s" "sovf (raise_exception c s) = sovf s"
  "ic_pending (raise_exception c s) = ic_pending s" "ic_mask (raise_exception c s) = ic_mask s"
  by (simp_all add: raise_exception_eq)

lemma supervisor_raise [simp]: "supervisor (raise_exception c s)"
  by (simp add: supervisor_def)

lemma aligned_vector: "evec s AND 3 = 0 \<Longrightarrow> (evec s + c * 4) AND 3 = 0"
  by (simp add: and3_dvd uint_word_ariths mod_add_right_eq dvd_mod)

lemma oob_raise_aligned: "evec s AND 3 = 0 \<Longrightarrow> oob (raise_exception c s) = oob s"
  using in_mem_aligned [OF aligned_vector] by (auto simp: raise_exception_eq)

subsection \<open>Flag helpers\<close>

abbreviation FLAG_N :: u32 where "FLAG_N \<equiv> 0x80000000"
abbreviation FLAG_Z :: u32 where "FLAG_Z \<equiv> 0x40000000"
abbreviation FLAG_C :: u32 where "FLAG_C \<equiv> 0x20000000"
abbreviation FLAG_V :: u32 where "FLAG_V \<equiv> 0x10000000"

definition update_flags_nz :: "u32 \<Rightarrow> machine \<Rightarrow> machine" where
  "update_flags_nz result s =
     s\<lparr>flags := (flags s AND NOT (FLAG_N OR FLAG_Z))
        OR (if result AND 0x80000000 \<noteq> 0 then FLAG_N else 0)
        OR (if result = 0 then FLAG_Z else 0)\<rparr>"

definition clear_cv :: "machine \<Rightarrow> machine" where
  "clear_cv s = s\<lparr>flags := flags s AND NOT (FLAG_C OR FLAG_V)\<rparr>"

definition set_nzcv :: "u32 \<Rightarrow> bool \<Rightarrow> bool \<Rightarrow> machine \<Rightarrow> machine" where
  "set_nzcv result carry overflow s =
     s\<lparr>flags := (flags s AND NOT (FLAG_N OR FLAG_Z OR FLAG_C OR FLAG_V))
        OR (if result AND 0x80000000 \<noteq> 0 then FLAG_N else 0)
        OR (if result = 0 then FLAG_Z else 0)
        OR (if carry then FLAG_C else 0)
        OR (if overflow then FLAG_V else 0)\<rparr>"

definition add_overflow :: "u32 \<Rightarrow> u32 \<Rightarrow> u32 \<Rightarrow> bool" where
  "add_overflow a b result \<longleftrightarrow>
     (a XOR b) AND 0x80000000 = 0 \<and> (result XOR a) AND 0x80000000 \<noteq> 0"

definition sub_overflow :: "u32 \<Rightarrow> u32 \<Rightarrow> u32 \<Rightarrow> bool" where
  "sub_overflow a b result \<longleftrightarrow>
     (a XOR b) AND 0x80000000 \<noteq> 0 \<and> (result XOR a) AND 0x80000000 \<noteq> 0"

definition update_flags_add :: "u32 \<Rightarrow> u32 \<Rightarrow> u32 \<Rightarrow> machine \<Rightarrow> machine" where
  "update_flags_add a b result s =
     (let ua = ucast a :: u64; ub = ucast b :: u64; carry = ua + ub > 0xFFFFFFFF
      in set_nzcv result carry (add_overflow a b result) s)"

definition update_flags_sub :: "u32 \<Rightarrow> u32 \<Rightarrow> u32 \<Rightarrow> machine \<Rightarrow> machine" where
  "update_flags_sub a b result s =
     (let borrow = (ucast b :: u64) > ucast a
      in set_nzcv result borrow (sub_overflow a b result) s)"

subsection \<open>The flag word, bit by bit\<close>

lemma flags_set_nzcv_bits [simp]:
  "bit (flags (set_nzcv r c v s)) 31 \<longleftrightarrow> bit r 31"
  "bit (flags (set_nzcv r c v s)) 30 \<longleftrightarrow> r = 0"
  "bit (flags (set_nzcv r c v s)) 29 \<longleftrightarrow> c"
  "bit (flags (set_nzcv r c v s)) 28 \<longleftrightarrow> v"
  by (auto simp: set_nzcv_def bit_simps and_numeral_bit_eq_0)

lemma flags_update_nz_bits [simp]:
  "bit (flags (update_flags_nz r s)) 31 \<longleftrightarrow> bit r 31"
  "bit (flags (update_flags_nz r s)) 30 \<longleftrightarrow> r = 0"
  "bit (flags (update_flags_nz r s)) 29 \<longleftrightarrow> bit (flags s) 29"
  "bit (flags (update_flags_nz r s)) 28 \<longleftrightarrow> bit (flags s) 28"
  by (auto simp: update_flags_nz_def bit_simps and_numeral_bit_eq_0)

lemma flags_clear_cv_bits [simp]:
  "bit (flags (clear_cv s)) 31 \<longleftrightarrow> bit (flags s) 31"
  "bit (flags (clear_cv s)) 30 \<longleftrightarrow> bit (flags s) 30"
  "\<not> bit (flags (clear_cv s)) 29" "\<not> bit (flags (clear_cv s)) 28"
  by (auto simp: clear_cv_def bit_simps)

lemma flags_reserved_bits:
  "n < 28 \<Longrightarrow> bit (flags (set_nzcv r c v s)) n = bit (flags s) n"
  "n < 28 \<Longrightarrow> bit (flags (update_flags_nz r s)) n = bit (flags s) n"
  "n < 28 \<Longrightarrow> bit (flags (clear_cv s)) n = bit (flags s) n"
proof -
  have "n < 28 \<Longrightarrow> \<not> bit (0x80000000 :: u32) n \<and> \<not> bit (0x40000000 :: u32) n \<and>
      \<not> bit (0x20000000 :: u32) n \<and> \<not> bit (0x10000000 :: u32) n \<and> \<not> bit (0xF0000000 :: u32) n \<and>
      \<not> bit (0xC0000000 :: u32) n \<and> \<not> bit (0x30000000 :: u32) n"
    using bit_single_u32 [of 31 n] bit_single_u32 [of 30 n] bit_single_u32 [of 29 n]
      bit_single_u32 [of 28 n] bit_field_u32 [of 28 4 n] bit_field_u32 [of 30 2 n]
      bit_field_u32 [of 28 2 n]
    by (simp add: push_bit_eq_mult mask_eq_exp_minus_1)
  then show "n < 28 \<Longrightarrow> bit (flags (set_nzcv r c v s)) n = bit (flags s) n"
    "n < 28 \<Longrightarrow> bit (flags (update_flags_nz r s)) n = bit (flags s) n"
    "n < 28 \<Longrightarrow> bit (flags (clear_cv s)) n = bit (flags s) n"
    by (auto simp: set_nzcv_def update_flags_nz_def clear_cv_def bit_simps)
qed

subsection \<open>What carry, borrow and overflow mean\<close>

lemma add_overflow_iff: "add_overflow a b (a + b) \<longleftrightarrow> sint a + sint b \<noteq> sint (a + b)"
proof -
  obtain x where x: "uint a = x" "0 \<le> x" "x < 4294967296" by (rule uint_u32_cases)
  obtain y where y: "uint b = y" "0 \<le> y" "y < 4294967296" by (rule uint_u32_cases)
  show ?thesis
    unfolding add_overflow_def xor_msb sint_u32 bit31_iff uint_add_u32 x(1) y(1)
    using x(2,3) y(2,3) by auto
qed

lemma sub_overflow_iff: "sub_overflow a b (a - b) \<longleftrightarrow> sint a - sint b \<noteq> sint (a - b)"
proof -
  obtain x where x: "uint a = x" "0 \<le> x" "x < 4294967296" by (rule uint_u32_cases)
  obtain y where y: "uint b = y" "0 \<le> y" "y < 4294967296" by (rule uint_u32_cases)
  show ?thesis
    unfolding sub_overflow_def xor_msb sint_u32 bit31_iff uint_sub_u32 x(1) y(1)
    using x(2,3) y(2,3) by auto
qed

lemma sub_sign_iff: "(bit (a - b) 31 \<noteq> sub_overflow a b (a - b)) \<longleftrightarrow> a <s b"
proof -
  obtain x where x: "uint a = x" "0 \<le> x" "x < 4294967296" by (rule uint_u32_cases)
  obtain y where y: "uint b = y" "0 \<le> y" "y < 4294967296" by (rule uint_u32_cases)
  show ?thesis
    unfolding sub_overflow_def xor_msb word_sless_alt sint_u32 bit31_iff uint_sub_u32 x(1) y(1)
    using x(2,3) y(2,3) by auto
qed

lemma update_flags_add_eq:
  "update_flags_add a b (a + b) s =
     set_nzcv (a + b) (4294967296 \<le> uint a + uint b) (sint a + sint b \<noteq> sint (a + b)) s"
  by (simp only: update_flags_add_def Let_def carry_iff add_overflow_iff)

lemma update_flags_sub_eq:
  "update_flags_sub a b (a - b) s = set_nzcv (a - b) (a < b) (sint a - sint b \<noteq> sint (a - b)) s"
  by (simp only: update_flags_sub_def Let_def borrow_iff sub_overflow_iff)

subsection \<open>Branch conditions\<close>

text \<open>\<open>None\<close> is the \<open>default\<close> case: a reserved condition code, an illegal instruction.\<close>

definition branch_taken :: "reg \<Rightarrow> u32 \<Rightarrow> bool option" where
  "branch_taken cond fl =
     (let n = (fl AND FLAG_N \<noteq> 0); v = (fl AND FLAG_V \<noteq> 0);
          z = (fl AND FLAG_Z \<noteq> 0); c = (fl AND FLAG_C \<noteq> 0)
      in if cond = 0 then Some z
         else if cond = 1 then Some (\<not> z)
         else if cond = 2 then Some (n \<noteq> v)
         else if cond = 3 then Some (\<not> (n \<noteq> v))
         else if cond = 4 then Some c
         else if cond = 5 then Some (\<not> c)
         else if cond = 6 then Some True
         else if cond = 7 then Some (\<not> z \<and> \<not> (n \<noteq> v))
         else if cond = 8 then Some (z \<or> (n \<noteq> v))
         else if cond = 9 then Some (\<not> c \<and> \<not> z)
         else if cond = 10 then Some (c \<or> z)
         else None)"

text \<open>The relation between two register values that each condition code names in architecture.md.\<close>

definition cond_relation :: "reg \<Rightarrow> u32 \<Rightarrow> u32 \<Rightarrow> bool option" where
  "cond_relation cond a b =
     (if cond = 0 then Some (a = b)
      else if cond = 1 then Some (a \<noteq> b)
      else if cond = 2 then Some (sint a < sint b)
      else if cond = 3 then Some (sint a \<ge> sint b)
      else if cond = 4 then Some (uint a < uint b)
      else if cond = 5 then Some (uint a \<ge> uint b)
      else if cond = 6 then Some True
      else if cond = 7 then Some (sint a > sint b)
      else if cond = 8 then Some (sint a \<le> sint b)
      else if cond = 9 then Some (uint a > uint b)
      else if cond = 10 then Some (uint a \<le> uint b)
      else None)"

lemma branch_after_sub:
  "branch_taken cond (flags (update_flags_sub a b (a - b) s)) = cond_relation cond a b"
proof -
  let ?f = "flags (update_flags_sub a b (a - b) s)"
  have z: "?f AND FLAG_Z \<noteq> 0 \<longleftrightarrow> a = b" and c: "?f AND FLAG_C \<noteq> 0 \<longleftrightarrow> uint a < uint b"
    by (simp_all add: and_numeral_bit_eq_0 update_flags_sub_eq word_less_def)
  have nv: "(?f AND FLAG_N \<noteq> 0) \<noteq> (?f AND FLAG_V \<noteq> 0) \<longleftrightarrow> sint a < sint b"
    using sub_sign_iff [of a b]
    by (simp add: and_numeral_bit_eq_0 update_flags_sub_eq sub_overflow_iff word_sless_alt)
  have eq: "a = b \<longleftrightarrow> uint a = uint b" "a = b \<longleftrightarrow> sint a = sint b"
    by (rule word_uint_eq_iff, rule word_eq_iff_signed)
  show ?thesis
    unfolding branch_taken_def cond_relation_def Let_def nv z c
    by (intro if_cong refl arg_cong [of _ _ Some]) (use eq in linarith)+
qed

end
