(* ===== verification/Mmu.thy ===== *)
theory Mmu
  imports Flags
begin

text \<open>
  Address translation (\<open>emulator.c\<close>, lines 72 to 82 and 194 to 384): the TLB flushes, the TLB
  hit path, the two-level page table walk and \<open>mmu_translate\<close>. \<open>pt_walk\<close> and \<open>translate_spec\<close>
  are the walk of architecture.md as a function of memory alone, without TLB, dirty bit or fault
  delivery; the lemmas show that the cached translation computes it for 4 KB pages while the TLB
  is coherent, that translation keeps the TLB coherent, and what happens on a superpage hit.
\<close>

subsection \<open>TLB flushes\<close>

definition tlb_flush_non_global :: "machine \<Rightarrow> machine" where
  "tlb_flush_non_global s =
     s\<lparr>tlb := (\<lambda>i. if \<not> te_global (tlb s i) then (tlb s i)\<lparr>te_valid := False\<rparr> else tlb s i)\<rparr>"

definition tlb_flush_all :: "machine \<Rightarrow> machine" where
  "tlb_flush_all s = s\<lparr>tlb := (\<lambda>i. (tlb s i)\<lparr>te_valid := False\<rparr>)\<rparr>"

subsection \<open>Permission checks and page faults\<close>

text \<open>The access types 0, 1 and 2 of the C code.\<close>

datatype access = Fetch | Load | Store

definition pf_cause :: "access \<Rightarrow> u32" where
  "pf_cause at = (if at = Fetch then 0x07 else if at = Load then 0x08 else 0x09)"

definition page_fault :: "u32 \<Rightarrow> u32 \<Rightarrow> machine \<Rightarrow> machine" where
  "page_fault va c s = raise_exception c (s\<lparr>badaddr := va\<rparr>)"

text \<open>
  The four checks the code repeats for a TLB entry's flags, a superpage PTE and a leaf PTE, in
  its order; the result is the cause of the fault, if any.
\<close>

definition perm_fault :: "bool \<Rightarrow> u32 \<Rightarrow> access \<Rightarrow> u32 option" where
  "perm_fault user_mode fl at =
     (if user_mode \<and> fl AND 0x100 = 0 then Some (pf_cause at)
      else if at = Fetch \<and> fl AND 0x80 = 0 then Some 0x07
      else if at = Load \<and> fl AND 0x20 = 0 then Some 0x08
      else if at = Store \<and> fl AND 0x40 = 0 then Some 0x09
      else None)"

subsection \<open>Translation\<close>

definition tlb_index :: "u32 \<Rightarrow> 6 word" where
  "tlb_index va_vpn = ucast (va_vpn mod 64)"

definition tlb_hit :: "u32 \<Rightarrow> access \<Rightarrow> machine \<Rightarrow> u32 option \<times> machine" where
  "tlb_hit va at s =
     (let i = tlb_index (drop_bit 12 va); te = tlb s i
      in case perm_fault (\<not> supervisor s) (te_flags te) at of
           Some c \<Rightarrow> (None, page_fault va c s)
         | None \<Rightarrow>
             (let s1 = (if at = Store \<and> te_flags te AND 2 = 0
                        then let s0 = s\<lparr>tlb := (tlb s)(i := te\<lparr>te_flags := te_flags te OR 2\<rparr>)\<rparr>
                             in if sp_pa_base te < MEM_SIZE - 3
                                then store32 (sp_pa_base te) (mem_read32 (mem s0) (sp_pa_base te) OR 2) s0
                                else s0
                        else s)
              in (Some (if te_superpage te then sp_pa_base te OR (va AND 0x3FFFFF)
                        else te_pa te OR (va AND 0xFFF)), s1)))"

text \<open>
  A leaf PTE, found at either level: permission checks, the dirty bit, the new TLB entry. The
  physical address of a superpage joins ten bits of the PTE with 22 bits of the address.
\<close>

definition leaf_pa :: "bool \<Rightarrow> u32 \<Rightarrow> u32 \<Rightarrow> u32" where
  "leaf_pa superpage pte va =
     (let ppn = drop_bit 12 pte AND 0xFFFFF
      in if superpage then push_bit 12 (ppn AND 0xFFC00) OR (va AND 0x3FFFFF)
         else push_bit 12 ppn OR (va AND 0xFFF))"

definition walk_leaf :: "u32 \<Rightarrow> access \<Rightarrow> u32 \<Rightarrow> u32 \<Rightarrow> bool \<Rightarrow> machine \<Rightarrow> u32 option \<times> machine" where
  "walk_leaf va at pte_addr pte superpage s =
     (case perm_fault (\<not> supervisor s) pte at of
        Some c \<Rightarrow> (None, page_fault va c s)
      | None \<Rightarrow>
          (let set_d = (at = Store \<and> pte AND 2 = 0);
               pte' = (if set_d then pte OR 2 else pte);
               s1 = (if set_d then store32 pte_addr pte' s else s);
               te = \<lparr>va_tag = drop_bit 12 va,
                     te_pa = (if superpage then 0 else push_bit 12 (drop_bit 12 pte' AND 0xFFFFF)),
                     te_flags = pte' AND 0xFFF, te_valid = True,
                     te_global = (drop_bit 9 pte' AND 1 \<noteq> 0),
                     te_superpage = superpage, sp_pa_base = pte_addr\<rparr>
           in (Some (leaf_pa superpage pte' va),
               s1\<lparr>tlb := (tlb s1)(tlb_index (drop_bit 12 va) := te)\<rparr>)))"

definition l1_addr :: "u32 \<Rightarrow> u32 \<Rightarrow> u32" where
  "l1_addr satp_val va =
     push_bit 12 (satp_val AND 0x000FFFFF) + (drop_bit 22 va AND 0x3FF) * 4"

definition l2_addr :: "u32 \<Rightarrow> u32 \<Rightarrow> u32" where
  "l2_addr l1_pte va =
     push_bit 12 (drop_bit 12 l1_pte AND 0xFFFFF) + (drop_bit 12 va AND 0x3FF) * 4"

definition pte_out_of_ram :: "u32 \<Rightarrow> bool" where
  "pte_out_of_ram a \<longleftrightarrow> a + 3 \<ge> MEM_SIZE \<or> a \<ge> MMIO_BASE"

definition page_walk :: "u32 \<Rightarrow> access \<Rightarrow> machine \<Rightarrow> u32 option \<times> machine" where
  "page_walk va at s =
     (let a1 = l1_addr (satp s) va
      in if pte_out_of_ram a1 then (None, page_fault va (pf_cause at) s)
         else
           let l1_pte = mem_read32 (mem s) a1; s1 = touch a1 4 s
           in if l1_pte AND 1 = 0 then (None, page_fault va (pf_cause at) s1)
              else if l1_pte AND 0xE0 \<noteq> 0 then walk_leaf va at a1 l1_pte True s1
              else
                let a2 = l2_addr l1_pte va
                in if pte_out_of_ram a2 then (None, page_fault va (pf_cause at) s1)
                   else
                     let l2_pte = mem_read32 (mem s1) a2; s2 = touch a2 4 s1
                     in if l2_pte AND 1 = 0 then (None, page_fault va (pf_cause at) s2)
                        else walk_leaf va at a2 l2_pte False s2)"

definition tlb_match :: "u32 \<Rightarrow> machine \<Rightarrow> bool" where
  "tlb_match va s \<longleftrightarrow>
     (let te = tlb s (tlb_index (drop_bit 12 va)) in te_valid te \<and> va_tag te = drop_bit 12 va)"

text \<open>
  \<open>mmu_translate\<close> returns the physical address, or \<open>None\<close> where the C function returns 0 after
  raising the page fault.
\<close>

definition mmu_translate :: "u32 \<Rightarrow> access \<Rightarrow> machine \<Rightarrow> u32 option \<times> machine" where
  "mmu_translate va at s =
     (if satp s AND 0x80000000 = 0 then (Some va, s)
      else if va \<ge> MMIO_BASE then (Some va, s)
      else if tlb_match va s then tlb_hit va at s
      else page_walk va at s)"

subsection \<open>The walk as architecture.md specifies it\<close>

text \<open>Result: the address of the leaf PTE, the PTE, and whether it is a superpage.\<close>

definition pt_walk :: "memory \<Rightarrow> u32 \<Rightarrow> u32 \<Rightarrow> (u32 \<times> u32 \<times> bool) option" where
  "pt_walk m satp_val va =
     (let a1 = l1_addr satp_val va; p1 = mem_read32 m a1
      in if pte_out_of_ram a1 \<or> p1 AND 1 = 0 then None
         else if p1 AND 0xE0 \<noteq> 0 then Some (a1, p1, True)
         else let a2 = l2_addr p1 va; p2 = mem_read32 m a2
              in if pte_out_of_ram a2 \<or> p2 AND 1 = 0 then None else Some (a2, p2, False))"

definition access_allowed :: "bool \<Rightarrow> u32 \<Rightarrow> access \<Rightarrow> bool" where
  "access_allowed user_mode pte at \<longleftrightarrow>
     (user_mode \<longrightarrow> bit pte 8) \<and>
     (case at of Fetch \<Rightarrow> bit pte 7 | Load \<Rightarrow> bit pte 5 | Store \<Rightarrow> bit pte 6)"

definition translate_spec :: "memory \<Rightarrow> u32 \<Rightarrow> bool \<Rightarrow> u32 \<Rightarrow> access \<Rightarrow> u32 option" where
  "translate_spec m satp_val user_mode va at =
     (case pt_walk m satp_val va of
        None \<Rightarrow> None
      | Some (a, pte, sp) \<Rightarrow> if access_allowed user_mode pte at then Some (leaf_pa sp pte va) else None)"

lemma perm_fault_eq:
  "perm_fault user_mode fl at = (if access_allowed user_mode fl at then None else Some (pf_cause at))"
  by (cases at) (auto simp: perm_fault_def access_allowed_def pf_cause_def and_numeral_bit_eq_0)

subsection \<open>Page table addresses and the dirty bit\<close>

lemma in_ram_in_mem: "\<not> pte_out_of_ram a \<Longrightarrow> in_mem a 4"
  by (simp add: pte_out_of_ram_def in_mem_def word_less_def not_le)

lemma touch_pte [simp]: "\<not> pte_out_of_ram a \<Longrightarrow> touch a 4 s = s"
  by (simp add: in_ram_in_mem)

lemma store32_pte [simp]: "\<not> pte_out_of_ram a \<Longrightarrow> store32 a v s = s\<lparr>mem := mem_write32 (mem s) a v\<rparr>"
  by (simp add: store32_def)

lemma uint_push_bit_12: "uint (push_bit 12 w :: u32) = (uint w * 4096) mod 4294967296"
  by (simp add: push_bit_eq_mult uint_word_ariths mult.commute)

lemma aligned_add: "a AND 3 = 0 \<Longrightarrow> b AND 3 = 0 \<Longrightarrow> (a + b :: u32) AND 3 = 0"
  by (simp add: and3_dvd uint_word_ariths dvd_mod)

lemma aligned_push_bit: "push_bit 12 w AND 3 = (0 :: u32)"
  by (simp add: and3_dvd uint_push_bit_12 dvd_mod)

lemma aligned_times4: "w * 4 AND 3 = (0 :: u32)"
  by (simp add: and3_dvd uint_word_ariths dvd_mod)

lemma pte_addr_aligned [simp]: "l1_addr sa va AND 3 = 0" "l2_addr p va AND 3 = 0"
  unfolding l1_addr_def l2_addr_def by (rule aligned_add [OF aligned_push_bit aligned_times4])+


text \<open>Page table entries that differ at most in the dirty bit.\<close>

definition same_but_d :: "u32 \<Rightarrow> u32 \<Rightarrow> bool" where
  "same_but_d p q \<longleftrightarrow> p OR 2 = q OR 2"

lemma same_but_d_bits: "same_but_d p q \<longleftrightarrow> (\<forall>n. n \<noteq> 1 \<longrightarrow> bit p n = bit q n)"
proof -
  have b2: "bit (2 :: u32) n \<longleftrightarrow> n = 1" for n
    using bit_single_u32 [of 1 n] by (auto simp: push_bit_eq_mult)
  show ?thesis
  proof
    assume "same_but_d p q"
    then have "bit (p OR 2) n = bit (q OR 2) n" for n by (simp add: same_but_d_def)
    then show "\<forall>n. n \<noteq> 1 \<longrightarrow> bit p n = bit q n" unfolding bit_or_iff b2 by blast
  next
    assume "\<forall>n. n \<noteq> 1 \<longrightarrow> bit p n = bit q n"
    then have "bit (p OR 2) n = bit (q OR 2) n" for n unfolding bit_or_iff b2 by blast
    then show "same_but_d p q" unfolding same_but_d_def by (intro bit_word_eqI) simp
  qed
qed

lemma same_but_d_parts:
  assumes "same_but_d p q"
  shows "p AND 1 = q AND 1" "p AND 0xE0 = q AND 0xE0"
    "drop_bit 12 p = drop_bit 12 q" "l2_addr p va = l2_addr q va" "leaf_pa sp p va = leaf_pa sp q va"
    "access_allowed u p at = access_allowed u q at" 
proof -
  note b = assms [unfolded same_but_d_bits, rule_format]
  have b1: "\<not> bit (1 :: u32) 1" "\<not> bit (0xE0 :: u32) 1" by simp_all
  show "p AND 1 = q AND 1" by (rule bit_word_eqI) (use b b1 in \<open>auto simp: bit_simps\<close>)
  show "p AND 0xE0 = q AND 0xE0" by (rule bit_word_eqI) (metis b b1(2) bit_and_iff)
  show d: "drop_bit 12 p = drop_bit 12 q" by (rule bit_word_eqI) (use b in \<open>auto simp: bit_simps\<close>)
  show "l2_addr p va = l2_addr q va" "leaf_pa sp p va = leaf_pa sp q va"
    by (simp_all add: l2_addr_def leaf_pa_def d)
  show "access_allowed u p at = access_allowed u q at"
    by (cases at) (simp_all add: access_allowed_def b)
qed

lemma same_but_d_or [simp]: "same_but_d (p OR 2) p" "same_but_d p (p OR 2)" "same_but_d p p"
  by (simp_all add: same_but_d_def)

lemma mem_read_set_d:
  assumes "a AND 3 = 0" "b AND 3 = 0"
  shows "mem_read32 (mem_write32 m a v) b = (if b = a then v else mem_read32 m b)"
  using aligned_apart32 [OF assms] by (auto simp: mem_read_write32_apart)

lemma pt_walk_set_d:
  assumes a: "a AND 3 = 0"
    and w: "pt_walk m sa va = Some (b, p, sp)"
  shows "pt_walk (mem_write32 m a (mem_read32 m a OR 2)) sa va =
           Some (b, if b = a then p OR 2 else p, sp)"
proof -
  let ?m = "mem_write32 m a (mem_read32 m a OR 2)"
  have r: "mem_read32 ?m c = (if c = a then mem_read32 m c OR 2 else mem_read32 m c)"
    if "c AND 3 = 0" for c using mem_read_set_d [OF a that] by simp
  have s: "same_but_d (mem_read32 ?m c) (mem_read32 m c)" if "c AND 3 = 0" for c
    using r [OF that] by simp
  define a1 where "a1 = l1_addr sa va"
  have a1: "a1 AND 3 = 0" by (simp add: a1_def)
  note s1 = same_but_d_parts [OF s [OF a1]]
  have r2: "mem_read32 ?m (l2_addr q va) = (if l2_addr q va = a then mem_read32 m (l2_addr q va) OR 2 else mem_read32 m (l2_addr q va))" for q
    by (rule r) simp
  have s2: "mem_read32 ?m (l2_addr q va) AND 1 = mem_read32 m (l2_addr q va) AND 1" for q
    by (rule same_but_d_parts(1) [OF s]) simp
  show ?thesis
    using w r [OF a1] unfolding pt_walk_def Let_def a1_def [symmetric] s1(1,2,4) s2
    by (auto simp: r2 split: if_splits)
qed

lemma pt_walk_Some:
  assumes "pt_walk m sa va = Some (a, p, sp)"
  shows "p = mem_read32 m a" "\<not> pte_out_of_ram a" "a AND 3 = 0" "p AND 1 \<noteq> 0"
  using assms by (auto simp: pt_walk_def Let_def split: if_splits)

lemma page_walk_eq:
  "page_walk va at s =
     (case pt_walk (mem s) (satp s) va of
        None \<Rightarrow> (None, page_fault va (pf_cause at) s)
      | Some (a, p, sp) \<Rightarrow> walk_leaf va at a p sp s)"
  by (auto simp: page_walk_def pt_walk_def Let_def)

definition new_entry :: "u32 \<Rightarrow> u32 \<Rightarrow> u32 \<Rightarrow> bool \<Rightarrow> TLBEntry" where
  "new_entry va a p sp =
     \<lparr>va_tag = drop_bit 12 va,
      te_pa = (if sp then 0 else push_bit 12 (drop_bit 12 p AND 0xFFFFF)),
      te_flags = p AND 0xFFF, te_valid = True, te_global = (drop_bit 9 p AND 1 \<noteq> 0),
      te_superpage = sp, sp_pa_base = a\<rparr>"

definition dirty :: "access \<Rightarrow> u32 \<Rightarrow> u32" where
  "dirty at p = (if at = Store then p OR 2 else p)"

lemma access_allowed_dirty: "access_allowed u (dirty at p) at' = access_allowed u p at'"
  using same_but_d_parts(6) [OF same_but_d_or(1), of u p at'] by (simp add: dirty_def)

lemma bit_two_u32: "bit (2 :: u32) n \<longleftrightarrow> n = 1"
  using bit_single_u32 [of 1 n] by (auto simp: push_bit_eq_mult)

lemma or_2_idem: "p AND 2 \<noteq> (0 :: u32) \<Longrightarrow> p OR 2 = p"
proof -
  assume "p AND 2 \<noteq> 0"
  then have "bit p 1" by (simp add: and_numeral_bit_eq_0)
  then show ?thesis by (intro bit_word_eqI) (metis bit_or_iff bit_two_u32)
qed

lemma walk_leaf_eq:
  assumes "\<not> pte_out_of_ram a" "p = mem_read32 (mem s) a"
  shows "walk_leaf va at a p sp s =
     (if access_allowed (\<not> supervisor s) p at
      then (Some (leaf_pa sp p va),
            s\<lparr>mem := (if at = Store \<and> p AND 2 = 0 then mem_write32 (mem s) a (p OR 2) else mem s),
              tlb := (tlb s)(tlb_index (drop_bit 12 va) := new_entry va a (dirty at p) sp)\<rparr>)
      else (None, page_fault va (pf_cause at) s))"
  using assms
  by (simp add: walk_leaf_def perm_fault_eq Let_def new_entry_def dirty_def or_2_idem
      same_but_d_parts(5) [OF same_but_d_or(1)])

lemma drop_12_u32: "bit (drop_bit 12 (va :: u32)) n \<longleftrightarrow> n < 20 \<and> bit va (12 + n)"
  by (auto simp: bit_simps dest: bit_imp_le_length)

lemma page_of_va:
  "l1_addr sa (push_bit 12 (drop_bit 12 va)) = l1_addr sa va"
  "l2_addr p (push_bit 12 (drop_bit 12 va)) = l2_addr p va"
proof -
  have "drop_bit 22 (push_bit 12 (drop_bit 12 va)) = drop_bit 22 va"
    by (rule bit_word_eqI) (auto simp: bit_simps dest: bit_imp_le_length)
  then show "l1_addr sa (push_bit 12 (drop_bit 12 va)) = l1_addr sa va"
    by (simp only: l1_addr_def)
  have "drop_bit 12 (push_bit 12 (drop_bit 12 va)) = drop_bit 12 va"
    by (rule bit_word_eqI) (auto simp: bit_simps dest: bit_imp_le_length)
  then show "l2_addr p (push_bit 12 (drop_bit 12 va)) = l2_addr p va"
    by (simp only: l2_addr_def)
qed

lemma pt_walk_page: "pt_walk m sa (push_bit 12 (drop_bit 12 va)) = pt_walk m sa va"
  by (simp only: pt_walk_def page_of_va)

definition entry_coherent :: "memory \<Rightarrow> u32 \<Rightarrow> 6 word \<Rightarrow> TLBEntry \<Rightarrow> bool" where
  "entry_coherent m sa i e \<longleftrightarrow>
     tlb_index (va_tag e) = i \<and>
     (\<exists>p. pt_walk m sa (push_bit 12 (va_tag e)) = Some (sp_pa_base e, p, te_superpage e) \<and>
        same_but_d (te_flags e) (p AND 0xFFF) \<and> (bit (te_flags e) 1 \<longrightarrow> bit p 1) \<and>
        te_pa e = (if te_superpage e then 0 else push_bit 12 (drop_bit 12 p AND 0xFFFFF)))"

definition tlb_coherent :: "machine \<Rightarrow> bool" where
  "tlb_coherent s \<longleftrightarrow> (\<forall>i. te_valid (tlb s i) \<longrightarrow> entry_coherent (mem s) (satp s) i (tlb s i))"

lemma bit_low12: "bit ((p :: u32) AND 0xFFF) n \<longleftrightarrow> n < 12 \<and> bit p n"
proof -
  have "(0xFFF :: u32) = mask 12" by (simp add: mask_eq_exp_minus_1)
  then show ?thesis unfolding \<open>0xFFF = mask 12\<close> bit_and_iff bit_mask_iff
    by (auto dest: bit_imp_le_length)
qed

lemma access_allowed_flags:
  assumes "same_but_d fl (p AND 0xFFF)"
  shows "access_allowed u fl at = access_allowed u p at"
proof -
  have "access_allowed u fl at = access_allowed u (p AND 0xFFF) at"
    by (rule same_but_d_parts(6) [OF assms])
  also have "\<dots> = access_allowed u p at"
    by (cases at) (simp_all add: access_allowed_def bit_low12)
  finally show ?thesis .
qed

lemma tlb_match_coherent:
  assumes "tlb_coherent s" "tlb_match va s"
  obtains a p sp te where
    "te = tlb s (tlb_index (drop_bit 12 va))" "te_valid te"
    "pt_walk (mem s) (satp s) va = Some (a, p, sp)" "sp_pa_base te = a" "te_superpage te = sp"
    "same_but_d (te_flags te) (p AND 0xFFF)" "bit (te_flags te) 1 \<longrightarrow> bit p 1"
    "te_pa te = (if sp then 0 else push_bit 12 (drop_bit 12 p AND 0xFFFFF))"
proof -
  define te where "te = tlb s (tlb_index (drop_bit 12 va))"
  from assms have "te_valid te" "va_tag te = drop_bit 12 va"
    and "entry_coherent (mem s) (satp s) (tlb_index (drop_bit 12 va)) te"
    by (auto simp: tlb_coherent_def tlb_match_def Let_def te_def)
  then show thesis
    using that [of te] unfolding entry_coherent_def by (auto simp: pt_walk_page te_def)
qed

lemma tlb_hit_eq:
  assumes "tlb_coherent s" "tlb_match va s" "pt_walk (mem s) (satp s) va = Some (a, p, sp)"
  shows "let i = tlb_index (drop_bit 12 va); te = tlb s i; first = (at = Store \<and> te_flags te AND 2 = 0)
    in tlb_hit va at s =
     (if access_allowed (\<not> supervisor s) p at
      then (Some (if sp then a OR (va AND 0x3FFFFF) else leaf_pa sp p va),
            s\<lparr>mem := (if first then mem_write32 (mem s) a (p OR 2) else mem s),
              tlb := (if first then (tlb s)(i := te\<lparr>te_flags := te_flags te OR 2\<rparr>) else tlb s)\<rparr>)
      else (None, page_fault va (pf_cause at) s))"
proof -
  obtain te where te: "te = tlb s (tlb_index (drop_bit 12 va))" "sp_pa_base te = a" "te_superpage te = sp"
    "same_but_d (te_flags te) (p AND 0xFFF)"
    "te_pa te = (if sp then 0 else push_bit 12 (drop_bit 12 p AND 0xFFFFF))"
    by (rule tlb_match_coherent [OF assms(1,2)]) (use assms(3) in auto)
  note pt = pt_walk_Some [OF assms(3)]
  have "a < MEM_SIZE - 3"
    using pt(2) by (simp add: pte_out_of_ram_def word_less_def not_le)
  then show ?thesis
    using te(2-5) pt(1,2)
    by (simp add: tlb_hit_def Let_def te(1) [symmetric] perm_fault_eq access_allowed_flags [OF te(4)] leaf_pa_def)
qed

lemma fst_page_walk:
  "fst (page_walk va at s) = translate_spec (mem s) (satp s) (\<not> supervisor s) va at"
proof (cases "pt_walk (mem s) (satp s) va")
  case None
  then show ?thesis by (simp add: page_walk_eq translate_spec_def)
next
  case (Some w)
  obtain a p sp where w: "w = (a, p, sp)" by (cases w)
  note pt = pt_walk_Some [OF Some [unfolded w]]
  show ?thesis
    unfolding page_walk_eq translate_spec_def Some w
    by (simp add: walk_leaf_eq [OF pt(2,1)])
qed

lemma fst_tlb_hit_page:
  assumes "tlb_coherent s" "tlb_match va s" "\<not> te_superpage (tlb s (tlb_index (drop_bit 12 va)))"
  shows "fst (tlb_hit va at s) = translate_spec (mem s) (satp s) (\<not> supervisor s) va at"
proof -
  obtain a p sp te where w: "te = tlb s (tlb_index (drop_bit 12 va))"
    "pt_walk (mem s) (satp s) va = Some (a, p, sp)" "te_superpage te = sp"
    by (rule tlb_match_coherent [OF assms(1,2)]) auto
  then show ?thesis
    using tlb_hit_eq [OF assms(1,2) w(2), of at] assms(3) by (simp add: translate_spec_def Let_def)
qed

lemma coherent_cong:
  "mem t = mem s \<Longrightarrow> tlb t = tlb s \<Longrightarrow> satp t = satp s \<Longrightarrow> tlb_coherent t = tlb_coherent s"
  by (simp add: tlb_coherent_def)

lemma coherent_page_fault [simp]: "tlb_coherent (page_fault va c s) = tlb_coherent s"
  by (rule coherent_cong) (simp_all add: page_fault_def)

lemma entry_coherent_set_d:
  assumes "entry_coherent m sa i e" "a AND 3 = 0"
  shows "entry_coherent (mem_write32 m a (mem_read32 m a OR 2)) sa i e"
proof -
  from assms(1) obtain p where p: "tlb_index (va_tag e) = i"
    "pt_walk m sa (push_bit 12 (va_tag e)) = Some (sp_pa_base e, p, te_superpage e)"
    "same_but_d (te_flags e) (p AND 0xFFF)" "bit (te_flags e) 1 \<longrightarrow> bit p 1"
    "te_pa e = (if te_superpage e then 0 else push_bit 12 (drop_bit 12 p AND 0xFFFFF))"
    by (auto simp: entry_coherent_def)
  define q where "q = (if sp_pa_base e = a then p OR 2 else p)"
  have q: "same_but_d q p" "bit p 1 \<Longrightarrow> bit q 1"
    by (simp_all add: q_def bit_or_iff)
  have "same_but_d (te_flags e) (q AND 0xFFF)"
    using p(3) q(1) by (simp add: same_but_d_bits bit_low12)
  moreover have "te_pa e = (if te_superpage e then 0 else push_bit 12 (drop_bit 12 q AND 0xFFFFF))"
    using p(5) same_but_d_parts(3) [OF q(1)] by simp
  ultimately show ?thesis
    using p(1,4) pt_walk_set_d [OF assms(2) p(2)] q(2)
    unfolding entry_coherent_def q_def [symmetric] by auto
qed

lemma new_entry_coherent:
  assumes w: "pt_walk m sa va = Some (a, p, sp)"
  shows "entry_coherent (if at = Store \<and> p AND 2 = 0 then mem_write32 m a (p OR 2) else m) sa
           (tlb_index (drop_bit 12 va)) (new_entry va a (dirty at p) sp)"
proof -
  note pt = pt_walk_Some [OF w]
  define m' where "m' = (if at = Store \<and> p AND 2 = 0 then mem_write32 m a (p OR 2) else m)"
  have "pt_walk m' sa va = Some (a, dirty at p, sp)"
    using pt_walk_set_d [OF pt(3) w] w pt(1) by (simp add: m'_def dirty_def or_2_idem)
  then show ?thesis
    unfolding m'_def [symmetric]
    by (simp add: entry_coherent_def new_entry_def pt_walk_page bit_low12)
qed

lemma coherent_update:
  assumes "tlb_coherent s" "a AND 3 = 0"
    and "m' = mem s \<or> m' = mem_write32 (mem s) a (mem_read32 (mem s) a OR 2)"
    and "entry_coherent m' (satp s) i e"
  shows "tlb_coherent (s\<lparr>mem := m', tlb := (tlb s)(i := e)\<rparr>)"
  using assms entry_coherent_set_d by (auto simp: tlb_coherent_def)

lemma coherent_page_walk:
  assumes "tlb_coherent s"
  shows "tlb_coherent (snd (page_walk va at s))"
proof (cases "pt_walk (mem s) (satp s) va")
  case None
  then show ?thesis using assms by (simp add: page_walk_eq)
next
  case (Some w)
  obtain a p sp where w: "w = (a, p, sp)" by (cases w)
  note pt = pt_walk_Some [OF Some [unfolded w]]
  show ?thesis
  proof (cases "access_allowed (\<not> supervisor s) p at")
    case True
    have "tlb_coherent (s\<lparr>mem := (if at = Store \<and> p AND 2 = 0 then mem_write32 (mem s) a (p OR 2) else mem s),
        tlb := (tlb s)(tlb_index (drop_bit 12 va) := new_entry va a (dirty at p) sp)\<rparr>)"
      by (rule coherent_update [OF assms pt(3) _ new_entry_coherent [OF Some [unfolded w]]])
        (simp add: pt(1))
    with True show ?thesis
      unfolding page_walk_eq Some w option.case prod.case walk_leaf_eq [OF pt(2,1)] by simp
  next
    case False
    then show ?thesis using assms by (simp add: page_walk_eq Some w walk_leaf_eq [OF pt(2,1)])
  qed
qed

lemma coherent_tlb_hit:
  assumes "tlb_coherent s" "tlb_match va s"
  shows "tlb_coherent (snd (tlb_hit va at s))"
proof -
  let ?i = "tlb_index (drop_bit 12 va)"
  obtain a p sp te where w: "te = tlb s ?i" "te_valid te"
    "pt_walk (mem s) (satp s) va = Some (a, p, sp)" "sp_pa_base te = a" "te_superpage te = sp"
    "same_but_d (te_flags te) (p AND 0xFFF)" 
    "te_pa te = (if sp then 0 else push_bit 12 (drop_bit 12 p AND 0xFFFFF))"
    by (rule tlb_match_coherent [OF assms])
  note pt = pt_walk_Some [OF w(3)]
  have tag: "va_tag te = drop_bit 12 va"
    using assms(2) by (simp add: tlb_match_def Let_def w(1))
  let ?m = "mem_write32 (mem s) a (p OR 2)"
  have "pt_walk ?m (satp s) va = Some (a, p OR 2, sp)"
    using pt_walk_set_d [OF pt(3) w(3)] pt(1) by simp
  moreover have "same_but_d (te_flags te OR 2) ((p OR 2) AND 0xFFF)"
    using w(6) unfolding same_but_d_bits bit_low12 bit_or_iff bit_two_u32 by blast
  moreover have "bit (p OR 2) 1" by (simp add: bit_or_iff)
  moreover have "drop_bit 12 (p OR 2) = drop_bit 12 p" by (rule same_but_d_parts(3)) simp
  ultimately have "entry_coherent ?m (satp s) ?i (te\<lparr>te_flags := te_flags te OR 2\<rparr>)"
    using w(4,5,7) by (simp only: entry_coherent_def) (simp add: tag pt_walk_page)
  from coherent_update [OF assms(1) pt(3) _ this] pt(1)
  have "tlb_coherent (s\<lparr>mem := ?m, tlb := (tlb s)(?i := te\<lparr>te_flags := te_flags te OR 2\<rparr>)\<rparr>)"
    by simp
  then show ?thesis
    using tlb_hit_eq [OF assms w(3), of at] assms(1) w(1) by (simp add: Let_def)
qed

lemma coherent_translate:
  "tlb_coherent s \<Longrightarrow> tlb_coherent (snd (mmu_translate va at s))"
  using coherent_tlb_hit [of s va at] coherent_page_walk [of s va at] by (simp add: mmu_translate_def)

text \<open>A failing translation has raised the page fault of its access type and nothing else.\<close>

lemma mmu_translate_None:
  "fst (mmu_translate va at s) = None \<Longrightarrow> snd (mmu_translate va at s) = page_fault va (pf_cause at) s"
  by (auto simp: mmu_translate_def tlb_hit_def page_walk_eq walk_leaf_def perm_fault_eq Let_def
      split: if_splits option.splits)

text \<open>
  A machine with page tables, for the concrete instances below: root table at 0x10000, virtual
  page 2 mapped to 0x00345000 with R, W and V, virtual megabytes 4 to 8 mapped to 0x00800000.
\<close>

definition paged :: machine where
  "paged = zero_machine\<lparr>status := 1, satp := 0x80000010,
     mem := mem_write32 (mem_write32 (mem_write32 (\<lambda>a. 0) 0x10004 0x008000E1) 0x10000 0x00011001) 0x11008 0x00345061\<rparr>"

lemma paged_coherent: "tlb_coherent paged"
  by (simp add: tlb_coherent_def paged_def zero_machine_def tlb_entry0_def)

lemma paged_read:
  "mem_read32 (mem paged) 0x10004 = 0x008000E1" 
  "mem_read32 (mem paged) 0x10000 = 0x00011001" 
  "mem_read32 (mem paged) 0x11008 = 0x00345061"
  by (simp_all add: paged_def mem_read_write32_apart apart32_def word_le_def)

lemma paged_walk: "pt_walk (mem paged) (satp paged) 0x400123 = Some (0x10004, 0x008000E1, True)"
  "pt_walk (mem paged) (satp paged) 0x2ABC = Some (0x11008, 0x00345061, False)"
proof -
  have s: "satp paged = 0x80000010" by (simp add: paged_def)
  show "pt_walk (mem paged) (satp paged) 0x400123 = Some (0x10004, 0x008000E1, True)"
  "pt_walk (mem paged) (satp paged) 0x2ABC = Some (0x11008, 0x00345061, False)"
    by (simp_all add: pt_walk_def Let_def l1_addr_def l2_addr_def paged_read s pte_out_of_ram_def word_le_def)
qed

subsection \<open>The translation refines the specified walk\<close>

lemma translate_page_spec:
  assumes "tlb_coherent s" "satp s AND 0x80000000 \<noteq> 0" "va < MMIO_BASE"
    and "\<not> (tlb_match va s \<and> te_superpage (tlb s (tlb_index (drop_bit 12 va))))"
  shows "fst (mmu_translate va at s) = translate_spec (mem s) (satp s) (\<not> supervisor s) va at"
  using assms fst_tlb_hit_page [OF assms(1), of va at] fst_page_walk [of va at s]
  by (auto simp: mmu_translate_def not_less)

text \<open>Setting a dirty bit changes no translation.\<close>

lemma pt_walk_set_d_eq:
  assumes a: "a AND 3 = 0"
  shows "pt_walk (mem_write32 m a (mem_read32 m a OR 2)) sa va =
    map_option (\<lambda>(b, p, sp). (b, if b = a then p OR 2 else p, sp)) (pt_walk m sa va)"
proof (cases "pt_walk m sa va")
  case (Some w)
  then show ?thesis using pt_walk_set_d [OF a] by (cases w) auto
next
  case None
  let ?m = "mem_write32 m a (mem_read32 m a OR 2)"
  have s: "same_but_d (mem_read32 ?m c) (mem_read32 m c)" if "c AND 3 = 0" for c
    using mem_read_set_d [OF a that] by simp
  note s1 = same_but_d_parts [OF s [OF pte_addr_aligned(1) [of sa va]]]
  have s2: "mem_read32 ?m (l2_addr q va) AND 1 = mem_read32 m (l2_addr q va) AND 1" for q
    by (rule same_but_d_parts(1) [OF s]) simp
  show ?thesis
    using None unfolding pt_walk_def Let_def s1(1,2,4) s2 by (simp split: if_splits)
qed

lemma translate_spec_set_d:
  assumes "a AND 3 = 0"
  shows "translate_spec (mem_write32 m a (mem_read32 m a OR 2)) sa u va at = translate_spec m sa u va at"
proof -
  have "access_allowed u (p OR 2) at = access_allowed u p at" "leaf_pa sp (p OR 2) va = leaf_pa sp p va" for p sp
    by (rule same_but_d_parts, simp)+
  then show ?thesis
    by (auto simp: translate_spec_def pt_walk_set_d_eq [OF assms] split: option.split)
qed

lemma translate_mem:
  assumes "tlb_coherent s"
  obtains "mem (snd (mmu_translate va at s)) = mem s"
  | a where "a AND 3 = 0" "mem (snd (mmu_translate va at s)) = mem_write32 (mem s) a (mem_read32 (mem s) a OR 2)"
proof (cases "satp s AND 0x80000000 = 0 \<or> va \<ge> MMIO_BASE \<or> pt_walk (mem s) (satp s) va = None")
  case True
  moreover have "\<not> tlb_match va s" if "pt_walk (mem s) (satp s) va = None"
    using that tlb_match_coherent [OF assms] by (metis option.distinct(1))
  ultimately have "mem (snd (mmu_translate va at s)) = mem s"
    by (auto simp: mmu_translate_def page_walk_eq page_fault_def)
  then show thesis by (rule that(1))
next
  case False
  then obtain a p sp where w: "pt_walk (mem s) (satp s) va = Some (a, p, sp)" by auto
  note pt = pt_walk_Some [OF w]
  show thesis
  proof (cases "tlb_match va s")
    case True
    then have "snd (mmu_translate va at s) = snd (tlb_hit va at s)" using False by (auto simp: mmu_translate_def)
    then show thesis
      using tlb_hit_eq [OF assms True w, of at] that(1) that(2) [OF pt(3)] pt(1)
      by (auto simp: Let_def page_fault_def split: if_splits)
  next
    case nomatch: False
    then have "snd (mmu_translate va at s) = snd (walk_leaf va at a p sp s)"
      using False by (auto simp: mmu_translate_def page_walk_eq w)
    then show thesis
      using that(1) that(2) [OF pt(3)] pt(1) unfolding walk_leaf_eq [OF pt(2,1)]
      by (auto simp: page_fault_def split: if_splits)
  qed
qed

text \<open>A sequence of accesses, each translated in the state the previous one left.\<close>

fun translate_all :: "(u32 \<times> access) list \<Rightarrow> machine \<Rightarrow> machine" where
  "translate_all [] s = s"
| "translate_all ((va, at) # as) s = translate_all as (snd (mmu_translate va at s))"

lemma satp_translate: "satp (snd (mmu_translate va at s)) = satp s"
  by (auto simp: mmu_translate_def tlb_hit_def page_walk_eq walk_leaf_def Let_def page_fault_def
      store32_def touch_def split: option.split)

lemma translate_all_spec:
  assumes "tlb_coherent s" "t = translate_all as s"
  shows "tlb_coherent t" "satp t = satp s" "translate_spec (mem t) sa u va at = translate_spec (mem s) sa u va at"
  using assms
proof (induction "as" arbitrary: s)
  case (Cons x as)
  obtain va' at' where x: "x = (va', at')" by (cases x)
  { case 1
    show ?case using 1 Cons.IH(1) [OF coherent_translate [OF 1(1), of va' at']] by (simp add: x)
  next
    case 2
    show ?case using 2 Cons.IH(2) [OF coherent_translate [OF 2(1), of va' at']] by (simp add: x satp_translate)
  next
    case 3
    let ?s = "snd (mmu_translate va' at' s)"
    have "t = translate_all as ?s" using 3(2) by (simp add: x)
    from Cons.IH(3) [OF coherent_translate [OF 3(1)] this]
    have "translate_spec (mem t) sa u va at = translate_spec (mem ?s) sa u va at" .
    also have "\<dots> = translate_spec (mem s) sa u va at"
      by (rule translate_mem [OF 3(1), of va' at']) (simp_all add: translate_spec_set_d)
    finally show ?case .
  }
qed simp_all

lemma paged_store:
  "snd (mmu_translate 0x2000 Store paged) =
     paged\<lparr>mem := mem_write32 (mem paged) 0x11008 0x00345063,
            tlb := (tlb paged)(tlb_index 2 := new_entry 0x2000 0x11008 0x00345063 False)\<rparr>"
proof -
  have w: "pt_walk (mem paged) (satp paged) 0x2000 = Some (0x11008, 0x00345061, False)"
    using paged_walk(2) pt_walk_page [of "mem paged" "satp paged" "0x2000"]
      pt_walk_page [of "mem paged" "satp paged" "0x2ABC"] by (simp add: push_bit_eq_mult)
  note pt = pt_walk_Some [OF w]
  have "\<not> tlb_match 0x2000 paged" "satp paged AND 0x80000000 \<noteq> 0" "supervisor paged"
    by (simp_all add: tlb_match_def paged_def zero_machine_def tlb_entry0_def supervisor_def)
  then show ?thesis
    by (simp add: mmu_translate_def page_walk_eq w walk_leaf_eq [OF pt(2,1)] access_allowed_def dirty_def word_le_def)
qed

text \<open>C2: The translation buffer is invisible for pages: with translation enabled and the buffer coherent
  at the start, after any sequence of earlier accesses
  (hits, refills, page faults, dirty-bit updates of page table entries, even of tables that map
  themselves) the buffer is still coherent, and \<open>mmu_translate\<close> gives, for every address below
  the MMIO region whose entry is not a superpage hit, exactly the physical address or the refusal
  that the two-level walk of architecture.md gives on the page tables as they were at the start.
  For superpage hits this fails: \<open>superpage_hit_uses_pte_address\<close>.\<close>

theorem mmu_translate_refines_spec:
  assumes "tlb_coherent s" "satp s AND 0x80000000 \<noteq> 0" "t = translate_all as s" "va < MMIO_BASE"
    and "\<not> (tlb_match va t \<and> te_superpage (tlb t (tlb_index (drop_bit 12 va))))"
  shows "tlb_coherent t \<and>
    fst (mmu_translate va at t) = translate_spec (mem s) (satp s) (\<not> supervisor t) va at"
  using translate_page_spec [of t va at] translate_all_spec [OF assms(1,3)] assms(2,4,5) by simp

lemma mmu_translate_refines_spec_witness:
  "fst (mmu_translate 0x2ABC Load (translate_all [(0x2000, Store)] paged)) = Some 0x00345ABC"
proof -
  have "satp paged AND 0x80000000 \<noteq> 0" "(0x2ABC :: u32) < MMIO_BASE"
    by (simp_all add: paged_def word_less_def)
  from mmu_translate_refines_spec [where as = "[(0x2000, Store)]" and at = Load, OF paged_coherent this(1) refl this(2)]
  show ?thesis
    by (simp add: paged_store translate_spec_def paged_walk new_entry_def tlb_index_def)
      (simp add: paged_def supervisor_def access_allowed_def leaf_pa_def Let_def)
qed

text \<open>C39: A code bug. The first access through a valid 4 MB superpage gets the address the page table
  says; the same access repeated hits the TLB and gets the physical address of the page table
  entry itself, joined with the 22-bit offset, because \<open>sp_pa_base\<close> holds the address of the
  PTE for the dirty-bit update while the hit path uses it as the page's base.\<close>

theorem superpage_hit_uses_pte_address:
  assumes "tlb_coherent s" "satp s AND 0x80000000 \<noteq> 0" "va < MMIO_BASE"
    and "pt_walk (mem s) (satp s) va = Some (a, p, True)"
    and "access_allowed (\<not> supervisor s) p at" "\<not> tlb_match va s"
  shows "fst (mmu_translate va at s) = Some (leaf_pa True p va) \<and>
    fst (mmu_translate va at (snd (mmu_translate va at s))) = Some (a OR (va AND 0x3FFFFF))"
proof -
  note pt = pt_walk_Some [OF assms(4)]
  let ?m = "if at = Store \<and> p AND 2 = 0 then mem_write32 (mem s) a (p OR 2) else mem s"
  let ?t = "s\<lparr>mem := ?m, tlb := (tlb s)(tlb_index (drop_bit 12 va) := new_entry va a (dirty at p) True)\<rparr>"
  have first: "mmu_translate va at s = (Some (leaf_pa True p va), ?t)"
    using assms(2,5,6) linorder_not_le [THEN iffD2, OF assms(3)]
    unfolding mmu_translate_def page_walk_eq assms(4) option.case prod.case walk_leaf_eq [OF pt(2,1)]
    by simp
  have coh: "tlb_coherent ?t"
    using coherent_translate [OF assms(1), of va at] by (simp add: first)
  have match: "tlb_match va ?t"
    by (simp add: tlb_match_def new_entry_def)
  have walk: "pt_walk (mem ?t) (satp ?t) va = Some (a, dirty at p, True)"
    using pt_walk_set_d [OF pt(3) assms(4)] assms(4) pt(1) by (simp add: dirty_def or_2_idem)
  have "access_allowed (\<not> supervisor ?t) (dirty at p) at"
    using assms(5) by (simp add: supervisor_def access_allowed_dirty)
  then have "fst (mmu_translate va at ?t) = Some (a OR (va AND 0x3FFFFF))"
    using tlb_hit_eq [OF coh match walk, of at] match assms(2) linorder_not_le [THEN iffD2, OF assms(3)]
    by (simp add: mmu_translate_def Let_def)
  with first show ?thesis by simp
qed

lemma superpage_hit_uses_pte_address_witness:
  "fst (mmu_translate 0x400123 Load paged) = Some 0x00800123 \<and>
   fst (mmu_translate 0x400123 Load (snd (mmu_translate 0x400123 Load paged))) = Some 0x00010127"
proof -
  have "satp paged AND 0x80000000 \<noteq> 0" "(0x400123 :: u32) < MMIO_BASE"
    "access_allowed (\<not> supervisor paged) 0x008000E1 Load" "\<not> tlb_match 0x400123 paged"
    by code_simp+
  from superpage_hit_uses_pte_address [OF paged_coherent this(1,2) paged_walk(1) this(3,4)]
  show ?thesis by (simp add: leaf_pa_def)
qed

end
