(* ===== verification/Devices.thy ===== *)
theory Devices
  imports Mmu
begin

text \<open>
  The memory-mapped devices (\<open>emulator.c\<close>, lines 386 to 548 and 607 to 684): supervisor
  registers, UART, timer, interrupt controller and block device as \<open>mmio_read\<close> and
  \<open>mmio_write\<close> expose them, and the work the execute loop does between instructions:
  \<open>timer_tick\<close>, \<open>uart_poll\<close> and \<open>interrupt_check\<close>.

  The disk image behind \<open>blk_file\<close> is the list of its bytes; \<open>host_fread\<close> and \<open>host_fwrite\<close>
  are \<open>fseek\<close> followed by \<open>fread\<close> or \<open>fwrite\<close> of the C library on a regular file opened for
  update: reading past the end gives a short count, writing past the end fills the gap with
  zeros. The write-only WFI register waits on the host for at most 10 ms and has no effect on
  the machine; the Ctrl-A z suspension of the process resumes where it stopped.
\<close>

subsection \<open>The disk image\<close>

definition host_fread :: "u8 list \<Rightarrow> nat \<Rightarrow> nat \<Rightarrow> u8 list" where
  "host_fread f off n = take n (drop off f)"

definition host_fwrite :: "u8 list \<Rightarrow> nat \<Rightarrow> u8 list \<Rightarrow> u8 list" where
  "host_fwrite f off bs = take off f @ replicate (off - length f) 0 @ bs @ drop (off + length bs) f"

definition mem_fill :: "memory \<Rightarrow> u32 \<Rightarrow> u8 list \<Rightarrow> memory" where
  "mem_fill m a bs = (\<lambda>x. if unat (x - a) < length bs then bs ! unat (x - a) else m x)"

definition mem_bytes :: "memory \<Rightarrow> u32 \<Rightarrow> nat \<Rightarrow> u8 list" where
  "mem_bytes m a n = map (\<lambda>i. m (a + of_nat i)) [0..<n]"

text \<open>The command register. \<open>blk_buffer + 512\<close> is 32-bit arithmetic and wraps.\<close>

definition blk_transfer :: "u32 \<Rightarrow> u8 list \<Rightarrow> machine \<Rightarrow> machine" where
  "blk_transfer val f s =
     (let off = unat (blk_sector s) * 512
      in if val = 1 then
           (if blk_buffer s + 512 \<le> MEM_SIZE then
              let data = host_fread f off 512
              in (touch (blk_buffer s) 512 s)
                   \<lparr>mem := mem_fill (mem s) (blk_buffer s) data,
                    blk_status := (if length data = 512 then 0 else 2)\<rparr>
            else s\<lparr>blk_status := 2\<rparr>)
         else if val = 2 then
           (if blk_buffer s + 512 \<le> MEM_SIZE then
              (touch (blk_buffer s) 512 s)
                \<lparr>blk_file := Some (host_fwrite f off (mem_bytes (mem s) (blk_buffer s) 512)),
                 blk_status := 0\<rparr>
            else s\<lparr>blk_status := 2\<rparr>)
         else s)"

definition blk_command :: "u32 \<Rightarrow> machine \<Rightarrow> machine" where
  "blk_command val s =
     (case blk_file s of
        None \<Rightarrow> s\<lparr>blk_status := 2\<rparr>
      | Some f \<Rightarrow>
          (if blk_buffer s AND 0x1FF \<noteq> 0 then s\<lparr>blk_status := 2\<rparr>
           else let s1 = blk_transfer val f (s\<lparr>blk_status := 1\<rparr>)
                in if blk_control s1 AND 1 \<noteq> 0 then s1\<lparr>ic_pending := ic_pending s1 OR 0x08\<rparr> else s1))"

subsection \<open>Register reads and writes\<close>

definition mmio_read :: "u32 \<Rightarrow> machine \<Rightarrow> u32 \<times> machine" where
  "mmio_read addr s =
     (if addr \<ge> SV_BASE \<and> addr \<le> SV_BASE + 0x1C then
        (if \<not> supervisor s then (0, raise_exception 0x02 s)
         else let o' = addr - SV_BASE in
           (if o' = 0x00 then epc s
            else if o' = 0x04 then eflags s
            else if o' = 0x08 then evec s
            else if o' = 0x0C then cause s
            else if o' = 0x10 then status s
            else if o' = 0x14 then estatus s
            else if o' = 0x18 then satp s
            else if o' = 0x1C then badaddr s
            else 0, s))
      else if addr \<ge> UART_BASE \<and> addr < UART_BASE + 0x10 then
        (let o' = addr - UART_BASE in
         if o' = 0x00 then (0x01 OR (if uart_rx_ready s then 0x02 else 0), s)
         else if o' = 0x08 then
           (if \<not> uart_rx_ready s then (0, s)
            else (ucast (uart_rx_byte s), s\<lparr>uart_rx_ready := False\<rparr>))
         else if o' = 0x0C then (uart_control s, s)
         else (0, s))
      else if addr \<ge> TIMER_BASE \<and> addr < TIMER_BASE + 0x08 then
        (let o' = addr - TIMER_BASE in
         (if o' = 0x00 then timer_count s else if o' = 0x04 then timer_control s else 0, s))
      else if addr \<ge> IC_BASE \<and> addr < IC_BASE + 0x0C then
        (let o' = addr - IC_BASE in
         (if o' = 0x00 then ic_pending s else if o' = 0x04 then ic_mask s else 0, s))
      else if addr \<ge> BLK_BASE \<and> addr < BLK_BASE + 0x14 then
        (let o' = addr - BLK_BASE in
         (if o' = 0x00 then blk_sector s
          else if o' = 0x04 then blk_buffer s
          else if o' = 0x0C then blk_status s
          else if o' = 0x10 then blk_control s
          else 0, s))
      else (0, s))"

definition sv_write :: "u32 \<Rightarrow> u32 \<Rightarrow> machine \<Rightarrow> machine" where
  "sv_write o' val s =
     (if o' = 0x00 then s\<lparr>epc := val\<rparr>
      else if o' = 0x04 then s\<lparr>eflags := val\<rparr>
      else if o' = 0x08 then s\<lparr>evec := val\<rparr>
      else if o' = 0x10 then s\<lparr>status := val\<rparr>
      else if o' = 0x14 then s\<lparr>estatus := val\<rparr>
      else if o' = 0x18 then tlb_flush_non_global (s\<lparr>satp := val\<rparr>)
      else s)"

definition uart_write :: "u32 \<Rightarrow> u32 \<Rightarrow> machine \<Rightarrow> machine" where
  "uart_write o' val s =
     (if o' = 0x04 then
        (let s1 = s\<lparr>stdout_q := stdout_q s @ [ucast (val AND 0xFF)]\<rparr>
         in if uart_control s1 AND 0x02 \<noteq> 0 then s1\<lparr>ic_pending := ic_pending s1 OR 0x04\<rparr> else s1)
      else if o' = 0x0C then s\<lparr>uart_control := val\<rparr>
      else s)"

definition mmio_write :: "u32 \<Rightarrow> u32 \<Rightarrow> machine \<Rightarrow> machine" where
  "mmio_write addr val s =
     (if addr \<ge> SV_BASE \<and> addr \<le> SV_BASE + 0x20 then
        (if \<not> supervisor s then raise_exception 0x02 s else sv_write (addr - SV_BASE) val s)
      else if addr \<ge> UART_BASE \<and> addr < UART_BASE + 0x10 then uart_write (addr - UART_BASE) val s
      else if addr \<ge> TIMER_BASE \<and> addr < TIMER_BASE + 0x08 then
        (let o' = addr - TIMER_BASE in
         if o' = 0x00 then s\<lparr>timer_period := val, timer_count := val\<rparr>
         else if o' = 0x04 then s\<lparr>timer_control := val\<rparr>
         else s)
      else if addr \<ge> IC_BASE \<and> addr < IC_BASE + 0x0C then
        (let o' = addr - IC_BASE in
         if o' = 0x04 then s\<lparr>ic_mask := val\<rparr>
         else if o' = 0x08 then s\<lparr>ic_pending := ic_pending s AND NOT val\<rparr>
         else s)
      else if addr \<ge> BLK_BASE \<and> addr < BLK_BASE + 0x14 then
        (let o' = addr - BLK_BASE in
         if o' = 0x00 then s\<lparr>blk_sector := val\<rparr>
         else if o' = 0x04 then s\<lparr>blk_buffer := val\<rparr>
         else if o' = 0x08 then blk_command val s
         else if o' = 0x10 then s\<lparr>blk_control := val\<rparr>
         else s)
      else s)"

subsection \<open>Work between instructions\<close>

text \<open>\<open>read_one\<close>: the next answer of standard input; \<open>None\<close> is the -1 of the C function.\<close>

definition read_one :: "machine \<Rightarrow> u8 option \<times> machine" where
  "read_one s = (case stdin_q s of [] \<Rightarrow> (None, s) | c # q \<Rightarrow> (c, s\<lparr>stdin_q := q\<rparr>))"

definition uart_receive :: "u8 \<Rightarrow> machine \<Rightarrow> machine" where
  "uart_receive c s =
     (let s1 = s\<lparr>uart_rx_byte := c, uart_rx_ready := True\<rparr>
      in if uart_control s1 AND 0x01 \<noteq> 0 then s1\<lparr>ic_pending := ic_pending s1 OR 0x02\<rparr> else s1)"

definition uart_poll :: "machine \<Rightarrow> machine" where
  "uart_poll s =
     (if uart_rx_ready s then s
      else case read_one s of
        (None, s1) \<Rightarrow> s1
      | (Some c, s1) \<Rightarrow>
          (if escape_pending s1 then
             let s2 = s1\<lparr>escape_pending := False\<rparr>
             in if c = 0x7A \<or> c = 0x5A then s2
                else if c = 0x78 \<or> c = 0x58 then s2\<lparr>exited := True\<rparr>
                else uart_receive (if c = 0x61 then 0x01 else c) s2
           else if c = 0x01 then s1\<lparr>escape_pending := True\<rparr>
           else uart_receive c s1))"

definition timer_tick :: "machine \<Rightarrow> machine" where
  "timer_tick s =
     (if timer_control s AND 1 = 0 then s
      else let s1 = (if timer_count s > 0 then s\<lparr>timer_count := timer_count s - 1\<rparr> else s)
           in if timer_count s1 = 0 then
                let s2 = s1\<lparr>timer_count := timer_period s1\<rparr>
                in if timer_control s2 AND 2 \<noteq> 0 then s2\<lparr>ic_pending := ic_pending s2 OR 0x01\<rparr> else s2
              else s1)"

definition interrupt_check :: "machine \<Rightarrow> machine" where
  "interrupt_check s =
     (if status s AND 2 = 0 then s
      else if ic_pending s AND ic_mask s = 0 then s
      else let saved = faulting_pc s
           in (raise_exception 0x06 (s\<lparr>faulting_pc := regs s PC\<rparr>))\<lparr>faulting_pc := saved\<rparr>)"

text \<open>\<open>if (++cpu->uart_poll_divider >= 1000)\<close>, then the two housekeeping calls of the loop.\<close>

definition poll_divided :: "machine \<Rightarrow> machine" where
  "poll_divided s =
     (let s1 = s\<lparr>uart_poll_divider := uart_poll_divider s + 1\<rparr>
      in if uart_poll_divider s1 \<ge> 1000 then uart_poll (s1\<lparr>uart_poll_divider := 0\<rparr>) else s1)"

subsection \<open>Sectors of the disk image\<close>

text \<open>
  What the block device relies on when it reads back a sector: the contract of a byte store
  with positioned reads and writes. \<open>rd\<close> may return fewer bytes than asked for.
\<close>

locale sector_store =
  fixes rd :: "'f \<Rightarrow> nat \<Rightarrow> nat \<Rightarrow> u8 list"
    and wr :: "'f \<Rightarrow> nat \<Rightarrow> u8 list \<Rightarrow> 'f"
  assumes rd_wr_same: "rd (wr f off bs) off (length bs) = bs"
    and rd_wr_apart: "length (rd f off n) = n \<Longrightarrow> off + n \<le> off' \<or> off' + length bs \<le> off \<Longrightarrow>
      rd (wr f off' bs) off n = rd f off n"
begin

lemma sector_read_back:
  "length bs = n \<Longrightarrow> rd (wr f (k * n) bs) (k * n) n = bs"
  using rd_wr_same [of f "k * n" bs] by simp

lemma sector_keep:
  assumes "length (rd f (k * n) n) = n" "length bs = n" "j \<noteq> k"
  shows "rd (wr f (j * n) bs) (k * n) n = rd f (k * n) n"
proof (rule rd_wr_apart [OF assms(1)])
  have "Suc k * n \<le> j * n \<or> Suc j * n \<le> k * n"
    using assms(3) by (metis Suc_leI linorder_neqE_nat mult_le_mono1)
  then show "k * n + n \<le> j * n \<or> j * n + length bs \<le> k * n" using assms(2) by (auto simp: add.commute)
qed

lemma sector_writes:
  assumes "\<And>j bs. (j, bs) \<in> set ps \<Longrightarrow> length bs = n"
    and "k \<notin> fst ` set ps \<Longrightarrow> length (rd f (k * n) n) = n"
  shows "rd (foldl (\<lambda>g p. wr g (fst p * n) (snd p)) f ps) (k * n) n =
    (case map_of (rev ps) k of None \<Rightarrow> rd f (k * n) n | Some bs \<Rightarrow> bs)"
  using assms
proof (induction ps rule: rev_induct)
  case Nil
  then show ?case by simp
next
  case (snoc p ps)
  obtain j bs where p: "p = (j, bs)" by (cases p)
  let ?g = "foldl (\<lambda>g p. wr g (fst p * n) (snd p)) f ps"
  have len: "length bs = n" "\<And>j bs. (j, bs) \<in> set ps \<Longrightarrow> length bs = n" using snoc.prems(1) p by auto
  show ?case
  proof (cases "j = k")
    case True
    then show ?thesis using sector_read_back [OF len(1)] by (simp add: p)
  next
    case False
    then have fresh: "k \<notin> fst ` set ps \<Longrightarrow> length (rd f (k * n) n) = n"
      using snoc.prems(2) p by auto
    have IH: "rd ?g (k * n) n = (case map_of (rev ps) k of None \<Rightarrow> rd f (k * n) n | Some bs \<Rightarrow> bs)"
      by (rule snoc.IH) (use len(2) fresh in auto)
    have "length (rd ?g (k * n) n) = n"
    proof (cases "map_of (rev ps) k")
      case None
      then have "k \<notin> fst ` set ps" by (simp add: map_of_eq_None_iff)
      with None fresh show ?thesis unfolding IH by simp
    next
      case (Some bs')
      then show ?thesis using len(2) [of k bs'] unfolding IH by (auto dest: map_of_SomeD)
    qed
    then show ?thesis using False sector_keep [OF _ len(1)] IH by (simp add: p)
  qed
qed

end

lemma length_host_fwrite: "length (host_fwrite f off bs) = max (length f) (off + length bs)"
  by (auto simp: host_fwrite_def)

lemma nth_host_fwrite:
  "i < length (host_fwrite f off bs) \<Longrightarrow>
   host_fwrite f off bs ! i =
     (if off \<le> i \<and> i < off + length bs then bs ! (i - off) else if i < length f then f ! i else 0)"
  by (cases "off \<le> length f") (auto simp: host_fwrite_def nth_append not_less min_def)

interpretation disk: sector_store host_fread host_fwrite
proof
  show "host_fread (host_fwrite f off bs) off (length bs) = bs" for f off bs
    by (rule nth_equalityI) (auto simp: host_fread_def length_host_fwrite nth_host_fwrite)
next
  fix f bs :: "u8 list" and off n off'
  assume l: "length (host_fread f off n) = n" and a: "off + n \<le> off' \<or> off' + length bs \<le> off"
  from l have "off + n \<le> length f \<or> n = 0" by (auto simp: host_fread_def)
  then show "host_fread (host_fwrite f off' bs) off n = host_fread f off n"
  proof
    assume n: "off + n \<le> length f"
    show ?thesis
    proof (rule nth_equalityI)
      show "length (host_fread (host_fwrite f off' bs) off n) = length (host_fread f off n)"
        using n unfolding host_fread_def length_take length_drop length_host_fwrite by linarith
    next
      fix i
      assume "i < length (host_fread (host_fwrite f off' bs) off n)"
      then have i: "i < n" by (simp add: host_fread_def)
      then have "off + i < length (host_fwrite f off' bs)" using n by (simp add: length_host_fwrite)
      then show "host_fread (host_fwrite f off' bs) off n ! i = host_fread f off n ! i"
        using i n a by (auto simp: host_fread_def nth_host_fwrite)
    qed
  qed (simp add: host_fread_def)
qed

lemma unat_small: "i < 512 \<Longrightarrow> unat (of_nat i :: u32) = i"
  by (simp add: unat_of_nat)

lemma mem_bytes_fill: "length bs \<le> 512 \<Longrightarrow> mem_bytes (mem_fill m a bs) a (length bs) = bs"
  by (rule nth_equalityI) (auto simp: mem_bytes_def mem_fill_def unat_small)

lemma length_mem_bytes [simp]: "length (mem_bytes m a n) = n"
  by (simp add: mem_bytes_def)

text \<open>An aligned sector buffer that starts in memory ends in it.\<close>

lemma and_1FF_dvd: "(a AND 0x1FF = (0::u32)) \<longleftrightarrow> 512 dvd uint a"
proof -
  have "(0x1FF :: u32) = mask 9" by (simp add: mask_eq_exp_minus_1)
  then have "a AND 0x1FF = take_bit 9 a" by (simp only: take_bit_eq_mask)
  moreover have "take_bit 9 a = 0 \<longleftrightarrow> uint (take_bit 9 a) = 0" by (simp add: word_uint_eq_iff)
  moreover have "uint (take_bit 9 a) = uint a mod 512" by (simp add: take_bit_eq_mod uint_mod)
  ultimately show ?thesis by (simp add: dvd_eq_mod_eq_0)
qed

lemma buffer_in_mem:
  assumes "a AND 0x1FF = 0" "a < MEM_SIZE"
  shows "in_mem a 512" "a + 512 \<le> MEM_SIZE"
proof -
  from assms have "512 dvd uint a" "uint a < 0x04000000" by (auto simp: and_1FF_dvd word_less_def)
  then obtain k where "uint a = 512 * k" "512 * k < 0x04000000" by (auto elim: dvdE)
  moreover from this have "k < 131072" by simp
  ultimately have u: "uint a + 512 \<le> 0x04000000" by linarith
  then show "in_mem a 512" by (simp add: in_mem_def)
  from u have "uint (a + 512) = uint a + 512" by (subst uint_add_u32) simp
  with u show "a + 512 \<le> MEM_SIZE" by (simp add: word_le_def)
qed

lemma blk_command_write:
  assumes "blk_file s = Some f" "blk_buffer s AND 0x1FF = 0" "blk_buffer s < MEM_SIZE"
  shows "blk_command 2 s = s\<lparr>blk_status := 0,
    blk_file := Some (host_fwrite f (unat (blk_sector s) * 512) (mem_bytes (mem s) (blk_buffer s) 512)),
    ic_pending := (if blk_control s AND 1 \<noteq> 0 then ic_pending s OR 8 else ic_pending s)\<rparr>"
  using assms buffer_in_mem [OF assms(2,3)]
  by (simp add: blk_command_def blk_transfer_def Let_def touch_in_mem del: of_nat_numeral)

lemma blk_command_read:
  assumes "blk_file s = Some f" "blk_buffer s AND 0x1FF = 0" "blk_buffer s < MEM_SIZE"
    and "host_fread f (unat (blk_sector s) * 512) 512 = data" "length data = 512"
  shows "blk_command 1 s = s\<lparr>blk_status := 0, mem := mem_fill (mem s) (blk_buffer s) data,
    ic_pending := (if blk_control s AND 1 \<noteq> 0 then ic_pending s OR 8 else ic_pending s)\<rparr>"
  using assms buffer_in_mem [OF assms(2,3)]
  by (simp add: blk_command_def blk_transfer_def Let_def)


subsection \<open>The block device stores sectors\<close>

text \<open>A program's use of the device: set the sector and the buffer address, then give the command.\<close>

definition blk_request :: "u32 \<Rightarrow> u32 \<Rightarrow> u32 \<Rightarrow> machine \<Rightarrow> machine" where
  "blk_request cmd sector buf s =
     mmio_write (BLK_BASE + 8) cmd (mmio_write (BLK_BASE + 4) buf (mmio_write BLK_BASE sector s))"

lemma blk_request_eq:
  "blk_request cmd sector buf s = blk_command cmd (s\<lparr>blk_sector := sector, blk_buffer := buf\<rparr>)"
  by (simp add: blk_request_def mmio_write_def Let_def word_le_def word_less_def)

fun blk_write_all :: "(u32 \<times> u8 list) list \<Rightarrow> u32 \<Rightarrow> machine \<Rightarrow> machine" where
  "blk_write_all [] buf s = s"
| "blk_write_all ((sector, bs) # ps) buf s =
     blk_write_all ps buf (blk_request 2 sector buf (s\<lparr>mem := mem_fill (mem s) buf bs\<rparr>))"

lemma blk_write_all_file:
  assumes "\<And>k bs. (k, bs) \<in> set ps \<Longrightarrow> length bs = 512" "blk_file s = Some f"
    "buf AND 0x1FF = 0" "buf < MEM_SIZE"
  shows "blk_file (blk_write_all ps buf s) =
    Some (foldl (\<lambda>g p. host_fwrite g (fst p * 512) (snd p)) f (map (map_prod unat id) ps))"
  using assms
proof (induction ps arbitrary: s f)
  case (Cons p ps)
  obtain k bs where p: "p = (k, bs)" by (cases p)
  have len: "length bs = 512" using Cons.prems(1) p by auto
  let ?s = "blk_request 2 k buf (s\<lparr>mem := mem_fill (mem s) buf bs\<rparr>)"
  have "blk_file ?s = Some (host_fwrite f (unat k * 512) bs)"
    using Cons.prems mem_bytes_fill [of bs "mem s" buf] len
    by (simp add: blk_request_eq blk_command_write)
  then have "blk_file (blk_write_all ps buf ?s) =
    Some (foldl (\<lambda>g p. host_fwrite g (fst p * 512) (snd p)) (host_fwrite f (unat k * 512) bs) (map (map_prod unat id) ps))"
    by (intro Cons.IH) (use Cons.prems in auto)
  then show ?case by (simp add: p id_def)
qed simp

text \<open>C31: The block device is a store of sectors: after any sequence of write commands (with the
  512 bytes at an aligned buffer in memory each time), a read command for a sector number that
  was written delivers the bytes of the last write to that sector into memory and reports
  success, whatever the order of the writes and however far past the old end of the image.\<close>

theorem blk_read_after_writes:
  assumes "\<And>k bs. (k, bs) \<in> set ps \<Longrightarrow> length bs = 512" "blk_file s = Some f"
    and "buf AND 0x1FF = 0" "buf < MEM_SIZE" "map_of (rev ps) k = Some bs"
    and "t = blk_request 1 k buf (blk_write_all ps buf s)"
  shows "mem_bytes (mem t) buf 512 = bs \<and> blk_status t = 0"
proof -
  let ?ps = "map (map_prod unat id) ps"
  let ?g = "foldl (\<lambda>g p. host_fwrite g (fst p * 512) (snd p)) f ?ps"
  have len: "length bs = 512" using assms(1,5) by (auto dest: map_of_SomeD)
  have m: "map_of (rev ?ps) (unat k) = Some bs"
    using assms(5) map_of_mapk_SomeI [of unat "rev ps" k bs]
    by (simp add: rev_map inj_def map_prod_def id_def word_unat_eq_iff)
  have "host_fread ?g (unat k * 512) 512 = (case map_of (rev ?ps) (unat k) of None \<Rightarrow> host_fread f (unat k * 512) 512 | Some bs \<Rightarrow> bs)"
  proof (rule disk.sector_writes)
    show "length bs' = 512" if "(j, bs') \<in> set ?ps" for j bs' using that assms(1) by auto
    show "length (host_fread f (unat k * 512) 512) = 512" if "unat k \<notin> fst ` set ?ps"
      using that m by (metis map_of_eq_None_iff set_rev option.distinct(1))
  qed
  then have r: "host_fread ?g (unat k * 512) 512 = bs" by (simp add: m)
  have "mem t = mem_fill (mem (blk_write_all ps buf s)) buf bs \<and> blk_status t = 0"
    using blk_command_read [OF _ _ _ _ len] blk_write_all_file [OF assms(1-4)] assms(3,4) r
    by (simp add: assms(6) blk_request_eq)
  then show ?thesis using mem_bytes_fill [of bs _ buf] len by simp
qed

lemma blk_read_after_writes_witness:
  "mem_bytes (mem (blk_request 1 3 0x200 (blk_write_all [(3, replicate 512 7), (0, replicate 512 1), (3, replicate 512 9)]
     0x200 (zero_machine\<lparr>blk_file := Some []\<rparr>)))) 0x200 512 = replicate 512 9"
  by (rule blk_read_after_writes [THEN conjunct1, OF _ _ _ _ _ refl]) (auto simp: zero_machine_def)

subsection \<open>Console input\<close>

text \<open>
  What the guest is meant to receive from the bytes typed on standard input (a \<open>None\<close> is a
  poll that found nothing): Ctrl-A is a prefix, Ctrl-A a is a literal Ctrl-A, Ctrl-A z
  is swallowed, nothing is received after Ctrl-A x. \<open>uart_drain\<close> is a guest that polls and
  reads the receive register for as long as the emulator runs.
\<close>

fun guest_input :: "bool \<Rightarrow> u8 option list \<Rightarrow> u8 list" where
  "guest_input esc [] = []"
| "guest_input esc (None # q) = guest_input esc q"
| "guest_input False (Some c # q) = (if c = 0x01 then guest_input True q else c # guest_input False q)"
| "guest_input True (Some c # q) =
     (if c \<in> {0x7A, 0x5A} then guest_input False q
      else if c \<in> {0x78, 0x58} then []
      else (if c = 0x61 then 0x01 else c) # guest_input False q)"

fun uart_drain :: "nat \<Rightarrow> machine \<Rightarrow> u8 list \<times> machine" where
  "uart_drain 0 s = ([], s)"
| "uart_drain (Suc n) s =
     (let s1 = uart_poll s
      in if exited s1 then ([], s1)
         else if fst (mmio_read UART_BASE s1) AND 2 \<noteq> 0 then
           (case mmio_read (UART_BASE + 8) s1 of (v, s2) \<Rightarrow>
             (case uart_drain n s2 of (bs, s3) \<Rightarrow> (ucast v # bs, s3)))
         else uart_drain n s1)"

lemma uart_registers:
  "mmio_read UART_BASE s = (1 OR (if uart_rx_ready s then 2 else 0), s)"
  "mmio_read (UART_BASE + 8) s =
     (if uart_rx_ready s then (ucast (uart_rx_byte s), s\<lparr>uart_rx_ready := False\<rparr>) else (0, s))"
  by (simp_all add: mmio_read_def Let_def word_le_def word_less_def)

lemma uart_status_ready: "(1 OR (if r then 2 else 0)) AND 2 \<noteq> (0 :: u32) \<longleftrightarrow> r"
  by simp

lemma uart_receive_fields [simp]:
  "uart_rx_ready (uart_receive c s)" "uart_rx_byte (uart_receive c s) = c"
  "stdin_q (uart_receive c s) = stdin_q s" "escape_pending (uart_receive c s) = escape_pending s"
  "exited (uart_receive c s) = exited s"
  by (simp_all add: uart_receive_def Let_def)

lemma uart_drain_guest:
  assumes "\<not> uart_rx_ready s" "\<not> exited s" "length (stdin_q s) \<le> n"
  shows "fst (uart_drain n s) = guest_input (escape_pending s) (stdin_q s)"
  using assms
proof (induction n arbitrary: s)
  case (Suc n)
  note simps = uart_poll_def read_one_def Let_def uart_registers uart_registers(2) [simplified] uart_status_ready
  show ?case
  proof (cases "stdin_q s")
    case Nil
    then show ?thesis using Suc.IH [of s] Suc.prems by (simp add: simps)
  next
    case (Cons x q)
    show ?thesis
    proof (cases x)
      case None
      then show ?thesis using Suc.IH [of "s\<lparr>stdin_q := q\<rparr>"] Suc.prems Cons by (simp add: simps)
    next
      case (Some c)
      then show ?thesis using Suc.prems Cons
        by (cases "escape_pending s") (auto simp: simps Suc.IH split_beta)
    qed
  qed
qed simp

text \<open>The bytes of the input as they were typed, and when the escape rules leave them alone.\<close>

definition typed_bytes :: "u8 option list \<Rightarrow> u8 list" where
  "typed_bytes q = map the (filter (\<lambda>x. x \<noteq> None) q)"

lemma guest_input_plain: "Some 1 \<notin> set q \<Longrightarrow> guest_input False q = typed_bytes q"
  by (induction False q rule: guest_input.induct) (auto simp: typed_bytes_def)

text \<open>C32: Polling and reading the UART receives exactly the input the escape rules define: for any
  standard input, a guest that drains the device gets \<open>guest_input\<close> of it, in order, with no
  byte lost, duplicated or delivered after the quit sequence; input without a Ctrl-A arrives
  unmodified. \<open>uart_poll\<close> applies the rules to every standard input, a terminal or not; README.md
  says that input from a pipe or a file is passed through unmodified, which holds only for input
  without the byte 1.\<close>

theorem uart_drain_correct:
  assumes "\<not> uart_rx_ready s" "\<not> exited s" "length (stdin_q s) \<le> n"
  shows "fst (uart_drain n s) = guest_input (escape_pending s) (stdin_q s) \<and>
    (\<not> escape_pending s \<and> Some 1 \<notin> set (stdin_q s) \<longrightarrow> fst (uart_drain n s) = typed_bytes (stdin_q s))"
  using uart_drain_guest [OF assms] guest_input_plain by simp

lemma uart_drain_correct_witness:
  "fst (uart_drain 5 (zero_machine\<lparr>stdin_q := [Some 0x68, None, Some 1, Some 0x61, Some 0x69]\<rparr>)) = [0x68, 1, 0x69] \<and>
   fst (uart_drain 3 (zero_machine\<lparr>stdin_q := [Some 0x68, None, Some 0x61]\<rparr>)) = [0x68, 0x61]"
  using uart_drain_correct [of "zero_machine\<lparr>stdin_q := [Some 0x68, None, Some 1, Some 0x61, Some 0x69]\<rparr>" 5]
    uart_drain_correct [of "zero_machine\<lparr>stdin_q := [Some 0x68, None, Some 0x61]\<rparr>" 3]
  by (simp add: zero_machine_def)

subsection \<open>The timer\<close>

lemma timer_tick_eq:
  assumes "timer_control s AND 1 \<noteq> 0" "0 < timer_count s"
  shows "timer_tick s =
    (if timer_count s = 1
     then s\<lparr>timer_count := timer_period s,
            ic_pending := (if timer_control s AND 2 \<noteq> 0 then ic_pending s OR 1 else ic_pending s)\<rparr>
     else s\<lparr>timer_count := timer_count s - 1\<rparr>)"
  using assms by (simp add: timer_tick_def Let_def)

lemma timer_countdown:
  assumes "timer_control s AND 1 \<noteq> 0" "k < unat (timer_count s)"
  shows "(timer_tick ^^ k) s = s\<lparr>timer_count := timer_count s - of_nat k\<rparr>"
  using assms(2)
proof (induction k)
  case (Suc k)
  note pos = countdown_arith [OF Suc.prems]
  show ?case using Suc pos timer_tick_eq [of "s\<lparr>timer_count := timer_count s - of_nat k\<rparr>"] assms(1)
    by simp
qed simp

definition timer_expired :: "machine \<Rightarrow> machine" where
  "timer_expired s = s\<lparr>timer_count := timer_period s,
     ic_pending := (if timer_control s AND 2 \<noteq> 0 then ic_pending s OR 1 else ic_pending s)\<rparr>"

lemma timer_reload:
  assumes "timer_control s AND 1 \<noteq> 0" "0 < timer_count s"
  shows "(timer_tick ^^ unat (timer_count s)) s = timer_expired s"
proof -
  obtain k where k: "unat (timer_count s) = Suc k"
    using assms(2) by (metis not0_implies_Suc unat_eq_0 word_less_nat_alt unat_0 less_numeral_extra(3))
  have "timer_count s = of_nat (Suc k)" by (simp flip: k)
  then have "timer_count s - of_nat k = 1" by simp
  then show ?thesis
    using timer_countdown [OF assms(1), of k] k assms(1)
      timer_tick_eq [of "s\<lparr>timer_count := timer_count s - of_nat k\<rparr>"]
    by (simp add: timer_expired_def)
qed

lemma timer_expired_idem:
  "timer_expired (timer_expired s) = timer_expired s"
  by (simp add: timer_expired_def or.assoc)

lemma timer_periods:
  assumes "timer_control s AND 1 \<noteq> 0" "0 < timer_period s" "s = timer_expired s"
  shows "(timer_tick ^^ (m * unat (timer_period s))) s = s"
proof (induction m)
  case (Suc m)
  have "timer_count s = timer_period s" by (subst assms(3)) (simp add: timer_expired_def)
  then have "(timer_tick ^^ unat (timer_period s)) s = s"
    using timer_reload [OF assms(1)] assms(2,3) by simp
  with Suc show ?case by (simp add: funpow_add)
qed simp

text \<open>C33: The timer is periodic, and its state after any number of ticks has a closed form: with a
  nonzero period and count, after the first \<open>timer_count\<close> ticks it expires, from then on
  every \<open>timer_period\<close> ticks, and r ticks after an expiry the count is the period less r;
  each expiry latches the timer interrupt exactly when its control bit is set.\<close>

theorem timer_periodic:
  assumes "timer_control s AND 1 \<noteq> 0" "0 < timer_count s" "r < unat (timer_period s)"
  shows "(timer_tick ^^ (unat (timer_count s) + m * unat (timer_period s) + r)) s =
    (timer_expired s)\<lparr>timer_count := timer_period s - of_nat r\<rparr>"
proof -
  let ?e = "timer_expired s"
  have e: "timer_control ?e AND 1 \<noteq> 0" "timer_period ?e = timer_period s" "timer_count ?e = timer_period s"
    "?e = timer_expired ?e"
    using assms(1) by (simp_all add: timer_expired_idem) (simp_all add: timer_expired_def)
  have p: "0 < timer_period s" using assms(3) by (auto simp: word_less_nat_alt)
  have "(timer_tick ^^ (unat (timer_count s) + m * unat (timer_period s) + r)) s =
    (timer_tick ^^ r) ((timer_tick ^^ (m * unat (timer_period s))) ((timer_tick ^^ unat (timer_count s)) s))"
    by (simp add: funpow_add [symmetric] ac_simps flip: comp_apply [of "timer_tick ^^ _"])
  also have "\<dots> = (timer_tick ^^ r) ?e"
    using timer_reload [OF assms(1,2)] timer_periods [OF e(1) _ e(4)] p e(2) by simp
  also have "\<dots> = ?e\<lparr>timer_count := timer_period s - of_nat r\<rparr>"
    using timer_countdown [OF e(1), of r] assms(3) e(3) by simp
  finally show ?thesis .
qed

lemma timer_periodic_witness:
  "(timer_tick ^^ (unat (2 :: u32) + 10 * unat (3 :: u32) + 1)) (zero_machine\<lparr>timer_control := 3, timer_count := 2, timer_period := 3\<rparr>) =
   zero_machine\<lparr>timer_control := 3, timer_count := 2, timer_period := 3, ic_pending := 1\<rparr>"
  using timer_periodic [of "zero_machine\<lparr>timer_control := 3, timer_count := 2, timer_period := 3\<rparr>" 1 10]
  by (simp add: timer_expired_def zero_machine_def)

end
