(* ===== verification/Access.thy ===== *)
theory Access
  imports Devices
begin

text \<open>
  Data access and instruction fetch through the MMU (\<open>emulator.c\<close>, lines 550 to 605). A read
  returns the value and the state; where the C function raises an exception it returns 0. A
  fetch returns \<open>None\<close> where the C function returns 0.
\<close>

subsection \<open>Data reads and writes\<close>

definition cpu_read32 :: "u32 \<Rightarrow> machine \<Rightarrow> u32 \<times> machine" where
  "cpu_read32 addr s =
     (case mmu_translate addr Load s of
        (None, s1) \<Rightarrow> (0, s1)
      | (Some pa, s1) \<Rightarrow>
          (if pa \<ge> MEM_SIZE then (0, raise_exception 0x02 s1)
           else if pa AND 3 \<noteq> 0 then (0, raise_exception 0x01 s1)
           else if pa \<ge> MMIO_BASE then mmio_read pa s1
           else (mem_read32 (mem s1) pa, touch pa 4 s1)))"

definition cpu_read16 :: "u32 \<Rightarrow> machine \<Rightarrow> u16 \<times> machine" where
  "cpu_read16 addr s =
     (case mmu_translate addr Load s of
        (None, s1) \<Rightarrow> (0, s1)
      | (Some pa, s1) \<Rightarrow>
          (if pa \<ge> MEM_SIZE then (0, raise_exception 0x02 s1)
           else if pa AND 1 \<noteq> 0 then (0, raise_exception 0x01 s1)
           else if pa \<ge> MMIO_BASE then (case mmio_read pa s1 of (v, s2) \<Rightarrow> (ucast v, s2))
           else (mem_read16 (mem s1) pa, touch pa 2 s1)))"

definition cpu_read8 :: "u32 \<Rightarrow> machine \<Rightarrow> u8 \<times> machine" where
  "cpu_read8 addr s =
     (case mmu_translate addr Load s of
        (None, s1) \<Rightarrow> (0, s1)
      | (Some pa, s1) \<Rightarrow>
          (if pa \<ge> MEM_SIZE then (0, raise_exception 0x02 s1)
           else if pa \<ge> MMIO_BASE then (case mmio_read pa s1 of (v, s2) \<Rightarrow> (ucast v, s2))
           else (mem_read8 (mem s1) pa, touch pa 1 s1)))"

definition cpu_write32 :: "u32 \<Rightarrow> u32 \<Rightarrow> machine \<Rightarrow> machine" where
  "cpu_write32 addr val s =
     (case mmu_translate addr Store s of
        (None, s1) \<Rightarrow> s1
      | (Some pa, s1) \<Rightarrow>
          (if pa \<ge> MEM_SIZE then raise_exception 0x02 s1
           else if pa AND 3 \<noteq> 0 then raise_exception 0x01 s1
           else if pa \<ge> MMIO_BASE then mmio_write pa val s1
           else store32 pa val s1))"

definition cpu_write16 :: "u32 \<Rightarrow> u16 \<Rightarrow> machine \<Rightarrow> machine" where
  "cpu_write16 addr val s =
     (case mmu_translate addr Store s of
        (None, s1) \<Rightarrow> s1
      | (Some pa, s1) \<Rightarrow>
          (if pa \<ge> MEM_SIZE then raise_exception 0x02 s1
           else if pa AND 1 \<noteq> 0 then raise_exception 0x01 s1
           else if pa \<ge> MMIO_BASE then mmio_write pa (ucast val) s1
           else store16 pa val s1))"

definition cpu_write8 :: "u32 \<Rightarrow> u8 \<Rightarrow> machine \<Rightarrow> machine" where
  "cpu_write8 addr val s =
     (case mmu_translate addr Store s of
        (None, s1) \<Rightarrow> s1
      | (Some pa, s1) \<Rightarrow>
          (if pa \<ge> MEM_SIZE then raise_exception 0x02 s1
           else if pa \<ge> MMIO_BASE then mmio_write pa (ucast val) s1
           else store8 pa val s1))"

subsection \<open>Instruction fetch\<close>

definition cpu_fetch :: "u32 \<Rightarrow> machine \<Rightarrow> u32 option \<times> machine" where
  "cpu_fetch pc s =
     (case mmu_translate pc Fetch s of
        (None, s1) \<Rightarrow> (None, s1)
      | (Some pa, s1) \<Rightarrow>
          (if pa \<ge> MEM_SIZE then (None, raise_exception 0x02 s1)
           else (Some (mem_read32 (mem s1) pa), touch pa 4 s1)))"

end
