(* ===== verification/Exec.thy ===== *)
theory Exec
  imports Access
begin

text \<open>
  Instruction decode and execution (\<open>emulator.c\<close>, lines 881 to 1102). \<open>decode\<close> splits the
  instruction word into the local variables of the loop body; each group of \<open>case\<close> labels of
  the big \<open>switch\<close> is one definition, in the source's order of cases inside the group, and
  \<open>exec_instr\<close> is the switch. \<open>KRET\<close> leaves the loop body early (\<open>continue\<close>): \<open>skips_irq\<close>
  says when.

  The loads and stores with an immediate compute their address with signed arithmetic
  (\<open>(int32_t)r[rs1] + simm\<close>) and DIV and MOD divide signed values: \<open>signed_ub\<close> records in
  \<open>sovf\<close> when such an operation overflows.
\<close>

subsection \<open>Decode\<close>

record decoded =
  d_op :: u8
  d_rd :: reg
  d_rs1 :: reg
  d_rs2 :: reg
  d_shift :: nat
  d_imm16 :: u16
  d_simm :: u32
  d_soff :: u32

definition decode :: "u32 \<Rightarrow> decoded" where
  "decode instr =
     (let imm16 = ucast (instr AND 0xFFFF) :: u16; off20 = instr AND 0xFFFFF
      in \<lparr>d_op = ucast (drop_bit 24 instr AND 0xFF),
          d_rd = ucast (drop_bit 20 instr AND 0x0F),
          d_rs1 = ucast (drop_bit 16 instr AND 0x0F),
          d_rs2 = ucast (drop_bit 12 instr AND 0x0F),
          d_shift = unat (drop_bit 7 instr AND 0x1F),
          d_imm16 = imm16,
          d_simm = scast imm16,
          d_soff = (if off20 AND 0x80000 \<noteq> 0 then off20 OR 0xFFF00000 else off20)\<rparr>)"

subsection \<open>Results of register instructions\<close>

definition signed_ub :: "bool \<Rightarrow> machine \<Rightarrow> machine" where
  "signed_ub b s = s\<lparr>sovf := (sovf s \<or> b)\<rparr>"

text \<open>\<open>update_flags_nz(cpu,r); clear_cv(cpu); cpu->r[rd]=r;\<close> and the same without \<open>clear_cv\<close>.\<close>

definition logic_result :: "reg \<Rightarrow> u32 \<Rightarrow> machine \<Rightarrow> machine" where
  "logic_result rd r s = set_reg rd r (clear_cv (update_flags_nz r s))"

definition muldiv_result :: "reg \<Rightarrow> u32 \<Rightarrow> machine \<Rightarrow> machine" where
  "muldiv_result rd r s = set_reg rd r (update_flags_nz r s)"

text \<open>\<open>(uint32_t)((int32_t)x >> n)\<close>: an arithmetic shift.\<close>

definition asr :: "nat \<Rightarrow> u32 \<Rightarrow> u32" where
  "asr n x = signed_drop_bit n x"

definition rol :: "nat \<Rightarrow> u32 \<Rightarrow> u32" where
  "rol sh x = (if sh \<noteq> 0 then push_bit sh x OR drop_bit (32 - sh) x else x)"

definition ror :: "nat \<Rightarrow> u32 \<Rightarrow> u32" where
  "ror sh x = (if sh \<noteq> 0 then drop_bit sh x OR push_bit (32 - sh) x else x)"

definition low5 :: "u32 \<Rightarrow> nat" where
  "low5 x = unat (x AND 0x1F)"

subsection \<open>Register instructions\<close>

definition exec_rtype :: "decoded \<Rightarrow> machine \<Rightarrow> machine" where
  "exec_rtype d s =
     (let op = d_op d; rd = d_rd d; a = regs s (d_rs1 d); b = regs s (d_rs2 d); sh = d_shift d
      in if op = 0x00 then set_reg rd (a + b) (update_flags_add a b (a + b) s)
         else if op = 0x01 then set_reg rd (a - b) (update_flags_sub a b (a - b) s)
         else if op = 0x02 then logic_result rd (a AND b) s
         else if op = 0x03 then logic_result rd (a OR b) s
         else if op = 0x04 then logic_result rd (a XOR b) s
         else if op = 0x05 then logic_result rd (NOT a) s
         else if op = 0x06 then logic_result rd (push_bit sh a) s
         else if op = 0x07 then logic_result rd (drop_bit sh a) s
         else if op = 0x08 then logic_result rd (asr sh a) s
         else if op = 0x27 then set_reg rd a s
         else if op = 0x28 then update_flags_sub a b (a - b) s
         else if op = 0x29 then (let i = ucast (d_imm16 d) in update_flags_sub a i (a - i) s)
         else if op = 0x2A then set_reg PC a (set_reg rd (regs s PC) s)
         else s)"

definition exec_addc :: "decoded \<Rightarrow> machine \<Rightarrow> machine" where
  "exec_addc d s =
     (let a = regs s (d_rs1 d); b = regs s (d_rs2 d);
          cin = (if flags s AND FLAG_C \<noteq> 0 then 1 else 0 :: u64);
          sum = ucast a + ucast b + cin :: u64;
          r = ucast sum :: u32;
          carry = sum > 0xFFFFFFFF
      in set_reg (d_rd d) r (set_nzcv r carry (add_overflow a b r) s))"

definition exec_subc :: "decoded \<Rightarrow> machine \<Rightarrow> machine" where
  "exec_subc d s =
     (let a = regs s (d_rs1 d); b = regs s (d_rs2 d);
          bin = (if flags s AND FLAG_C \<noteq> 0 then 1 else 0 :: u32);
          sub = ucast b + ucast bin :: u64;
          r = a - b - bin;
          borrow = sub > ucast a
      in set_reg (d_rd d) r (set_nzcv r borrow (sub_overflow a b r) s))"

definition exec_rotate :: "decoded \<Rightarrow> machine \<Rightarrow> machine" where
  "exec_rotate d s =
     (let op = d_op d; rd = d_rd d; a = regs s (d_rs1 d); b = regs s (d_rs2 d)
      in if op = 0x38 then set_reg rd (push_bit 16 (ucast (d_imm16 d))) s
         else if op = 0x39 then logic_result rd (rol (low5 b) a) s
         else if op = 0x3A then logic_result rd (ror (low5 b) a) s
         else if op = 0x3B then logic_result rd (rol (d_shift d) a) s
         else if op = 0x3C then logic_result rd (ror (d_shift d) a) s
         else s)"

definition exec_shift_reg :: "decoded \<Rightarrow> machine \<Rightarrow> machine" where
  "exec_shift_reg d s =
     (let op = d_op d; rd = d_rd d; a = regs s (d_rs1 d); sh = low5 (regs s (d_rs2 d))
      in if op = 0x2D then logic_result rd (push_bit sh a) s
         else if op = 0x2E then logic_result rd (drop_bit sh a) s
         else if op = 0x2F then logic_result rd (asr sh a) s
         else s)"

text \<open>C's signed division truncates towards zero, as \<open>sdiv\<close> and \<open>smod\<close> do.\<close>

definition exec_muldiv :: "decoded \<Rightarrow> machine \<Rightarrow> machine" where
  "exec_muldiv d s =
     (let op = d_op d; rd = d_rd d; a = regs s (d_rs1 d); b = regs s (d_rs2 d)
      in if op = 0x09 then muldiv_result rd (ucast ((ucast a :: u64) * ucast b)) s
         else if op = 0x22 then
           muldiv_result rd (ucast (signed_drop_bit 32 ((scast a :: u64) * scast b))) s
         else if op = 0x23 then muldiv_result rd (ucast (drop_bit 32 ((ucast a :: u64) * ucast b))) s
         else if op = 0x0A then
           (if b = 0 then raise_exception 0x04 s
            else muldiv_result rd (word_of_int (sint a sdiv sint b)) (signed_ub (a = 0x80000000 \<and> b = 0xFFFFFFFF) s))
         else if op = 0x24 then
           (if b = 0 then raise_exception 0x04 s else muldiv_result rd (a div b) s)
         else if op = 0x25 then
           (if b = 0 then raise_exception 0x04 s
            else muldiv_result rd (word_of_int (sint a smod sint b)) (signed_ub (a = 0x80000000 \<and> b = 0xFFFFFFFF) s))
         else if op = 0x26 then
           (if b = 0 then raise_exception 0x04 s else muldiv_result rd (a mod b) s)
         else s)"

definition exec_itype :: "decoded \<Rightarrow> machine \<Rightarrow> machine" where
  "exec_itype d s =
     (let op = d_op d; rd = d_rd d; a = regs s (d_rs1 d); simm = d_simm d; imm = ucast (d_imm16 d);
          sh = low5 imm
      in if op = 0x14 then set_reg rd (a + simm) (update_flags_add a simm (a + simm) s)
         else if op = 0x15 then set_reg rd (a - simm) (update_flags_sub a simm (a - simm) s)
         else if op = 0x16 then logic_result rd (a AND imm) s
         else if op = 0x17 then logic_result rd (a OR imm) s
         else if op = 0x18 then logic_result rd (a XOR imm) s
         else if op = 0x19 then logic_result rd (push_bit sh a) s
         else if op = 0x1A then logic_result rd (drop_bit sh a) s
         else if op = 0x1B then logic_result rd (asr sh a) s
         else if op = 0x0F then set_reg rd imm s
         else if op = 0x13 then set_reg rd ((regs s rd AND 0xFFFF) OR push_bit 16 imm) s
         else s)"

subsection \<open>Memory instructions\<close>

definition load_reg :: "reg \<Rightarrow> ('a \<Rightarrow> u32) \<Rightarrow> 'a \<times> machine \<Rightarrow> machine" where
  "load_reg rd ext p = (case p of (v, s) \<Rightarrow> set_reg rd (ext v) s)"

definition exec_indexed :: "decoded \<Rightarrow> machine \<Rightarrow> machine" where
  "exec_indexed d s =
     (let op = d_op d; rd = d_rd d; a = regs s (d_rs1 d) + regs s (d_rs2 d); v = regs s rd
      in if op = 0x30 then load_reg rd (\<lambda>x. x) (cpu_read32 a s)
         else if op = 0x31 then load_reg rd scast (cpu_read8 a s)
         else if op = 0x32 then load_reg rd ucast (cpu_read8 a s)
         else if op = 0x33 then cpu_write32 a v s
         else if op = 0x34 then cpu_write8 a (ucast (v AND 0xFF)) s
         else if op = 0x35 then load_reg rd scast (cpu_read16 a s)
         else if op = 0x36 then load_reg rd ucast (cpu_read16 a s)
         else if op = 0x37 then cpu_write16 a (ucast (v AND 0xFFFF)) s
         else s)"

definition signed_addr :: "decoded \<Rightarrow> machine \<Rightarrow> u32 \<times> machine" where
  "signed_addr d s =
     (let b = regs s (d_rs1 d); a = b + d_simm d
      in (a, signed_ub (sint b + sint (d_simm d) \<noteq> sint a) s))"

definition exec_loadstore :: "decoded \<Rightarrow> machine \<Rightarrow> machine" where
  "exec_loadstore d s0 =
     (let op = d_op d; rd = d_rd d; v = regs s0 rd
      in case signed_addr d s0 of (a, s) \<Rightarrow>
         if op = 0x0B then load_reg rd (\<lambda>x. x) (cpu_read32 a s)
         else if op = 0x1C then load_reg rd scast (cpu_read16 a s)
         else if op = 0x1D then load_reg rd ucast (cpu_read16 a s)
         else if op = 0x1E then load_reg rd scast (cpu_read8 a s)
         else if op = 0x1F then load_reg rd ucast (cpu_read8 a s)
         else if op = 0x0C then cpu_write32 a v s
         else if op = 0x20 then cpu_write16 a (ucast (v AND 0xFFFF)) s
         else if op = 0x21 then cpu_write8 a (ucast (v AND 0xFF)) s
         else s)"

text \<open>Compare-and-swap works on the physical address in the register: it does not translate.\<close>

definition exec_cas :: "decoded \<Rightarrow> machine \<Rightarrow> machine" where
  "exec_cas d s =
     (let addr = regs s (d_rs1 d); rd = d_rd d
      in if addr AND 3 \<noteq> 0 then raise_exception 0x01 s
         else if addr \<ge> MEM_SIZE then raise_exception 0x02 s
         else
           case (if addr \<ge> MMIO_BASE then mmio_read addr s else (mem_read32 (mem s) addr, touch addr 4 s)) of
             (cur, s1) \<Rightarrow>
               if cur = regs s1 rd then
                 let s2 = (if addr \<ge> MMIO_BASE then mmio_write addr (regs s1 (d_rs2 d)) s1
                           else store32 addr (regs s1 (d_rs2 d)) s1)
                 in s2\<lparr>flags := flags s2 OR FLAG_Z\<rparr>
               else let s2 = set_reg rd cur s1 in s2\<lparr>flags := flags s2 AND NOT FLAG_Z\<rparr>)"

subsection \<open>Control transfer and system instructions\<close>

definition exec_control :: "u32 \<Rightarrow> decoded \<Rightarrow> machine \<Rightarrow> machine" where
  "exec_control pc d s =
     (if d_op d = 0x0D then
        (case branch_taken (d_rd d) (flags s) of
           None \<Rightarrow> raise_exception 0x00 s
         | Some taken \<Rightarrow> if taken then set_reg PC (pc + d_soff d) s else s)
      else if d_op d = 0x0E then set_reg PC (pc + d_soff d) (set_reg (d_rd d) (regs s PC) s)
      else s)"

definition sys_call :: "machine \<Rightarrow> machine" where
  "sys_call s =
     vector_pc (evec s + 3 * 4)
       (s\<lparr>estatus := status s, epc := regs s PC, eflags := flags s, cause := 0x03, status := 0x01\<rparr>)"

definition sys_ret :: "machine \<Rightarrow> machine" where
  "sys_ret s =
     (if \<not> supervisor s then raise_exception 0x00 s
      else let s1 = set_reg PC (epc s) s
           in s1\<lparr>flags := eflags s1, status := estatus s1 AND NOT 1\<rparr>)"

definition k_ret :: "machine \<Rightarrow> machine" where
  "k_ret s =
     (if \<not> supervisor s then raise_exception 0x00 s
      else let s1 = set_reg PC (epc s) s in s1\<lparr>flags := eflags s1, status := estatus s1\<rparr>)"

definition exec_system :: "decoded \<Rightarrow> machine \<Rightarrow> machine" where
  "exec_system d s =
     (if d_op d = 0x10 then sys_call s
      else if d_op d = 0x11 then sys_ret s
      else if d_op d = 0x12 then s\<lparr>halted := True\<rparr>
      else if d_op d = 0x3F then k_ret s
      else if d_op d = 0x3E then (if \<not> supervisor s then raise_exception 0x00 s else tlb_flush_non_global s)
      else s)"

subsection \<open>The switch and the loop body\<close>

definition exec_instr :: "u32 \<Rightarrow> decoded \<Rightarrow> machine \<Rightarrow> machine" where
  "exec_instr pc d s =
     (let op = d_op d
      in if op \<le> 0x08 \<or> op \<in> {0x27, 0x28, 0x29, 0x2A} then exec_rtype d s
         else if op = 0x2B then exec_addc d s
         else if op = 0x2C then exec_subc d s
         else if 0x30 \<le> op \<and> op \<le> 0x37 then exec_indexed d s
         else if 0x38 \<le> op \<and> op \<le> 0x3C then exec_rotate d s
         else if op = 0x3D then exec_cas d s
         else if 0x2D \<le> op \<and> op \<le> 0x2F then exec_shift_reg d s
         else if op \<in> {0x09, 0x22, 0x23, 0x0A, 0x24, 0x25, 0x26} then exec_muldiv d s
         else if 0x14 \<le> op \<and> op \<le> 0x1B \<or> op \<in> {0x0F, 0x13} then exec_itype d s
         else if op \<in> {0x0B, 0x1C, 0x1D, 0x1E, 0x1F, 0x0C, 0x20, 0x21} then exec_loadstore d s
         else if op \<in> {0x0D, 0x0E} then exec_control pc d s
         else if op \<in> {0x10, 0x11, 0x12, 0x3E, 0x3F} then exec_system d s
         else raise_exception 0x00 s)"

definition skips_irq :: "decoded \<Rightarrow> machine \<Rightarrow> bool" where
  "skips_irq d s \<longleftrightarrow> d_op d = 0x3F \<and> supervisor s"

definition end_of_step :: "bool \<Rightarrow> machine \<Rightarrow> machine" where
  "end_of_step skip s =
     (let s1 = poll_divided (timer_tick s)
      in if skip \<or> halted s1 \<or> exited s1 then s1 else interrupt_check s1)"

definition cpu_step :: "machine \<Rightarrow> machine" where
  "cpu_step s =
     (let pc = regs s PC; s0 = s\<lparr>faulting_pc := pc\<rparr>
      in case cpu_fetch pc s0 of
           (None, s1) \<Rightarrow> end_of_step False s1
         | (Some instr, s1) \<Rightarrow>
             (let s2 = set_reg PC (pc + 4) s1; d = decode instr
              in end_of_step (skips_irq d s2) (exec_instr pc d s2)))"

end
