(* ===== verification/Steps.thy ===== *)
theory Steps
  imports Exec "HOL-Library.Sublist"
begin

text \<open>
  What every step of the emulator does to the machine, whatever the instruction. The locale
  \<open>step_rel\<close> (an extension of \<open>reg_rel\<close>, its part for register instructions) is the interface
  between the operations of the machine and the loop: a preorder on states that each operation
  respects is respected by the loop body. Its interpretations give
  the invariants of the loop: the translation buffer stays well formed, the poll divider stays
  below its bound, only the four wired interrupt lines are ever pending, output is only appended
  to and input only consumed from the front, a halted machine stays halted.
\<close>

subsection \<open>Relations that every operation respects\<close>

text \<open>The register instructions touch registers and flags only.\<close>

locale reg_rel =
  fixes R :: "machine \<Rightarrow> machine \<Rightarrow> bool"
  assumes R_refl: "R s s"
    and R_trans: "R s t \<Longrightarrow> R t u \<Longrightarrow> R s u"
    and R_regs: "R s (s\<lparr>regs := r\<rparr>)"
    and R_flags: "R s (s\<lparr>flags := f\<rparr>)"
    and R_sovf: "R s (s\<lparr>sovf := sovf s \<or> b\<rparr>)"
begin

lemma R_step1: "R t u \<Longrightarrow> R s t \<Longrightarrow> R s u" by (rule R_trans)

lemma R_set_reg: "R s (set_reg i v s)"
  unfolding set_reg_def by (rule R_regs)

lemma R_update_flags:
  "R s (update_flags_nz r s)" "R s (clear_cv s)" "R s (set_nzcv r c v s)"
  "R s (update_flags_add a b r s)" "R s (update_flags_sub a b r s)"
  unfolding update_flags_add_def update_flags_sub_def update_flags_nz_def clear_cv_def set_nzcv_def Let_def
  by (rule R_flags)+

lemma R_signed_ub: "R s (signed_ub b s)"
  unfolding signed_ub_def by (rule R_sovf)

lemma R_results: "R s (logic_result rd r s)" "R s (muldiv_result rd r s)"
  unfolding logic_result_def muldiv_result_def
  by (rule R_step1 [OF R_set_reg] R_step1 [OF R_update_flags(2)] R_update_flags(1))+

lemma R_exec_regs:
  "R s (exec_rtype d s)" "R s (exec_addc d s)" "R s (exec_subc d s)" "R s (exec_rotate d s)"
  "R s (exec_shift_reg d s)" "R s (exec_itype d s)"
  unfolding exec_rtype_def exec_addc_def exec_subc_def exec_rotate_def exec_shift_reg_def
    exec_itype_def Let_def
  by (auto intro: R_refl R_results R_update_flags R_set_reg R_step1 [OF R_set_reg])

end

text \<open>The other instructions and the rest of the loop body.\<close>

locale step_rel = reg_rel +
  assumes R_faulting: "R s (s\<lparr>faulting_pc := p\<rparr>)"
    and R_halt: "R s (s\<lparr>halted := True\<rparr>)"
    and R_touch: "R s (touch a n s)"
    and R_mem: "R s (s\<lparr>mem := m\<rparr>)"
    and R_trap_regs: "R s (s\<lparr>estatus := es, epc := ep, eflags := ef, cause := c, status := st\<rparr>)"
    and R_status: "R s (s\<lparr>status := st\<rparr>)"
    and R_badaddr: "R s (s\<lparr>badaddr := va\<rparr>)"
    and R_flush: "R s (tlb_flush_non_global s)"
    and R_translate: "R s (snd (mmu_translate va at s))"
    and R_mmio_read: "R s (snd (mmio_read a s))"
    and R_mmio_write: "R s (mmio_write a v s)"
    and R_timer: "R s (timer_tick s)"
    and R_poll: "R s (poll_divided s)"
begin

lemma R_vector: "R s (vector_pc a s)"
  unfolding vector_pc_def by (auto intro: R_set_reg R_step1 [OF R_set_reg] R_touch)

lemma R_raise: "R s (raise_exception c s)"
  unfolding raise_exception_def by (rule R_step1 [OF R_vector R_trap_regs])

lemma R_stores: "R s (store32 a v s)" "R s (store16 a w s)" "R s (store8 a b s)"
  unfolding store32_def store16_def store8_def by (rule R_step1 [OF R_mem R_touch])+

lemma R_translated:
  assumes "mmu_translate va at s = (p, t)"
  shows "R s t"
  using R_translate [of s va at] by (simp add: assms)

lemma R_mmio_read':
  assumes "mmio_read a s = (v, t)"
  shows "R s t"
  using R_mmio_read [of s a] by (simp add: assms)

lemmas R_access = R_raise R_stores R_touch R_mmio_write R_mmio_read

lemma R_reads:
  "R s (snd (cpu_read32 a s))" "R s (snd (cpu_read16 a s))" "R s (snd (cpu_read8 a s))"
  "R s (snd (cpu_fetch a s))"
  unfolding cpu_read32_def cpu_read16_def cpu_read8_def cpu_fetch_def
  by (auto split: prod.split option.split dest!: R_translated R_mmio_read'
      intro: R_step1 [of _ _ s] R_access)

lemma R_writes: "R s (cpu_write32 a v s)" "R s (cpu_write16 a w s)" "R s (cpu_write8 a b s)"
  unfolding cpu_write32_def cpu_write16_def cpu_write8_def
  by (auto split: prod.split option.split dest!: R_translated intro: R_step1 [of _ _ s] R_access)

lemma R_load: "R s (snd p) \<Longrightarrow> R s (load_reg rd f p)"
  unfolding load_reg_def by (auto split: prod.split intro: R_step1 [OF R_set_reg])

lemma R_exec_muldiv: "R s (exec_muldiv d s)"
  unfolding exec_muldiv_def Let_def
  by (auto intro: R_refl R_results R_raise R_step1 [OF R_results(2) R_signed_ub])

lemma R_exec_indexed: "R s (exec_indexed d s)"
  unfolding exec_indexed_def Let_def by (auto intro: R_refl R_load R_reads R_writes)

lemma R_exec_loadstore: "R s (exec_loadstore d s)"
proof -
  have "R s (snd (signed_addr d s))" by (simp add: signed_addr_def Let_def R_signed_ub)
  then show ?thesis
    unfolding exec_loadstore_def Let_def
    by (auto split: prod.split intro: R_step1 [OF R_load [OF R_reads(1)]]
        R_step1 [OF R_load [OF R_reads(2)]] R_step1 [OF R_load [OF R_reads(3)]]
        R_step1 [OF R_writes(1)] R_step1 [OF R_writes(2)] R_step1 [OF R_writes(3)])
qed

lemma R_exec_cas: "R s (exec_cas d s)"
proof -
  have flags: "R s (t\<lparr>flags := f\<rparr>)" if "R s t" for t f using that by (rule R_step1 [OF R_flags])
  show ?thesis
    unfolding exec_cas_def Let_def
    by (auto split: prod.split if_split_asm dest!: R_mmio_read' intro!: R_raise flags
        intro: R_touch R_step1 [OF R_stores(1)] R_step1 [OF R_mmio_write] R_step1 [OF R_set_reg])
qed

lemma R_exec_control: "R s (exec_control pc d s)"
  unfolding exec_control_def
  by (auto split: option.split intro: R_refl R_raise R_set_reg R_step1 [OF R_set_reg])

lemma R_exec_system: "R s (exec_system d s)"
proof -
  have "R s (sys_call s)" unfolding sys_call_def by (rule R_step1 [OF R_vector R_trap_regs])
  moreover have "R s (t\<lparr>flags := f, status := st\<rparr>)" if "R s t" for t f st
    using that by (intro R_step1 [OF R_status] R_step1 [OF R_flags])
  ultimately show ?thesis
    unfolding exec_system_def sys_ret_def k_ret_def Let_def
    by (auto intro: R_refl R_raise R_set_reg R_halt R_flush)
qed

lemmas R_exec = R_exec_regs R_exec_muldiv R_exec_indexed R_exec_loadstore R_exec_cas
  R_exec_control R_exec_system R_raise

lemma R_exec_instr: "R s (exec_instr pc d s)"
  unfolding exec_instr_def Let_def by (simp add: R_exec)

lemma R_interrupt_check: "R s (interrupt_check s)"
  unfolding interrupt_check_def Let_def
  by (auto intro: R_refl R_step1 [OF R_faulting] R_step1 [OF R_raise])

lemma R_end_of_step: "R s (end_of_step skip s)"
  unfolding end_of_step_def Let_def
  by (auto intro: R_step1 [OF R_interrupt_check] R_step1 [OF R_poll] R_timer)

lemma R_cpu_step: "R s (cpu_step s)"
proof -
  define s0 where "s0 = s\<lparr>faulting_pc := regs s PC\<rparr>"
  have "R s s0" unfolding s0_def by (rule R_faulting)
  moreover have "R s0 s1" if "cpu_fetch (regs s PC) s0 = (r, s1)" for r s1
    using R_reads(4) [of s0 "regs s PC"] by (simp add: that)
  ultimately have "R s s1" if "cpu_fetch (regs s PC) s0 = (r, s1)" for r s1
    using that by (blast intro: R_trans)
  then show ?thesis
    unfolding cpu_step_def Let_def s0_def [symmetric]
    by (auto split: prod.split option.split
        intro!: R_step1 [OF R_end_of_step] R_step1 [OF R_exec_instr] R_step1 [OF R_set_reg])
qed

end

subsection \<open>Well-formed machines\<close>

definition tlb_wf :: "machine \<Rightarrow> bool" where
  "tlb_wf s \<longleftrightarrow> (\<forall>i. te_pa (tlb s i) AND 3 = 0 \<and> sp_pa_base (tlb s i) AND 3 = 0)"

text \<open>Only the lines 0 to 3 of the interrupt controller are wired to a device.\<close>

definition wired :: "u32 \<Rightarrow> bool" where
  "wired p \<longleftrightarrow> p AND NOT 0xF = 0"

lemma wired_or [simp]:
  "wired (p OR 1) = wired p" "wired (p OR 2) = wired p" "wired (p OR 4) = wired p" "wired (p OR 8) = wired p"
  unfolding wired_def by (simp_all only: bit.conj_disj_distrib2) simp_all

lemma wired_ack [simp]: "wired p \<Longrightarrow> wired (p AND NOT v)"
proof -
  assume "wired p"
  moreover have "(p AND NOT v) AND NOT 0xF = (p AND NOT 0xF) AND NOT v" by (simp only: ac_simps)
  ultimately show ?thesis by (simp only: wired_def zero_and_eq)
qed

definition machine_wf :: "machine \<Rightarrow> bool" where
  "machine_wf s \<longleftrightarrow> tlb_wf s \<and> uart_poll_divider s < 1000 \<and> wired (ic_pending s)"

lemma wf_cong:
  "tlb t = tlb s \<Longrightarrow> uart_poll_divider t = uart_poll_divider s \<Longrightarrow> ic_pending t = ic_pending s \<Longrightarrow>
   machine_wf t = machine_wf s"
  by (simp add: machine_wf_def tlb_wf_def)

lemma wf_raise [simp]: "machine_wf (raise_exception c s) = machine_wf s"
  by (rule wf_cong) simp_all

lemma wf_page_fault [simp]: "machine_wf (page_fault va c s) = machine_wf s"
  unfolding page_fault_def wf_raise by (rule wf_cong) simp_all

lemma tlb_wf_page_walk:
  assumes "tlb_wf s"
  shows "tlb_wf (snd (page_walk va at s))"
proof (cases "pt_walk (mem s) (satp s) va")
  case None
  then show ?thesis using assms by (simp add: page_walk_eq page_fault_def tlb_wf_def)
next
  case (Some w)
  obtain a p sp where w: "w = (a, p, sp)" by (cases w)
  note pt = pt_walk_Some [OF Some [unfolded w]]
  have "te_pa (new_entry va a q sp) AND 3 = 0 \<and> sp_pa_base (new_entry va a q sp) AND 3 = 0" for q
    by (cases sp) (simp_all only: new_entry_def TLBEntry.select_convs if_True if_False aligned_push_bit
        pt(3) and_zero_eq zero_and_eq simp_thms)
  then show ?thesis
    unfolding page_walk_eq Some w option.case prod.case walk_leaf_eq [OF pt(2,1)]
    using assms by (simp add: tlb_wf_def page_fault_def)
qed

lemma tlb_wf_tlb_hit: "tlb_wf s \<Longrightarrow> tlb_wf (snd (tlb_hit va at s))"
  by (auto simp: tlb_hit_def Let_def tlb_wf_def page_fault_def store32_def touch_def split: option.split)

text \<open>
  A translation that succeeds changes memory (dirty bits) and the translation buffer only:
  \<open>beyond_memory\<close> is everything else.
\<close>

definition beyond_memory :: "machine \<Rightarrow> machine" where
  "beyond_memory s = s\<lparr>mem := \<lambda>a. 0, tlb := \<lambda>i. tlb_entry0, oob := False\<rparr>"

lemma beyond_memory_updates [simp]:
  "beyond_memory (s\<lparr>mem := m\<rparr>) = beyond_memory s"
  "beyond_memory (s\<lparr>tlb := tb\<rparr>) = beyond_memory s"
  "beyond_memory (s\<lparr>mem := m, tlb := tb\<rparr>) = beyond_memory s"
  "beyond_memory (store32 a v s) = beyond_memory s"
  by (simp_all add: beyond_memory_def store32_def touch_def)

lemma beyond_memory_tlb_hit:
  "tlb_hit va at s = (Some pa, t) \<Longrightarrow> beyond_memory t = beyond_memory s"
  unfolding tlb_hit_def Let_def by (auto split: option.splits if_splits)

lemma beyond_memory_page_walk:
  "page_walk va at s = (Some pa, t) \<Longrightarrow> beyond_memory t = beyond_memory s"
  unfolding page_walk_eq walk_leaf_def Let_def by (auto split: option.splits if_splits)

lemma beyond_memory_translate:
  "mmu_translate va at s = (Some pa, t) \<Longrightarrow> beyond_memory t = beyond_memory s"
  using beyond_memory_tlb_hit [of va at s pa t] beyond_memory_page_walk [of va at s pa t]
  by (auto simp: mmu_translate_def split: if_splits)

lemma beyond_memory_cong:
  assumes "beyond_memory t = beyond_memory s"
  shows "uart_poll_divider t = uart_poll_divider s" "ic_pending t = ic_pending s" "stdout_q t = stdout_q s" "stdin_q t = stdin_q s" "halted t = halted s" "exited t = exited s" "sovf t = sovf s" "blk_file t = blk_file s" "evec t = evec s" "satp t = satp s" "blk_buffer t = blk_buffer s" "regs t = regs s" "flags t = flags s" "status t = status s" "cause t = cause s" "epc t = epc s" "eflags t = eflags s" "estatus t = estatus s" "badaddr t = badaddr s" "faulting_pc t = faulting_pc s"
  using arg_cong [OF assms, of uart_poll_divider] arg_cong [OF assms, of ic_pending] arg_cong [OF assms, of stdout_q] arg_cong [OF assms, of stdin_q] arg_cong [OF assms, of halted] arg_cong [OF assms, of exited] arg_cong [OF assms, of sovf] arg_cong [OF assms, of blk_file] arg_cong [OF assms, of evec] arg_cong [OF assms, of satp] arg_cong [OF assms, of blk_buffer] arg_cong [OF assms, of regs] arg_cong [OF assms, of flags] arg_cong [OF assms, of status] arg_cong [OF assms, of cause] arg_cong [OF assms, of epc] arg_cong [OF assms, of eflags] arg_cong [OF assms, of estatus] arg_cong [OF assms, of badaddr] arg_cong [OF assms, of faulting_pc]
  by (simp_all add: beyond_memory_def)

lemma translate_frame [frame_simps]:
  "uart_poll_divider (snd (mmu_translate va at s)) = uart_poll_divider s"
  "ic_pending (snd (mmu_translate va at s)) = ic_pending s"
  "stdout_q (snd (mmu_translate va at s)) = stdout_q s"
  "stdin_q (snd (mmu_translate va at s)) = stdin_q s"
  "halted (snd (mmu_translate va at s)) = halted s"
  "exited (snd (mmu_translate va at s)) = exited s"
  "sovf (snd (mmu_translate va at s)) = sovf s"
  "blk_file (snd (mmu_translate va at s)) = blk_file s"
  "evec (snd (mmu_translate va at s)) = evec s"
  "satp (snd (mmu_translate va at s)) = satp s"
  "blk_buffer (snd (mmu_translate va at s)) = blk_buffer s"
proof -
  define t where "t = snd (mmu_translate va at s)"
  have "uart_poll_divider t = uart_poll_divider s \<and>
    ic_pending t = ic_pending s \<and>
    stdout_q t = stdout_q s \<and>
    stdin_q t = stdin_q s \<and>
    halted t = halted s \<and>
    exited t = exited s \<and>
    sovf t = sovf s \<and>
    blk_file t = blk_file s \<and>
    evec t = evec s \<and>
    satp t = satp s \<and>
    blk_buffer t = blk_buffer s"
  proof (cases "fst (mmu_translate va at s)")
    case None
    then show ?thesis using mmu_translate_None [OF None] by (simp add: t_def page_fault_def raise_exception_eq)
  next
    case (Some pa)
    then have "beyond_memory t = beyond_memory s"
      by (intro beyond_memory_translate [of va at s pa]) (simp add: t_def prod_eq_iff)
    from beyond_memory_cong [OF this] show ?thesis by (intro conjI)
  qed
  then show "uart_poll_divider (snd (mmu_translate va at s)) = uart_poll_divider s"
    "ic_pending (snd (mmu_translate va at s)) = ic_pending s"
    "stdout_q (snd (mmu_translate va at s)) = stdout_q s"
    "stdin_q (snd (mmu_translate va at s)) = stdin_q s"
    "halted (snd (mmu_translate va at s)) = halted s"
    "exited (snd (mmu_translate va at s)) = exited s"
    "sovf (snd (mmu_translate va at s)) = sovf s"
    "blk_file (snd (mmu_translate va at s)) = blk_file s"
    "evec (snd (mmu_translate va at s)) = evec s"
    "satp (snd (mmu_translate va at s)) = satp s"
    "blk_buffer (snd (mmu_translate va at s)) = blk_buffer s"
    by (simp_all add: t_def)
qed

lemma wf_translate: "machine_wf s \<Longrightarrow> machine_wf (snd (mmu_translate va at s))"
  using tlb_wf_page_walk [of s va at] tlb_wf_tlb_hit [of s va at]
  unfolding machine_wf_def translate_frame by (simp add: mmu_translate_def)

lemmas wf_defs = machine_wf_def tlb_wf_def touch_def Let_def

lemma wf_flush: "machine_wf s \<Longrightarrow> machine_wf (tlb_flush_non_global s)"
  by (simp add: wf_defs tlb_flush_non_global_def)

lemma wf_mmio_read: "machine_wf s \<Longrightarrow> machine_wf (snd (mmio_read a s))"
  by (simp add: mmio_read_def wf_defs)

lemma wf_blk_command: "machine_wf s \<Longrightarrow> machine_wf (blk_command v s)"
  by (simp add: blk_command_def blk_transfer_def wf_defs split: option.split)

lemma wf_sv_write: "machine_wf s \<Longrightarrow> machine_wf (sv_write o' v s)"
  using wf_flush [of "s\<lparr>satp := v\<rparr>"] by (simp add: sv_write_def wf_defs)

lemma wf_uart_write: "machine_wf s \<Longrightarrow> machine_wf (uart_write o' v s)"
  by (simp add: uart_write_def wf_defs)

lemma wf_mmio_write: "machine_wf s \<Longrightarrow> machine_wf (mmio_write a v s)"
  unfolding mmio_write_def Let_def
  by (simp add: wf_blk_command wf_sv_write wf_uart_write) (simp add: wf_defs)

lemma wf_timer_tick: "machine_wf s \<Longrightarrow> machine_wf (timer_tick s)"
  by (simp add: timer_tick_def wf_defs)

lemma wf_uart_poll: "machine_wf s \<Longrightarrow> machine_wf (uart_poll s)"
  by (simp add: uart_poll_def read_one_def uart_receive_def wf_defs split: list.split option.split)

lemma wf_poll_divided: "machine_wf s \<Longrightarrow> machine_wf (poll_divided s)"
  using wf_uart_poll [of "s\<lparr>uart_poll_divider := 0\<rparr>"] by (simp add: poll_divided_def wf_defs not_le)

interpretation wf: step_rel "\<lambda>s t. machine_wf s \<longrightarrow> machine_wf t"
proof unfold_locales
  fix s :: machine and va at a v
  show "machine_wf s \<longrightarrow> machine_wf (tlb_flush_non_global s)" by (simp add: wf_flush)
  show "machine_wf s \<longrightarrow> machine_wf (snd (mmu_translate va at s))" by (simp add: wf_translate)
  show "machine_wf s \<longrightarrow> machine_wf (snd (mmio_read a s))" by (simp add: wf_mmio_read)
  show "machine_wf s \<longrightarrow> machine_wf (mmio_write a v s)" by (simp add: wf_mmio_write)
  show "machine_wf s \<longrightarrow> machine_wf (timer_tick s)" by (simp add: wf_timer_tick)
  show "machine_wf s \<longrightarrow> machine_wf (poll_divided s)" by (simp add: wf_poll_divided)
qed (auto simp: wf_defs)

subsection \<open>What only ever grows\<close>

definition disk_size :: "machine \<Rightarrow> nat option" where
  "disk_size s = map_option length (blk_file s)"

definition disk_grows :: "machine \<Rightarrow> machine \<Rightarrow> bool" where
  "disk_grows s t \<longleftrightarrow>
     (case (disk_size s, disk_size t) of (None, None) \<Rightarrow> True | (Some m, Some n) \<Rightarrow> m \<le> n | _ \<Rightarrow> False)"

definition progress :: "machine \<Rightarrow> machine \<Rightarrow> bool" where
  "progress s t \<longleftrightarrow>
     prefix (stdout_q s) (stdout_q t) \<and> suffix (stdin_q t) (stdin_q s) \<and> disk_grows s t \<and>
     (halted s \<longrightarrow> halted t) \<and> (exited s \<longrightarrow> exited t) \<and> (oob s \<longrightarrow> oob t) \<and> (sovf s \<longrightarrow> sovf t)"

lemma disk_grows_refl [simp]: "blk_file t = blk_file s \<Longrightarrow> disk_grows s t"
  by (simp add: disk_grows_def disk_size_def split: option.split)

lemma disk_grows_trans: "disk_grows s t \<Longrightarrow> disk_grows t u \<Longrightarrow> disk_grows s u"
  by (auto simp: disk_grows_def split: option.splits)

lemma progress_trans: "progress s t \<Longrightarrow> progress t u \<Longrightarrow> progress s u"
  unfolding progress_def
  by (blast intro: disk_grows_trans prefix_order.trans suffix_order.trans)

lemma progress_same:
  "stdout_q t = stdout_q s \<Longrightarrow> stdin_q t = stdin_q s \<Longrightarrow> blk_file t = blk_file s \<Longrightarrow>
   (halted s \<Longrightarrow> halted t) \<Longrightarrow> exited t = exited s \<Longrightarrow> (oob s \<Longrightarrow> oob t) \<Longrightarrow> (sovf s \<Longrightarrow> sovf t) \<Longrightarrow>
   progress s t"
  by (simp add: progress_def)

lemma oob_raise: "oob s \<Longrightarrow> oob (raise_exception c s)"
  by (simp add: raise_exception_eq)

lemma oob_translate: "oob s \<Longrightarrow> oob (snd (mmu_translate va at s))"
  by (auto simp: mmu_translate_def tlb_hit_def page_walk_eq walk_leaf_def Let_def page_fault_def
      oob_raise store32_def touch_def split: option.split)

lemma progress_raise: "progress s (raise_exception c s)"
  by (rule progress_same) (simp_all add: raise_exception_eq)

lemma progress_mmio_read: "progress s (snd (mmio_read a s))"
  by (rule progress_same) (simp_all add: mmio_read_def Let_def raise_exception_eq)

lemma progress_flush: "progress s (tlb_flush_non_global s)"
  by (rule progress_same) (simp_all add: tlb_flush_non_global_def)

lemma progress_blk_command: "progress s (blk_command v s)"
  by (simp add: blk_command_def blk_transfer_def progress_def disk_grows_def disk_size_def Let_def touch_def
      length_host_fwrite split: option.split)

lemma progress_uart_write: "progress s (uart_write o' v s)"
  by (simp add: uart_write_def progress_def Let_def)

lemma progress_sv_write: "progress s (sv_write o' v s)"
  by (rule progress_same) (simp_all add: sv_write_def tlb_flush_non_global_def)

lemma progress_mmio_write: "progress s (mmio_write a v s)"
  unfolding mmio_write_def Let_def
  by (simp add: progress_raise progress_blk_command progress_uart_write progress_sv_write)
    (simp add: progress_same)

lemma progress_uart_poll: "progress s (uart_poll s)"
  by (simp add: uart_poll_def read_one_def uart_receive_def Let_def progress_def suffix_Cons
      split: list.split option.split)

lemma progress_poll_divided: "progress s (poll_divided s)"
proof -
  have "progress s (s\<lparr>uart_poll_divider := n\<rparr>)" for n by (rule progress_same) simp_all
  then show ?thesis
    unfolding poll_divided_def Let_def by (auto intro: progress_trans progress_uart_poll)
qed

interpretation grows: step_rel progress
proof unfold_locales
  fix s :: machine and va at a v
  show "progress s (snd (mmu_translate va at s))"
    by (rule progress_same) (simp_all add: frame_simps oob_translate)
  show "progress s (timer_tick s)" by (rule progress_same) (simp_all add: timer_tick_def Let_def)
qed (auto simp: progress_same touch_def
    intro: progress_trans progress_flush progress_mmio_read progress_mmio_write progress_poll_divided)

end
