(* ===== verification/Loader.thy ===== *)
theory Loader
  imports Steps
begin

text \<open>
  Start-up: \<open>cpu_reset\<close>, the ELF and flat loaders, and the part of \<open>main\<close> that prepares the
  machine for \<open>cpu_run\<close> (\<open>emulator.c\<close>, lines 1105 to 1231). Files are lists of bytes.
  \<open>elf_byte\<close> is what a byte of memory should be according to the program headers; the lemmas
  show that a successful load establishes it, and when the loader stays inside \<open>mem\<close>.
\<close>

definition stopped :: "machine \<Rightarrow> bool" where
  "stopped s \<longleftrightarrow> halted s \<or> exited s"

subsection \<open>Reset\<close>

definition cpu_reset :: "machine \<Rightarrow> machine" where
  "cpu_reset s =
     tlb_flush_all
       (s\<lparr>regs := (\<lambda>i. 0), flags := 0, epc := 0, eflags := 0, evec := 0, cause := 0, status := 0x01,
          halted := False, estatus := 0x02, uart_poll_divider := 0, faulting_pc := 0, satp := 0,
          badaddr := 0, uart_control := 0, uart_rx_ready := False, uart_rx_byte := 0,
          timer_period := 0, timer_count := 0, timer_control := 0, ic_pending := 0, ic_mask := 0,
          blk_sector := 0, blk_buffer := 0, blk_status := 0, blk_control := 0, blk_file := None\<rparr>)"

subsection \<open>Loading a program\<close>

definition rd_le16 :: "u8 list \<Rightarrow> nat \<Rightarrow> u16" where
  "rd_le16 b i = le16 (b ! i) (b ! (i + 1))"

definition rd_le32 :: "u8 list \<Rightarrow> nat \<Rightarrow> u32" where
  "rd_le32 b i = le32 (b ! i) (b ! (i + 1)) (b ! (i + 2)) (b ! (i + 3))"

text \<open>Bytes stored from \<open>mem + off\<close> on, where the offset is host arithmetic and does not wrap.\<close>

definition host_store :: "nat \<Rightarrow> u8 list \<Rightarrow> machine \<Rightarrow> machine" where
  "host_store off bs s =
     s\<lparr>mem := mem_fill (mem s) (of_nat off) bs,
       oob := (oob s \<or> bs \<noteq> [] \<and> 0x04000000 < off + length bs)\<rparr>"

text \<open>One program header; \<open>None\<close> where the C function returns \<open>(uint32_t)-1\<close>.\<close>

definition load_segment :: "u8 list \<Rightarrow> u8 list \<Rightarrow> machine \<Rightarrow> machine option" where
  "load_segment f ph s =
     (if rd_le32 ph 0 \<noteq> 1 then Some s
      else
        let p_offset = rd_le32 ph 4; p_vaddr = rd_le32 ph 8;
            p_filesz = rd_le32 ph 16; p_memsz = rd_le32 ph 20
        in if p_vaddr + p_memsz > MEM_SIZE then None
           else
             let data = host_fread f (unat p_offset) (unat p_filesz);
                 s1 = (if p_filesz > 0 then host_store (unat p_vaddr) data s else s)
             in if p_filesz > 0 \<and> length data \<noteq> unat p_filesz then None
                else if p_memsz > p_filesz then
                  Some (host_store (unat p_vaddr + unat p_filesz) (replicate (unat (p_memsz - p_filesz)) 0) s1)
                else Some s1)"

fun load_segments :: "u8 list \<Rightarrow> u32 \<Rightarrow> u16 \<Rightarrow> u32 list \<Rightarrow> machine \<Rightarrow> machine option" where
  "load_segments f e_phoff e_phentsize [] s = Some s"
| "load_segments f e_phoff e_phentsize (i # is) s =
     (let ph = host_fread f (unat (e_phoff + i * ucast e_phentsize)) 32
      in if length ph \<noteq> 32 then None
         else case load_segment f ph s of
                None \<Rightarrow> None
              | Some s1 \<Rightarrow> load_segments f e_phoff e_phentsize is s1)"

definition load_elf :: "u8 list \<Rightarrow> machine \<Rightarrow> (u32 \<times> machine) option" where
  "load_elf f s =
     (let hdr = host_fread f 0 52
      in if length hdr \<noteq> 52 then None
         else if hdr ! 4 \<noteq> 1 then None
         else
           let e_entry = rd_le32 hdr 24; e_phoff = rd_le32 hdr 28;
               e_phentsize = rd_le16 hdr 42; e_phnum = rd_le16 hdr 44
           in case load_segments f e_phoff e_phentsize (map of_nat [0..<unat e_phnum]) s of
                None \<Rightarrow> None
              | Some s1 \<Rightarrow> if e_entry = 0xFFFFFFFF then None else Some (e_entry, s1))"

definition is_elf :: "u8 list \<Rightarrow> bool" where
  "is_elf f \<longleftrightarrow> take 4 f = [0x7F, 0x45, 0x4C, 0x46]"

definition load_flat :: "u32 \<Rightarrow> u8 list \<Rightarrow> machine \<Rightarrow> machine" where
  "load_flat load_addr f s =
     set_reg PC load_addr
       (host_store (unat load_addr) (host_fread f 0 (unat (MEM_SIZE - load_addr))) s)"

text \<open>\<open>main\<close>, from the parsed options to the call of \<open>cpu_run\<close>; \<open>None\<close> is an exit with status 1.\<close>

definition boot :: "u32 \<Rightarrow> u8 list \<Rightarrow> u8 list option \<Rightarrow> u8 option list \<Rightarrow> machine option" where
  "boot load_addr f blk input =
     (let s = (cpu_reset zero_machine)\<lparr>stdin_q := input\<rparr>;
          loaded = (if is_elf f then
                      (case load_elf f s of None \<Rightarrow> None | Some (entry, s1) \<Rightarrow> Some (set_reg PC entry s1))
                    else Some (load_flat load_addr f s))
      in map_option (\<lambda>s. s\<lparr>blk_file := blk\<rparr>) loaded)"

subsection \<open>Loading leaves the processor alone\<close>

lemma host_store_frame:
  "machine_wf (host_store off bs s) = machine_wf s"
  "stopped (host_store off bs s) = stopped s"
  by (simp_all add: host_store_def wf_defs stopped_def)

lemma load_segment_frame:
  "load_segment f ph s = Some t \<Longrightarrow> machine_wf t = machine_wf s \<and> stopped t = stopped s"
  by (auto simp: load_segment_def Let_def host_store_frame split: if_splits)

lemma load_segments_frame:
  "load_segments f a n is s = Some t \<Longrightarrow> machine_wf t = machine_wf s \<and> stopped t = stopped s"
  by (induction "is" arbitrary: s) (auto simp: Let_def dest: load_segment_frame split: if_splits option.splits)

subsection \<open>The loaded image\<close>

text \<open>
  The specification of a loaded image, byte by byte: the last loadable header that covers an
  address decides, with file contents up to \<open>p_filesz\<close> and zeros after it.
\<close>

definition loadable :: "u8 list \<Rightarrow> bool" where
  "loadable ph \<longleftrightarrow> rd_le32 ph 0 = 1"

definition segment_size :: "u8 list \<Rightarrow> u32" where
  "segment_size ph = max (rd_le32 ph 16) (rd_le32 ph 20)"

definition segment_covers :: "u32 \<Rightarrow> u8 list \<Rightarrow> bool" where
  "segment_covers a ph \<longleftrightarrow> loadable ph \<and> a - rd_le32 ph 8 < segment_size ph"

definition elf_byte :: "u8 list \<Rightarrow> u8 list list \<Rightarrow> memory \<Rightarrow> u32 \<Rightarrow> u8" where
  "elf_byte f phs m a =
     (case find (segment_covers a) (rev phs) of
        None \<Rightarrow> m a
      | Some ph \<Rightarrow>
          (let i = a - rd_le32 ph 8
           in if i < rd_le32 ph 16 then f ! (unat (rd_le32 ph 4) + unat i) else 0))"

definition elf_headers :: "u8 list \<Rightarrow> u8 list list" where
  "elf_headers f =
     map (\<lambda>i. host_fread f (unat (rd_le32 f 28 + of_nat i * ucast (rd_le16 f 42))) 32)
       [0..<unat (rd_le16 f 44)]"

text \<open>The segment lies inside \<open>mem\<close>, with its file part and its zeroed part.\<close>

definition segment_fits :: "u8 list \<Rightarrow> bool" where
  "segment_fits ph \<longleftrightarrow> unat (rd_le32 ph 8) + unat (segment_size ph) \<le> 0x04000000"

lemma find_of_append: "find P (xs @ ys) = (case find P xs of None \<Rightarrow> find P ys | r \<Rightarrow> r)"
  by (induction xs) auto

lemma elf_byte_Nil [simp]: "elf_byte f [] m = m"
  by (simp add: elf_byte_def fun_eq_iff)

lemma elf_byte_Cons: "elf_byte f (ph # phs) m a = elf_byte f phs (elf_byte f [ph] m) a"
  by (auto simp: elf_byte_def find_of_append split: option.split)

lemma zero_fill_iff:
  assumes "(fs :: u32) < ms"
  shows "unat (x - fs) < unat (ms - fs) \<longleftrightarrow> fs \<le> x \<and> x < ms"
proof -
  obtain a where a: "uint x = a" "0 \<le> a" "a < 4294967296" by (rule uint_u32_cases)
  obtain b where b: "uint fs = b" "0 \<le> b" "b < 4294967296" by (rule uint_u32_cases)
  obtain c where c: "uint ms = c" "0 \<le> c" "c < 4294967296" by (rule uint_u32_cases)
  have "b < c" using assms b(1) c(1) by (simp add: word_less_def)
  then show ?thesis
    unfolding word_less_nat_alt [symmetric] word_less_def word_le_def uint_sub_u32 a(1) b(1) c(1)
    using a(2,3) b(2,3) c(2,3) by auto
qed

lemma load_segment_shape:
  assumes "load_segment f ph s = Some t" "loadable ph"
  defines "v \<equiv> rd_le32 ph 8" and "fs \<equiv> rd_le32 ph 16" and "ms \<equiv> rd_le32 ph 20"
    and "off \<equiv> unat (rd_le32 ph 4)"
  obtains data where "length data = unat fs" "\<And>i. i < unat fs \<Longrightarrow> data ! i = f ! (off + i)"
    "t = (let s1 = (if fs > 0 then host_store (unat v) data s else s) in
      if ms > fs then host_store (unat v + unat fs) (replicate (unat (ms - fs)) 0) s1 else s1)"
proof
  let ?data = "host_fread f off (unat fs)"
  show len: "length ?data = unat fs"
  proof (cases "0 < fs")
    case True
    then show ?thesis using assms(1,2)
      by (simp add: load_segment_def loadable_def Let_def fs_def off_def split: if_splits)
  qed (simp add: host_fread_def word_gt_0)
  show "?data ! i = f ! (off + i)" if "i < unat fs" for i
    using that len by (simp add: host_fread_def)
  show "t = (let s1 = (if fs > 0 then host_store (unat v) ?data s else s) in
      if ms > fs then host_store (unat v + unat fs) (replicate (unat (ms - fs)) 0) s1 else s1)"
    using assms(1,2)
    by (auto simp: load_segment_def loadable_def Let_def v_def fs_def ms_def off_def split: if_splits)
qed

lemma load_segment_mem:
  assumes "load_segment f ph s = Some t"
  shows "mem t a = elf_byte f [ph] (mem s) a"
proof (cases "loadable ph")
  case False
  then show ?thesis using assms by (simp add: load_segment_def loadable_def elf_byte_def segment_covers_def)
next
  case True
  define v where "v = rd_le32 ph 8"
  define fs where "fs = rd_le32 ph 16"
  define ms where "ms = rd_le32 ph 20"
  define off where "off = unat (rd_le32 ph 4)"
  obtain data where d: "length data = unat fs" "\<And>i. i < unat fs \<Longrightarrow> data ! i = f ! (off + i)"
    and t: "t = (let s1 = (if fs > 0 then host_store (unat v) data s else s) in
      if ms > fs then host_store (unat v + unat fs) (replicate (unat (ms - fs)) 0) s1 else s1)"
    using load_segment_shape [OF assms True] unfolding v_def fs_def ms_def off_def by blast
  have e: "elf_byte f [ph] (mem s) a =
    (if a - v < max fs ms then if a - v < fs then f ! (off + unat (a - v)) else 0 else mem s a)"
    using True by (simp add: elf_byte_def segment_covers_def segment_size_def v_def fs_def ms_def off_def Let_def)
  have m1: "mem (if fs > 0 then host_store (unat v) data s else s) a =
    (if a - v < fs then f ! (off + unat (a - v)) else mem s a)"
    using d by (auto simp: host_store_def mem_fill_def word_less_nat_alt unat_eq_0)
  show ?thesis
  proof (cases "fs < ms")
    case False
    then show ?thesis using m1 by (auto simp: t e Let_def max_def not_less)
  next
    case True
    have w: "a - (v + fs) = (a - v) - fs" by (simp add: algebra_simps)
    have "mem t a = (if fs \<le> a - v \<and> a - v < ms then 0
        else mem (if fs > 0 then host_store (unat v) data s else s) a)"
      using True zero_fill_iff [OF True, of "a - v"]
      by (simp add: t Let_def host_store_def [of "unat v + unat fs"] mem_fill_def w)
    then show ?thesis using True unfolding m1 e by (auto simp: max_def not_less not_le)
  qed
qed

lemma load_segment_oob:
  assumes "load_segment f ph s = Some t"
  shows "oob t \<longleftrightarrow> oob s \<or> (loadable ph \<and> 0 < segment_size ph \<and> \<not> segment_fits ph)"
proof (cases "loadable ph")
  case False
  then show ?thesis using assms by (simp add: load_segment_def loadable_def)
next
  case True
  define v where "v = rd_le32 ph 8"
  define fs where "fs = rd_le32 ph 16"
  define ms where "ms = rd_le32 ph 20"
  obtain data where d: "length data = unat fs"
    and t: "t = (let s1 = (if fs > 0 then host_store (unat v) data s else s) in
      if ms > fs then host_store (unat v + unat fs) (replicate (unat (ms - fs)) 0) s1 else s1)"
    using load_segment_shape [OF assms True] unfolding v_def fs_def ms_def by metis
  have o1: "oob (if fs > 0 then host_store (unat v) data s else s) \<longleftrightarrow>
      oob s \<or> (fs > 0 \<and> 0x04000000 < unat v + unat fs)"
    using d by (auto simp: host_store_def word_gt_0 unat_eq_0)
  have sz: "segment_size ph = max fs ms" "segment_fits ph \<longleftrightarrow> unat v + unat (max fs ms) \<le> 0x04000000"
    by (simp_all add: segment_size_def segment_fits_def v_def fs_def ms_def)
  show ?thesis
  proof (cases "fs < ms")
    case False
    then show ?thesis using o1 True by (auto simp: t Let_def sz max_def not_less not_le)
  next
    case less: True
    have "unat (ms - fs) = unat ms - unat fs" "unat fs < unat ms"
      using less unat_sub [OF less_imp_le [OF less]] by (simp_all add: word_less_nat_alt)
    then have "oob t \<longleftrightarrow> oob s \<or> (fs > 0 \<and> 0x04000000 < unat v + unat fs) \<or> 0x04000000 < unat v + unat ms"
      using less o1 by (auto simp: t Let_def host_store_def [of "unat v + unat fs"])
    then show ?thesis using less True \<open>unat fs < unat ms\<close> by (auto simp: sz max_def not_le word_gt_0)
  qed
qed

lemma load_segments_image:
  assumes "load_segments f a n is s = Some t"
    and "phs = map (\<lambda>i. host_fread f (unat (a + i * ucast n)) 32) is"
  shows "mem t x = elf_byte f phs (mem s) x"
    and "oob t \<longleftrightarrow> oob s \<or> (\<exists>ph \<in> set phs. loadable ph \<and> 0 < segment_size ph \<and> \<not> segment_fits ph)"
  using assms
proof (induction "is" arbitrary: s phs)
  case Nil
  { case 1 then show ?case by (simp add: elf_byte_def) }
  { case 2 then show ?case by simp }
next
  case (Cons i "is")
  let ?ph = "host_fread f (unat (a + i * ucast n)) 32"
  { case 1
    then obtain s1 where s1: "load_segment f ?ph s = Some s1" "load_segments f a n is s1 = Some t"
      by (auto simp: Let_def split: if_splits option.splits)
    have "mem s1 = elf_byte f [?ph] (mem s)" by (rule ext) (rule load_segment_mem [OF s1(1)])
    with Cons.IH(1) [OF s1(2) refl] show ?case
      by (simp only: 1(2) list.map elf_byte_Cons [of f ?ph "map _ _"])
  next
    case 2
    then obtain s1 where s1: "load_segment f ?ph s = Some s1" "load_segments f a n is s1 = Some t"
      by (auto simp: Let_def split: if_splits option.splits)
    with Cons.IH(2) [OF s1(2) refl] load_segment_oob [OF s1(1)] 2(2) show ?case by auto }
qed

text \<open>C30: A successful ELF load puts in memory exactly what the program headers say, byte by byte, for any
  number and order of segments, returns the entry point of the header, and has stayed inside
  \<open>mem\<close> exactly when every non-empty loadable segment lies inside it: the loader's own check
  (\<open>p_vaddr + p_memsz > MEM_SIZE\<close>) wraps and looks at \<open>p_memsz\<close> only, so it does not ensure that.\<close>

theorem load_elf_image:
  assumes "load_elf f s = Some (e, t)"
  shows "(\<forall>a. mem t a = elf_byte f (elf_headers f) (mem s) a) \<and> e = rd_le32 f 24 \<and>
    (oob t \<longleftrightarrow> oob s \<or> (\<exists>ph \<in> set (elf_headers f). loadable ph \<and> 0 < segment_size ph \<and> \<not> segment_fits ph))"
proof -
  let ?h = "host_fread f 0 52"
  have len: "length ?h = 52" and e: "e = rd_le32 ?h 24"
    and ld: "load_segments f (rd_le32 ?h 28) (rd_le16 ?h 42) (map of_nat [0..<unat (rd_le16 ?h 44)]) s = Some t"
    using assms by (auto simp: load_elf_def Let_def split: if_splits option.splits)
  have nth: "?h ! i = f ! i" if "i < 52" for i using that len by (simp add: host_fread_def)
  then have h: "rd_le32 ?h 24 = rd_le32 f 24" "rd_le32 ?h 28 = rd_le32 f 28" "rd_le16 ?h 42 = rd_le16 f 42"
    "rd_le16 ?h 44 = rd_le16 f 44"
    by (simp_all add: rd_le32_def rd_le16_def)
  have hd: "elf_headers f = map (\<lambda>i. host_fread f (unat (rd_le32 ?h 28 + i * ucast (rd_le16 ?h 42))) 32)
      (map of_nat [0..<unat (rd_le16 ?h 44)])"
    by (simp add: elf_headers_def h)
  show ?thesis
    using load_segments_image [OF ld hd] e h(1) by auto
qed

text \<open>An ELF file with one segment of 8 bytes at 0x1000, four of them from the file.\<close>

definition tiny_elf :: "u8 list" where
  "tiny_elf =
    [127, 69, 76, 70, 1, 0, 0, 0, 0, 0, 0, 0, 0, 0, 0, 0, 0, 0, 0, 0, 0, 0, 0, 0,
     0, 16, 0, 0, 52, 0, 0, 0, 0, 0, 0, 0, 0, 0, 0, 0, 0, 0, 32, 0, 1, 0, 0, 0,
     0, 0, 0, 0, 1, 0, 0, 0, 84, 0, 0, 0, 0, 16, 0, 0, 0, 0, 0, 0, 4, 0, 0, 0,
     8, 0, 0, 0, 0, 0, 0, 0, 0, 0, 0, 0, 170, 187, 204, 221]"

lemma tiny_elf_headers: "elf_headers tiny_elf = [[1, 0, 0, 0, 84, 0, 0, 0, 0, 16, 0, 0, 0, 0, 0, 0, 4, 0, 0, 0, 8, 0, 0, 0, 0, 0, 0, 0, 0, 0, 0, 0]]"
  by (simp add: elf_headers_def tiny_elf_def rd_le32_def rd_le16_def host_fread_def le16_def le32_def)

lemma tiny_elf_loads: "\<exists>t. load_elf tiny_elf zero_machine = Some (0x1000, t)"
  by (simp add: load_elf_def tiny_elf_def rd_le32_def rd_le16_def host_fread_def le16_def le32_def Let_def load_segment_def)

lemma load_elf_image_witness:
  "\<exists>t. load_elf tiny_elf zero_machine = Some (0x1000, t) \<and> mem t 0x1002 = 0xCC \<and> mem t 0x1007 = 0 \<and> \<not> oob t"
proof -
  obtain t where t: "load_elf tiny_elf zero_machine = Some (0x1000, t)" using tiny_elf_loads by blast
  from load_elf_image [OF t, unfolded tiny_elf_headers] t show ?thesis
    by (simp add: elf_byte_def segment_covers_def loadable_def segment_size_def segment_fits_def
        rd_le32_def le32_def Let_def zero_machine_def max_def word_le_def)
      (simp add: tiny_elf_def)
qed

end
