(* ===== verification/Run.thy ===== *)
theory Run
  imports Loader
begin

text \<open>
  The loop of \<open>cpu_run\<close> (\<open>emulator.c\<close>, lines 861 to 1103, without the debugger). It may run for
  ever: \<open>cpu_run\<close> is a \<open>partial_function\<close> that is \<open>None\<close> when it does, \<open>run_steps n\<close> is its
  first \<open>n\<close> iterations, and \<open>emu_step\<close> is one iteration as a relation, for reasoning about every
  state that is reached, whether the loop ends or not.
\<close>

subsection \<open>The execute loop\<close>

partial_function (option) cpu_run :: "machine \<Rightarrow> machine option" where
  "cpu_run s = (if stopped s then Some s else cpu_run (cpu_step s))"

fun run_steps :: "nat \<Rightarrow> machine \<Rightarrow> machine" where
  "run_steps 0 s = s"
| "run_steps (Suc n) s = (if stopped s then s else run_steps n (cpu_step s))"

inductive emu_step :: "machine \<Rightarrow> machine \<Rightarrow> bool" where
  "\<not> stopped s \<Longrightarrow> emu_step s (cpu_step s)"

inductive_simps emu_step_iff: "emu_step s t"

abbreviation emu_steps :: "machine \<Rightarrow> machine \<Rightarrow> bool" where
  "emu_steps \<equiv> emu_step\<^sup>*\<^sup>*"

subsection \<open>The three views of the loop agree\<close>

lemma run_steps_stopped: "stopped s \<Longrightarrow> run_steps n s = s"
  by (cases n) simp_all

lemma run_steps_add: "run_steps (m + n) s = run_steps n (run_steps m s)"
  by (induction m arbitrary: s) (simp_all add: run_steps_stopped)

lemma run_steps_reaches: "emu_steps s (run_steps n s)"
  by (induction n arbitrary: s) (auto intro: converse_rtranclp_into_rtranclp emu_step.intros)

lemma reaches_run_steps: "emu_steps s t \<Longrightarrow> \<exists>n. t = run_steps n s"
proof (induction rule: rtranclp_induct)
  case base
  show ?case by (rule exI [of _ 0]) simp
next
  case (step t u)
  then obtain n where n: "t = run_steps n s" by blast
  from step.hyps(2) have "u = run_steps 1 t" by (simp add: emu_step_iff)
  then have "u = run_steps (n + 1) s" by (simp only: n run_steps_add)
  then show ?case by blast
qed

lemma cpu_run_run_steps: "stopped (run_steps n s) \<Longrightarrow> cpu_run s = Some (run_steps n s)"
proof (induction n arbitrary: s)
  case 0
  then show ?case by (simp add: cpu_run.simps)
next
  case (Suc n)
  then show ?case by (cases "stopped s") (simp_all add: cpu_run.simps [of s])
qed

lemma cpu_run_Some:
  assumes "cpu_run s = Some t"
  shows "\<exists>n. t = run_steps n s \<and> stopped t"
proof (rule cpu_run.raw_induct [OF _ assms])
  fix f s t
  assume IH: "\<And>s t. f s = Some t \<Longrightarrow> \<exists>n. t = run_steps n s \<and> stopped t"
    and eq: "(if stopped s then Some s else f (cpu_step s)) = Some t"
  show "\<exists>n. t = run_steps n s \<and> stopped t"
  proof (cases "stopped s")
    case True
    then show ?thesis using eq by (intro exI [of _ 0]) simp
  next
    case False
    then obtain n where "t = run_steps n (cpu_step s)" "stopped t" using eq IH by auto
    then show ?thesis using False by (intro exI [of _ "Suc n"]) simp
  qed
qed

text \<open>The loop returns exactly when some bounded number of iterations reaches a stopped machine
  (HALT executed or the emulator quit), and then it returns the state of that iteration; it
  fails to return exactly when no state it reaches is stopped.\<close>

lemma cpu_run_iff:
  "(cpu_run s = Some t \<longleftrightarrow> (\<exists>n. t = run_steps n s \<and> stopped t)) \<and>
   (cpu_run s = None \<longleftrightarrow> (\<forall>u. \<not> (emu_steps s u \<and> stopped u)))"
proof -
  have ex: "cpu_run s = Some (run_steps n s)" if "stopped (run_steps n s)" for n
    using that by (rule cpu_run_run_steps)
  have "cpu_run s = None \<longleftrightarrow> (\<forall>n. \<not> stopped (run_steps n s))"
    using ex cpu_run_Some [of s] by (metis option.distinct(1) option.exhaust)
  also have "\<dots> \<longleftrightarrow> (\<forall>u. \<not> (emu_steps s u \<and> stopped u))"
    using reaches_run_steps run_steps_reaches by metis
  finally show ?thesis using ex cpu_run_Some [of s t] by auto
qed

subsection \<open>Invariants of the running machine\<close>

context step_rel
begin

lemma R_emu_steps: "emu_steps s t \<Longrightarrow> R s t"
  by (induction rule: rtranclp_induct) (auto simp: emu_step_iff intro: R_refl R_trans R_cpu_step)

end

lemma wf_boot:
  assumes "boot a f blk input = Some s"
  shows "machine_wf s \<and> \<not> stopped s"
proof -
  let ?z = "(cpu_reset zero_machine)\<lparr>stdin_q := input\<rparr>"
  have z: "machine_wf ?z \<and> \<not> stopped ?z"
    by (simp add: cpu_reset_def tlb_flush_all_def wf_defs wired_def zero_machine_def tlb_entry0_def stopped_def)
  have upd: "machine_wf (s\<lparr>blk_file := b\<rparr>) = machine_wf s" "stopped (s\<lparr>blk_file := b\<rparr>) = stopped s"
    "machine_wf (set_reg i v s) = machine_wf s" "stopped (set_reg i v s) = stopped s" for s b i v
    by (simp_all add: wf_defs stopped_def set_reg_def)
  from assms z show ?thesis
    by (auto simp: boot_def Let_def upd load_flat_def host_store_frame load_elf_def
        split: if_splits option.splits dest!: load_segments_frame)
qed

text \<open>C9: In every state the emulator reaches from start-up, for any program, disk image and input, the
  machine is well formed: the translation buffer holds aligned addresses only, the poll divider
  stays below 1000, no unwired interrupt line is pending; and compared with the start, output has
  only been appended, input only been taken from the front, the disk image has not shrunk, and
  neither a halt nor an undefined operation has been undone.\<close>

theorem reachable_wf:
  assumes "boot a f blk input = Some s" "emu_steps s t"
  shows "machine_wf t \<and> progress s t"
  using wf_boot [OF assms(1)] wf.R_emu_steps [OF assms(2)] grows.R_emu_steps [OF assms(2)] by blast

lemma reachable_wf_witness:
  "\<exists>s. boot 0 [0, 0, 0, 0x12] None [] = Some s \<and> machine_wf (cpu_step s) \<and> progress s (cpu_step s)"
proof -
  obtain s where s: "boot 0 [0, 0, 0, 0x12] None [] = Some s" by (simp add: boot_def is_elf_def Let_def)
  have "emu_steps s (cpu_step s)" using wf_boot [OF s] by (auto intro: emu_step.intros)
  from reachable_wf [OF s this] s show ?thesis by blast
qed

end
