(* ===== verification/Semantics.thy ===== *)
theory Semantics
  imports Exec
begin

text \<open>
  What the arithmetic and branch instructions of \<open>emulator.c\<close> compute, as statements about
  integers: multi-word addition and subtraction through the carry flag, the full products, the
  two divisions, the rotates and shifts, and compare-and-branch. \<open>exec_op\<close> selects the case of
  the big switch from the opcode; \<open>join64\<close> reads a register pair as one 64-bit word.
\<close>

subsection \<open>Opcode selection and register pairs\<close>

lemma exec_op:
  "d_op d = 0x00 \<Longrightarrow> exec_instr pc d s = exec_rtype d s"
  "d_op d = 0x01 \<Longrightarrow> exec_instr pc d s = exec_rtype d s"
  "d_op d = 0x28 \<Longrightarrow> exec_instr pc d s = exec_rtype d s"
  "d_op d = 0x2B \<Longrightarrow> exec_instr pc d s = exec_addc d s"
  "d_op d = 0x2C \<Longrightarrow> exec_instr pc d s = exec_subc d s"
  "d_op d = 0x09 \<Longrightarrow> exec_instr pc d s = exec_muldiv d s"
  "d_op d = 0x22 \<Longrightarrow> exec_instr pc d s = exec_muldiv d s"
  "d_op d = 0x23 \<Longrightarrow> exec_instr pc d s = exec_muldiv d s"
  "d_op d = 0x0A \<Longrightarrow> exec_instr pc d s = exec_muldiv d s"
  "d_op d = 0x24 \<Longrightarrow> exec_instr pc d s = exec_muldiv d s"
  "d_op d = 0x25 \<Longrightarrow> exec_instr pc d s = exec_muldiv d s"
  "d_op d = 0x26 \<Longrightarrow> exec_instr pc d s = exec_muldiv d s"
  "d_op d = 0x0D \<Longrightarrow> exec_instr pc d s = exec_control pc d s"
  "d_op d = 0x39 \<Longrightarrow> exec_instr pc d s = exec_rotate d s"
  "d_op d = 0x3A \<Longrightarrow> exec_instr pc d s = exec_rotate d s"
  "d_op d = 0x2F \<Longrightarrow> exec_instr pc d s = exec_shift_reg d s"
  "d_op d = 0x10 \<Longrightarrow> exec_instr pc d s = exec_system d s"
  "d_op d = 0x11 \<Longrightarrow> exec_instr pc d s = exec_system d s"
  "d_op d = 0x3E \<Longrightarrow> exec_instr pc d s = exec_system d s"
  "d_op d = 0x3F \<Longrightarrow> exec_instr pc d s = exec_system d s"
  by (simp_all add: exec_instr_def Let_def word_le_def)

definition join64 :: "u32 \<Rightarrow> u32 \<Rightarrow> u64" where
  "join64 h l = ucast h * 0x100000000 + ucast l"

lemma uint_join64: "uint (join64 h l) = uint h * 4294967296 + uint l"
proof -
  obtain x where x: "uint h = x" "0 \<le> x" "x < 4294967296" by (rule uint_u32_cases)
  obtain y where y: "uint l = y" "0 \<le> y" "y < 4294967296" by (rule uint_u32_cases)
  have "uint (join64 h l) = ((x * 4294967296) mod 18446744073709551616 + y) mod 18446744073709551616"
    by (simp add: join64_def uint_word_ariths uint_ucast_u64 x(1) y(1))
  also have "\<dots> = x * 4294967296 + y"
    using x(2,3) y(2,3) by simp
  finally show ?thesis by (simp add: x(1) y(1))
qed

lemma uint_u64_cases:
  obtains x where "uint (w :: u64) = x" "0 \<le> x" "x < 18446744073709551616"
  using uint_ge_0 [of w] uint_lt2p [of w] by simp

lemma sint_u64: "sint (w :: u64) = uint w - (if 9223372036854775808 \<le> uint w then 18446744073709551616 else 0)"
proof -
  obtain x where x: "uint w = x" "0 \<le> x" "x < 18446744073709551616" by (rule uint_u64_cases)
  have "bit w 63 \<longleftrightarrow> bit (uint w) 63" by (simp add: bit_uint_iff)
  also have "\<dots> \<longleftrightarrow> odd (x div 2 ^ 63)" by (simp add: bit_iff_odd x)
  also have "x div 2 ^ 63 = (if 9223372036854775808 \<le> x then 1 else 0)" using x by auto
  finally have b: "bit w 63 \<longleftrightarrow> 9223372036854775808 \<le> x" by simp
  have "0 \<le> uint w" "uint w < 18446744073709551616" using x by simp_all
  then have "sint w = uint w - (if bit w 63 then 18446744073709551616 else 0)"
    by (simp add: sint_uint signed_take_bit_eq_take_bit_minus bit_uint_iff take_bit_int_eq_self)
  then show ?thesis by (simp add: b x)
qed

lemma uint_add_u64: "uint (a + b :: u64) = uint a + uint b - (if 18446744073709551616 \<le> uint a + uint b then 18446744073709551616 else 0)"
proof -
  obtain x where x: "uint a = x" "0 \<le> x" "x < 18446744073709551616" by (rule uint_u64_cases)
  obtain y where y: "uint b = y" "0 \<le> y" "y < 18446744073709551616" by (rule uint_u64_cases)
  have "uint (a + b) = (x + y) mod 18446744073709551616" by (simp add: uint_word_ariths x(1) y(1))
  also have "\<dots> = x + y - (if 18446744073709551616 \<le> x + y then 18446744073709551616 else 0)"
    by (rule mod_small_add) (use x y in auto)
  finally show ?thesis by (simp add: x(1) y(1))
qed

lemma uint_sub_u64: "uint (a - b :: u64) = uint a - uint b + (if uint a < uint b then 18446744073709551616 else 0)"
proof -
  obtain x where x: "uint a = x" "0 \<le> x" "x < 18446744073709551616" by (rule uint_u64_cases)
  obtain y where y: "uint b = y" "0 \<le> y" "y < 18446744073709551616" by (rule uint_u64_cases)
  have "uint (a - b) = (x - y) mod 18446744073709551616" by (simp add: uint_word_ariths x(1) y(1))
  also have "\<dots> = x - y + (if x < y then 18446744073709551616 else 0)"
    by (rule mod_small_diff) (use x y in auto)
  finally show ?thesis by (simp add: x(1) y(1))
qed

lemma join64_eq_iff: "join64 h l = w \<longleftrightarrow> uint h * 4294967296 + uint l = uint w"
  by (simp only: word_uint_eq_iff uint_join64)

lemma sint_join64: "sint (join64 h l) = sint h * 4294967296 + uint l"
proof -
  obtain x where x: "uint h = x" "0 \<le> x" "x < 4294967296" by (rule uint_u32_cases)
  obtain y where y: "uint l = y" "0 \<le> y" "y < 4294967296" by (rule uint_u32_cases)
  show ?thesis
    unfolding sint_u64 sint_u32 bit31_iff uint_join64 x(1) y(1) using x(2,3) y(2,3) by auto
qed

lemma mod_once:
  assumes "0 \<le> x" "x < 2 * (m :: int)"
  shows "x mod m = x - (if m \<le> x then m else 0)"
proof (cases "m \<le> x")
  case True
  have "x mod m = (x - m) mod m" by simp
  also have "\<dots> = x - m" using assms True by (intro mod_pos_pos_trivial) simp_all
  finally show ?thesis using True by simp
qed (use assms in \<open>simp add: mod_pos_pos_trivial\<close>)

lemma uint_ucast_mod: "uint (ucast (w :: u64) :: u32) = uint w mod 4294967296"
  by (simp add: unsigned_ucast_eq take_bit_eq_mod)

text \<open>Add and subtract with carry: what the flags say about the integers.\<close>

definition carry_in :: "machine \<Rightarrow> int" where
  "carry_in s = (if bit (flags s) 29 then 1 else 0)"

lemma carry_in_cases: "carry_in s = 0 \<or> carry_in s = 1"
  by (simp add: carry_in_def)

lemma exec_addc_eq:
  assumes "a = regs s (d_rs1 d)" "b = regs s (d_rs2 d)" "r = a + b + word_of_int (carry_in s)"
  shows "exec_addc d s = set_reg (d_rd d) r
    (set_nzcv r (4294967296 \<le> uint a + uint b + carry_in s) (sint a + sint b + carry_in s \<noteq> sint r) s)"
proof -
  obtain x where x: "uint a = x" "0 \<le> x" "x < 4294967296" by (rule uint_u32_cases)
  obtain y where y: "uint b = y" "0 \<le> y" "y < 4294967296" by (rule uint_u32_cases)
  define c where "c = carry_in s"
  have c: "c = 0 \<or> c = 1" using carry_in_cases c_def by simp
  let ?cin = "(if flags s AND FLAG_C \<noteq> 0 then 1 else 0 :: u64)"
  let ?sum = "ucast a + ucast b + ?cin :: u64"
  have cin: "uint ?cin = c" by (simp add: c_def carry_in_def and_numeral_bit_eq_0)
  have sum: "uint ?sum = x + y + c"
    unfolding uint_add_u64 uint_ucast_u64 cin x(1) y(1) using x(2,3) y(2,3) c by auto
  have r: "uint r = x + y + c - (if 4294967296 \<le> x + y + c then 4294967296 else 0)"
  proof -
    have "uint (word_of_int c :: u32) = c" using c by auto
    then show ?thesis
      unfolding assms(3) uint_add_u32 c_def [symmetric] x(1) y(1) using x(2,3) y(2,3) c by auto
  qed
  have eq: "ucast ?sum = r"
  proof (rule word_uint_eq_iff [THEN iffD2])
    show "uint (ucast ?sum :: u32) = uint r"
      unfolding r uint_ucast_mod sum using x(2,3) y(2,3) c by (intro mod_once) auto
  qed
  have carry: "(?sum > 0xFFFFFFFF) = (4294967296 \<le> x + y + c)"
    unfolding word_less_def sum by simp linarith
  have ov: "add_overflow a b r = (sint a + sint b + c \<noteq> sint r)"
    unfolding add_overflow_def xor_msb sint_u32 bit31_iff r x(1) y(1)
    using x(2,3) y(2,3) c by auto
  show ?thesis
    unfolding exec_addc_def Let_def assms(1,2) [symmetric] eq carry ov x(1) y(1) c_def ..
qed

lemma exec_subc_eq:
  assumes "a = regs s (d_rs1 d)" "b = regs s (d_rs2 d)" "r = a - b - word_of_int (carry_in s)"
  shows "exec_subc d s = set_reg (d_rd d) r
    (set_nzcv r (uint a < uint b + carry_in s) (sint a - sint b - carry_in s \<noteq> sint r) s)"
proof -
  obtain x where x: "uint a = x" "0 \<le> x" "x < 4294967296" by (rule uint_u32_cases)
  obtain y where y: "uint b = y" "0 \<le> y" "y < 4294967296" by (rule uint_u32_cases)
  define c where "c = carry_in s"
  have c: "c = 0 \<or> c = 1" using carry_in_cases c_def by simp
  let ?bin = "(if flags s AND FLAG_C \<noteq> 0 then 1 else 0 :: u32)"
  have bin: "?bin = word_of_int c" by (simp add: c_def carry_in_def and_numeral_bit_eq_0)
  have uc: "uint (word_of_int c :: u32) = c" using c by auto
  have borrow: "((ucast b + ucast (word_of_int c :: u32) :: u64) > ucast a) = (x < y + c)"
    unfolding word_less_def uint_add_u64 uint_ucast_u64 uc x(1) y(1) using y(2,3) c by auto
  have r: "uint r = x - y - c + (if x < y + c then 4294967296 else 0)"
    unfolding assms(3) uint_sub_u32 c_def [symmetric] uc x(1) y(1) using x(2,3) y(2,3) c by auto
  have ov: "sub_overflow a b r = (sint a - sint b - c \<noteq> sint r)"
    unfolding sub_overflow_def xor_msb sint_u32 bit31_iff r x(1) y(1)
    using x(2,3) y(2,3) c by auto
  have rr: "a - b - word_of_int c = r" by (simp add: assms(3) c_def)
  show ?thesis
    unfolding exec_subc_def Let_def assms(1,2) [symmetric] bin borrow rr ov x(1) y(1) c_def [symmetric] ..
qed

subsection \<open>Multi-word arithmetic\<close>

text \<open>The sum of two register pairs, in terms of the two halves.\<close>

lemma join64_add:
  assumes "c = (if 4294967296 \<le> uint al + uint bl then 1 else 0)" "r = ah + bh + word_of_int c"
    and "A = join64 ah al" "B = join64 bh bl"
  shows "join64 r (al + bl) = A + B"
    "18446744073709551616 \<le> uint A + uint B \<longleftrightarrow> 4294967296 \<le> uint ah + uint bh + c"
    "sint A + sint B \<noteq> sint (A + B) \<longleftrightarrow> sint ah + sint bh + c \<noteq> sint r"
    "sint (A + B) < 0 \<longleftrightarrow> sint r < 0"
proof -
  obtain a where a: "uint al = a" "0 \<le> a" "a < 4294967296" by (rule uint_u32_cases)
  obtain b where b: "uint bl = b" "0 \<le> b" "b < 4294967296" by (rule uint_u32_cases)
  obtain x where x: "uint ah = x" "0 \<le> x" "x < 4294967296" by (rule uint_u32_cases)
  obtain y where y: "uint bh = y" "0 \<le> y" "y < 4294967296" by (rule uint_u32_cases)
  obtain w where w: "uint (al + bl) = w" "0 \<le> w" "w < 4294967296" by (rule uint_u32_cases)
  have c: "c = (if 4294967296 \<le> a + b then 1 else 0)" using assms(1) a(1) b(1) by simp
  have "uint (word_of_int c :: u32) = c" by (simp add: c)
  then have r: "uint r = x + y + c - (if 4294967296 \<le> x + y + c then 4294967296 else 0)"
    unfolding assms(2) uint_add_u32 x(1) y(1) using x(2,3) y(2,3) by (auto simp: c)
  show sum: "join64 r (al + bl) = A + B"
    unfolding join64_eq_iff assms(3,4) uint_add_u64 uint_join64 r uint_add_u32 a(1) b(1) x(1) y(1) c
    using a(2,3) b(2,3) x(2,3) y(2,3) by auto
  show "18446744073709551616 \<le> uint A + uint B \<longleftrightarrow> 4294967296 \<le> uint ah + uint bh + c"
    unfolding assms(3,4) uint_join64 a(1) b(1) x(1) y(1) c using a(2,3) b(2,3) x(2,3) y(2,3) by auto
  have j: "sint (A + B) = sint r * 4294967296 + uint (al + bl)"
    unfolding sum [symmetric] by (rule sint_join64)
  then show "sint (A + B) < 0 \<longleftrightarrow> sint r < 0" unfolding j w(1) using w(2,3) by linarith
  have "uint (al + bl) = a + b - 4294967296 * c" unfolding uint_add_u32 a(1) b(1) c by simp
  moreover have "sint A + sint B = (sint ah + sint bh) * 4294967296 + (a + b)"
    by (simp add: assms(3,4) sint_join64 a(1) b(1))
  ultimately have "sint A + sint B - sint (A + B) = (sint ah + sint bh + c - sint r) * 4294967296"
    using j by (simp add: algebra_simps)
  then show "sint A + sint B \<noteq> sint (A + B) \<longleftrightarrow> sint ah + sint bh + c \<noteq> sint r" by auto
qed

lemma join64_sub:
  assumes "c = (if uint al < uint bl then 1 else 0)" "r = ah - bh - word_of_int c"
    and "A = join64 ah al" "B = join64 bh bl"
  shows "join64 r (al - bl) = A - B" "A < B \<longleftrightarrow> uint ah < uint bh + c"
    "sint A - sint B \<noteq> sint (A - B) \<longleftrightarrow> sint ah - sint bh - c \<noteq> sint r"
proof -
  obtain a where a: "uint al = a" "0 \<le> a" "a < 4294967296" by (rule uint_u32_cases)
  obtain b where b: "uint bl = b" "0 \<le> b" "b < 4294967296" by (rule uint_u32_cases)
  obtain x where x: "uint ah = x" "0 \<le> x" "x < 4294967296" by (rule uint_u32_cases)
  obtain y where y: "uint bh = y" "0 \<le> y" "y < 4294967296" by (rule uint_u32_cases)
  have c: "c = (if a < b then 1 else 0)" using assms(1) a(1) b(1) by simp
  have uc: "uint (word_of_int c :: u32) = c" by (simp add: c)
  have r: "uint r = x - y - c + (if x < y + c then 4294967296 else 0)"
    unfolding assms(2) uint_sub_u32 uc x(1) y(1) using x(2,3) y(2,3) by (auto simp: c)
  show diff: "join64 r (al - bl) = A - B"
    unfolding join64_eq_iff assms(3,4) uint_sub_u64 uint_join64 r uint_sub_u32 a(1) b(1) x(1) y(1) c
    using a(2,3) b(2,3) x(2,3) y(2,3) by auto
  show "A < B \<longleftrightarrow> uint ah < uint bh + c"
    unfolding assms(3,4) word_less_def uint_join64 a(1) b(1) x(1) y(1) c using a(2,3) b(2,3) x(2,3) y(2,3) by auto
  have "sint (A - B) = sint r * 4294967296 + uint (al - bl)"
    unfolding diff [symmetric] by (rule sint_join64)
  moreover have "uint (al - bl) = a - b + 4294967296 * c" unfolding uint_sub_u32 a(1) b(1) c by simp
  moreover have "sint A - sint B = (sint ah - sint bh) * 4294967296 + (a - b)"
    by (simp add: assms(3,4) sint_join64 a(1) b(1))
  ultimately have "sint A - sint B - sint (A - B) = (sint ah - sint bh - c - sint r) * 4294967296"
    by (simp add: algebra_simps)
  then show "sint A - sint B \<noteq> sint (A - B) \<longleftrightarrow> sint ah - sint bh - c \<noteq> sint r" by auto
qed

text \<open>C19: ADD of the low words followed by ADDC of the high words computes the 64-bit sum of two register
  pairs, and leaves the 64-bit carry in C, the 64-bit signed overflow in V and the sign in N; the
  instruction pair may use any registers as long as the low result does not overwrite an operand
  of the second instruction.\<close>

theorem add_addc_64:
  assumes "d_op lo = 0x00" "d_op hi = 0x2B" "d_rd lo \<notin> {d_rs1 hi, d_rs2 hi, d_rd hi}"
    and "A = join64 (regs s (d_rs1 hi)) (regs s (d_rs1 lo))"
    and "B = join64 (regs s (d_rs2 hi)) (regs s (d_rs2 lo))"
    and "t = exec_instr pc' hi (exec_instr pc lo s)"
  shows "join64 (regs t (d_rd hi)) (regs t (d_rd lo)) = A + B \<and>
    (bit (flags t) 29 \<longleftrightarrow> 18446744073709551616 \<le> uint A + uint B) \<and>
    (bit (flags t) 28 \<longleftrightarrow> sint A + sint B \<noteq> sint (A + B)) \<and>
    (bit (flags t) 31 \<longleftrightarrow> sint (A + B) < 0)"
proof -
  define al bl ah bh where "al = regs s (d_rs1 lo)" and "bl = regs s (d_rs2 lo)"
    and "ah = regs s (d_rs1 hi)" and "bh = regs s (d_rs2 hi)"
  let ?s1 = "exec_instr pc lo s"
  have s1: "?s1 = set_reg (d_rd lo) (al + bl) (update_flags_add al bl (al + bl) s)"
    by (simp add: exec_op(1) [OF assms(1)] exec_rtype_def assms(1) al_def bl_def Let_def)
  have cin: "carry_in ?s1 = (if 4294967296 \<le> uint al + uint bl then 1 else 0)"
    by (simp add: s1 carry_in_def set_reg_def update_flags_add_eq)
  have rh: "ah = regs ?s1 (d_rs1 hi)" "bh = regs ?s1 (d_rs2 hi)"
    using assms(3) by (auto simp: s1 set_reg_def update_flags_add_def set_nzcv_def Let_def ah_def bh_def)
  define r where "r = ah + bh + word_of_int (carry_in ?s1)"
  have t: "t = set_reg (d_rd hi) r
    (set_nzcv r (4294967296 \<le> uint ah + uint bh + carry_in ?s1) (sint ah + sint bh + carry_in ?s1 \<noteq> sint r) ?s1)"
    unfolding assms(6) exec_op(4) [OF assms(2)] by (rule exec_addc_eq [OF rh r_def])
  have regs: "regs t (d_rd hi) = r" "regs t (d_rd lo) = al + bl"
    using assms(3) by (auto simp: t s1 set_reg_def set_nzcv_def)
  note halves = join64_add [OF cin r_def, OF assms(4,5) [folded ah_def al_def bh_def bl_def]]
  have "flags t = flags (set_nzcv r (4294967296 \<le> uint ah + uint bh + carry_in ?s1) (sint ah + sint bh + carry_in ?s1 \<noteq> sint r) ?s1)"
    by (simp add: t set_reg_def)
  then show ?thesis
    by (simp only: regs halves flags_set_nzcv_bits msb_u32_sint [of r] simp_thms)
qed

lemma add_addc_64_witness:
  "let t = exec_instr 4 (decode 0x2B423000) (exec_instr 0 (decode 0x00501000)
      (zero_machine\<lparr>regs := (\<lambda>i. if i = 0 then 0xFFFFFFFF else if i = 1 then 2 else if i = 2 then 7 else 5)\<rparr>))
   in join64 (regs t 4) (regs t 5) = join64 7 0xFFFFFFFF + join64 5 2"
  unfolding Let_def
  using add_addc_64 [of "decode 0x00501000" "decode 0x2B423000" _
    "zero_machine\<lparr>regs := (\<lambda>i. if i = 0 then 0xFFFFFFFF else if i = 1 then 2 else if i = 2 then 7 else 5)\<rparr>" _ _ 4 0, OF _ _ _ refl refl refl]
  by (simp add: decode_def Let_def)

text \<open>C20: SUB of the low words followed by SUBC of the high words computes the 64-bit difference of two
  register pairs, with the 64-bit borrow in C and the 64-bit signed overflow in V.\<close>

theorem sub_subc_64:
  assumes "d_op lo = 0x01" "d_op hi = 0x2C" "d_rd lo \<notin> {d_rs1 hi, d_rs2 hi, d_rd hi}"
    and "A = join64 (regs s (d_rs1 hi)) (regs s (d_rs1 lo))"
    and "B = join64 (regs s (d_rs2 hi)) (regs s (d_rs2 lo))"
    and "t = exec_instr pc' hi (exec_instr pc lo s)"
  shows "join64 (regs t (d_rd hi)) (regs t (d_rd lo)) = A - B \<and>
    (bit (flags t) 29 \<longleftrightarrow> A < B) \<and> (bit (flags t) 28 \<longleftrightarrow> sint A - sint B \<noteq> sint (A - B))"
proof -
  define al bl ah bh where "al = regs s (d_rs1 lo)" and "bl = regs s (d_rs2 lo)"
    and "ah = regs s (d_rs1 hi)" and "bh = regs s (d_rs2 hi)"
  let ?s1 = "exec_instr pc lo s"
  have s1: "?s1 = set_reg (d_rd lo) (al - bl) (update_flags_sub al bl (al - bl) s)"
    by (simp add: exec_op(2) [OF assms(1)] exec_rtype_def assms(1) al_def bl_def Let_def)
  have cin: "carry_in ?s1 = (if uint al < uint bl then 1 else 0)"
    by (simp add: s1 carry_in_def set_reg_def update_flags_sub_eq word_less_def)
  have rh: "ah = regs ?s1 (d_rs1 hi)" "bh = regs ?s1 (d_rs2 hi)"
    using assms(3) by (auto simp: s1 set_reg_def update_flags_sub_def set_nzcv_def Let_def ah_def bh_def)
  define r where "r = ah - bh - word_of_int (carry_in ?s1)"
  have t: "t = set_reg (d_rd hi) r
    (set_nzcv r (uint ah < uint bh + carry_in ?s1) (sint ah - sint bh - carry_in ?s1 \<noteq> sint r) ?s1)"
    unfolding assms(6) exec_op(5) [OF assms(2)] by (rule exec_subc_eq [OF rh r_def])
  have regs: "regs t (d_rd hi) = r" "regs t (d_rd lo) = al - bl"
    using assms(3) by (auto simp: t s1 set_reg_def set_nzcv_def)
  note halves = join64_sub [OF cin r_def, OF assms(4,5) [folded ah_def al_def bh_def bl_def]]
  have "flags t = flags (set_nzcv r (uint ah < uint bh + carry_in ?s1) (sint ah - sint bh - carry_in ?s1 \<noteq> sint r) ?s1)"
    by (simp add: t set_reg_def)
  then show ?thesis
    by (simp only: regs halves flags_set_nzcv_bits simp_thms)
qed

lemma sub_subc_64_witness:
  "let t = exec_instr 4 (decode 0x2C423000) (exec_instr 0 (decode 0x01501000)
      (zero_machine\<lparr>regs := (\<lambda>i. if i = 0 then 1 else if i = 1 then 2 else if i = 2 then 7 else 5)\<rparr>))
   in join64 (regs t 4) (regs t 5) = join64 7 1 - join64 5 2"
  unfolding Let_def
  using sub_subc_64 [of "decode 0x01501000" "decode 0x2C423000" _
    "zero_machine\<lparr>regs := (\<lambda>i. if i = 0 then 1 else if i = 1 then 2 else if i = 2 then 7 else 5)\<rparr>" _ _ 4 0, OF _ _ _ refl refl refl]
  by (simp add: decode_def Let_def)

subsection \<open>Multiplication and division\<close>

text \<open>The destination register after executing the opcode with the operands of \<open>d\<close>.\<close>

definition alu_out :: "u8 \<Rightarrow> decoded \<Rightarrow> machine \<Rightarrow> u32" where
  "alu_out op d s = regs (exec_instr 0 (d\<lparr>d_op := op\<rparr>) s) (d_rd d)"

lemma alu_out_muldiv:
  "alu_out 0x09 d s = ucast ((ucast (regs s (d_rs1 d)) :: u64) * ucast (regs s (d_rs2 d)))"
  "alu_out 0x22 d s = ucast (signed_drop_bit 32 ((scast (regs s (d_rs1 d)) :: u64) * scast (regs s (d_rs2 d))))"
  "alu_out 0x23 d s = ucast (drop_bit 32 ((ucast (regs s (d_rs1 d)) :: u64) * ucast (regs s (d_rs2 d))))"
  by (simp_all add: alu_out_def exec_op exec_muldiv_def muldiv_result_def set_reg_def Let_def)

lemma join64_split: "join64 (ucast (drop_bit 32 p)) (ucast p) = p"
proof -
  obtain x where x: "uint p = x" "0 \<le> x" "x < 18446744073709551616" by (rule uint_u64_cases)
  have "uint (drop_bit 32 p) = x div 4294967296" by (simp add: drop_bit_eq_div uint_div x(1))
  moreover have "x div 4294967296 < 4294967296" "0 \<le> x div 4294967296" using x(2,3) by auto
  ultimately show ?thesis
    by (simp add: join64_eq_iff uint_ucast_mod x(1) mod_pos_pos_trivial)
qed

lemma ucast_signed_drop: "(ucast (signed_drop_bit 32 (p :: u64)) :: u32) = ucast (drop_bit 32 p)"
  by (rule bit_word_eqI) (auto simp: bit_simps)

lemma ucast_u64_u32 [simp]: "(ucast (ucast (a :: u32) :: u64) :: u32) = a" "(ucast (scast (a :: u32) :: u64) :: u32) = a"
  by (rule bit_word_eqI; auto simp: bit_simps)+

lemma ucast_mult: "(ucast (a * b :: u64) :: u32) = ucast a * ucast b"
  by (simp add: word_uint_eq_iff uint_ucast_mod uint_word_ariths mod_mult_eq mod_mod_cancel)

lemma sint_u32_range: "- 2147483648 \<le> sint (a :: u32)" "sint (a :: u32) < 2147483648"
  using sint_ge [of a] sint_lt [of a] by simp_all

lemma abs_sint_u32: "\<bar>sint (a :: u32)\<bar> \<le> 2147483648"
  using sint_u32_range [of a] by (simp add: abs_le_iff)

lemma abs_less_63: "\<bar>p\<bar> \<le> 2147483648 * 2147483648 \<Longrightarrow> - (2 ^ 63) \<le> p \<and> p < (2 :: int) ^ 63"
  unfolding abs_le_iff by simp

lemma sint_scast_mult: "sint ((scast (a :: u32) :: u64) * scast (b :: u32)) = sint a * sint b"
proof -
  have "\<bar>sint a * sint b\<bar> \<le> 2147483648 * 2147483648"
    unfolding abs_mult by (rule mult_mono) (simp_all add: abs_sint_u32)
  note r = abs_less_63 [OF this]
  have "(scast a :: u64) * scast b = word_of_int (sint a * sint b)"
    unfolding scast_eq by simp
  then have "sint ((scast a :: u64) * scast b) = sint (word_of_int (sint a * sint b) :: u64)"
    by (rule arg_cong)
  also have "\<dots> = signed_take_bit 63 (sint a * sint b)"
    unfolding signed_of_int by simp
  also have "\<dots> = sint a * sint b"
    using r by (intro signed_take_bit_int_eq_self) blast+
  finally show ?thesis .
qed

text \<open>MULH and MUL together are the exact 64-bit signed product of the operands, MULHU and MUL the
  exact 64-bit unsigned product.\<close>

theorem mul_full_product:
  "sint (join64 (alu_out 0x22 d s) (alu_out 0x09 d s)) = sint (regs s (d_rs1 d)) * sint (regs s (d_rs2 d)) \<and>
   uint (join64 (alu_out 0x23 d s) (alu_out 0x09 d s)) = uint (regs s (d_rs1 d)) * uint (regs s (d_rs2 d))"
proof -
  let ?a = "regs s (d_rs1 d)" and ?b = "regs s (d_rs2 d)"
  have low: "alu_out 0x09 d s = ucast ((scast ?a :: u64) * scast ?b)"
    by (simp add: alu_out_muldiv ucast_mult)
  obtain x where x: "uint ?a = x" "0 \<le> x" "x < 4294967296" by (rule uint_u32_cases)
  obtain y where y: "uint ?b = y" "0 \<le> y" "y < 4294967296" by (rule uint_u32_cases)
  have "x * y \<le> 4294967295 * 4294967295" by (rule mult_mono) (use x(2,3) y(2,3) in auto)
  then have "uint ((ucast ?a :: u64) * ucast ?b) = x * y"
    using x(2) y(2) by (simp add: uint_word_ariths uint_ucast_u64 x(1) y(1) mod_pos_pos_trivial)
  then have "uint (join64 (alu_out 0x23 d s) (alu_out 0x09 d s)) = uint ?a * uint ?b"
    by (simp add: alu_out_muldiv(1,3) join64_split x(1) y(1) del: ucast_u64_u32)
  moreover have "sint (join64 (alu_out 0x22 d s) (alu_out 0x09 d s)) = sint ?a * sint ?b"
    unfolding low alu_out_muldiv(2) ucast_signed_drop join64_split by (rule sint_scast_mult)
  ultimately show ?thesis by blast
qed

lemma sdiv_range:
  assumes "- 2147483648 \<le> A" "A < (2147483648 :: int)" "\<not> (A = - 2147483648 \<and> B = - 1)"
  shows "- 2147483648 \<le> A sdiv B" "A sdiv B < 2147483648"
proof -
  have r: "- \<bar>A\<bar> \<le> A sdiv B" "A sdiv B \<le> \<bar>A\<bar>" using sdiv_int_range [of A B] by auto
  then show "- 2147483648 \<le> A sdiv B" using assms by linarith
  show "A sdiv B < 2147483648"
  proof (cases "A = - 2147483648")
    case True
    then have "A sdiv B \<noteq> - A" using int_sdiv_negated_is_minus1 [of A B] assms(3) by simp
    then show ?thesis using r True by simp
  qed (use r assms in linarith)
qed

lemma sint_word_of_int:
  "- 2147483648 \<le> k \<Longrightarrow> k < 2147483648 \<Longrightarrow> sint (word_of_int k :: u32) = k"
  by (simp add: signed_of_int signed_take_bit_int_eq_self)

lemma alu_out_div:
  assumes "regs s (d_rs2 d) \<noteq> 0"
  shows "alu_out 0x0A d s = word_of_int (sint (regs s (d_rs1 d)) sdiv sint (regs s (d_rs2 d)))"
    "alu_out 0x25 d s = word_of_int (sint (regs s (d_rs1 d)) smod sint (regs s (d_rs2 d)))"
    "alu_out 0x24 d s = regs s (d_rs1 d) div regs s (d_rs2 d)"
    "alu_out 0x26 d s = regs s (d_rs1 d) mod regs s (d_rs2 d)"
  using assms
  by (simp_all add: alu_out_def exec_op exec_muldiv_def muldiv_result_def set_reg_def Let_def)

lemma alu_out_signed_div:
  assumes b: "regs s (d_rs2 d) \<noteq> 0" and ov: "\<not> (regs s (d_rs1 d) = 0x80000000 \<and> regs s (d_rs2 d) = 0xFFFFFFFF)"
  shows "sint (regs s (d_rs2 d)) \<noteq> 0"
    "sint (alu_out 0x0A d s) = sint (regs s (d_rs1 d)) sdiv sint (regs s (d_rs2 d))"
    "sint (alu_out 0x25 d s) = sint (regs s (d_rs1 d)) smod sint (regs s (d_rs2 d))"
proof -
  define A B where "A = sint (regs s (d_rs1 d))" and "B = sint (regs s (d_rs2 d))"
  have B0: "B \<noteq> 0" using b word_eq_iff_signed [of "regs s (d_rs2 d)" 0] by (simp add: B_def)
  then show "sint (regs s (d_rs2 d)) \<noteq> 0" by (simp add: B_def)
  have rA: "- 2147483648 \<le> A" "A < 2147483648" and rB: "- 2147483648 \<le> B" "B < 2147483648"
    by (simp_all add: A_def B_def sint_u32_range)
  have "A = - 2147483648 \<Longrightarrow> regs s (d_rs1 d) = 0x80000000" "B = - 1 \<Longrightarrow> regs s (d_rs2 d) = 0xFFFFFFFF"
    by (rule word_eq_iff_signed [THEN iffD2], simp add: A_def B_def)+
  then have nov: "\<not> (A = - 2147483648 \<and> B = - 1)" using ov by blast
  show "sint (alu_out 0x0A d s) = sint (regs s (d_rs1 d)) sdiv sint (regs s (d_rs2 d))"
    using sint_word_of_int [OF sdiv_range [OF rA nov]] by (simp add: alu_out_div [OF b] A_def B_def)
  have "\<bar>A smod B\<bar> < \<bar>B\<bar>" using smod_int_range [OF B0, of A] by auto
  then show "sint (alu_out 0x25 d s) = sint (regs s (d_rs1 d)) smod sint (regs s (d_rs2 d))"
    using rB by (simp add: alu_out_div [OF b] A_def B_def sint_word_of_int)
qed

lemma sgn_smod: "(B :: int) \<noteq> 0 \<Longrightarrow> A smod B \<noteq> 0 \<Longrightarrow> sgn (A smod B) = sgn A"
proof -
  assume B: "B \<noteq> 0" and m: "A smod B \<noteq> 0"
  have e: "A smod B = sgn A * (\<bar>A\<bar> mod \<bar>B\<bar>)" by (rule smod_int_alt_def)
  have "0 \<le> \<bar>A\<bar> mod \<bar>B\<bar>" using B by simp
  moreover have "\<bar>A\<bar> mod \<bar>B\<bar> \<noteq> 0" using m e by auto
  ultimately have "0 < \<bar>A\<bar> mod \<bar>B\<bar>" by linarith
  then show ?thesis unfolding e sgn_mult by simp
qed

text \<open>C21: DIV and MOD are truncated signed division of the operands and DIVU and MODU unsigned
  division: quotient and remainder recombine to the dividend, the remainder is smaller than the
  divisor and takes the dividend's sign. A zero divisor raises exception 4 for all four
  instructions, and the one signed overflow, 0x80000000 by -1, is the only undefined case.\<close>

theorem div_mod_correct:
  defines "a \<equiv> \<lambda>d s. regs s (d_rs1 d)" and "b \<equiv> \<lambda>d s. regs s (d_rs2 d)"
  shows "(b d s = 0 \<longrightarrow> (\<forall>op \<in> {0x0A, 0x24, 0x25, 0x26}. exec_instr pc (d\<lparr>d_op := op\<rparr>) s = raise_exception 4 s)) \<and>
    (b d s \<noteq> 0 \<longrightarrow>
      uint (a d s) = uint (alu_out 0x24 d s) * uint (b d s) + uint (alu_out 0x26 d s) \<and>
      uint (alu_out 0x26 d s) < uint (b d s)) \<and>
    (b d s \<noteq> 0 \<longrightarrow> (sovf (exec_instr pc (d\<lparr>d_op := 0x0A\<rparr>) s) \<longleftrightarrow> sovf s \<or> a d s = 0x80000000 \<and> b d s = 0xFFFFFFFF)) \<and>
    (b d s \<noteq> 0 \<and> \<not> (a d s = 0x80000000 \<and> b d s = 0xFFFFFFFF) \<longrightarrow>
      sint (a d s) = sint (alu_out 0x0A d s) * sint (b d s) + sint (alu_out 0x25 d s) \<and>
      \<bar>sint (alu_out 0x25 d s)\<bar> < \<bar>sint (b d s)\<bar> \<and>
      (sint (alu_out 0x25 d s) \<noteq> 0 \<longrightarrow> sgn (sint (alu_out 0x25 d s)) = sgn (sint (a d s))))"
proof (intro conjI impI)
  assume "b d s = 0"
  then show "\<forall>op \<in> {0x0A, 0x24, 0x25, 0x26}. exec_instr pc (d\<lparr>d_op := op\<rparr>) s = raise_exception 4 s"
    by (simp add: exec_op exec_muldiv_def Let_def b_def)
next
  assume b: "b d s \<noteq> 0"
  then have b': "regs s (d_rs2 d) \<noteq> 0" by (simp add: b_def)
  show "sovf (exec_instr pc (d\<lparr>d_op := 0x0A\<rparr>) s) \<longleftrightarrow> sovf s \<or> a d s = 0x80000000 \<and> b d s = 0xFFFFFFFF"
    using b' by (simp add: exec_op exec_muldiv_def Let_def muldiv_result_def set_reg_def update_flags_nz_def
        signed_ub_def a_def b_def)
  have "0 < uint (b d s)" using b by (simp add: word_neq_0_conv [symmetric] uint_0_iff order.strict_iff_order)
  then show "uint (a d s) = uint (alu_out 0x24 d s) * uint (b d s) + uint (alu_out 0x26 d s)"
    "uint (alu_out 0x26 d s) < uint (b d s)"
    by (simp_all add: alu_out_div [OF b'] a_def b_def uint_div uint_mod)
next
  assume "b d s \<noteq> 0 \<and> \<not> (a d s = 0x80000000 \<and> b d s = 0xFFFFFFFF)"
  then have "regs s (d_rs2 d) \<noteq> 0" "\<not> (regs s (d_rs1 d) = 0x80000000 \<and> regs s (d_rs2 d) = 0xFFFFFFFF)"
    by (simp_all add: a_def b_def)
  note sd = alu_out_signed_div [OF this]
  show "sint (a d s) = sint (alu_out 0x0A d s) * sint (b d s) + sint (alu_out 0x25 d s)"
    unfolding sd(2,3) a_def b_def by (rule sdiv_mult_smod_eq [symmetric])
  show "\<bar>sint (alu_out 0x25 d s)\<bar> < \<bar>sint (b d s)\<bar>"
    using smod_int_range [OF sd(1), of "sint (regs s (d_rs1 d))"] by (auto simp: sd(3) b_def)
  show "sgn (sint (alu_out 0x25 d s)) = sgn (sint (a d s))" if "sint (alu_out 0x25 d s) \<noteq> 0"
    using that sgn_smod [OF sd(1)] by (simp add: sd(3) a_def)
qed

lemma div_mod_correct_witness:
  "let s = zero_machine\<lparr>regs := (\<lambda>i. if i = 1 then -7 else 2)\<rparr>; d = decode 0x0A312000
   in (-7 :: int) = sint (alu_out 0x0A d s) * 2 + sint (alu_out 0x25 d s) \<and> \<bar>sint (alu_out 0x25 d s)\<bar> < 2"
  unfolding Let_def
  using div_mod_correct [of "zero_machine\<lparr>regs := (\<lambda>i. if i = 1 then -7 else 2)\<rparr>" "decode 0x0A312000" 0]
  by (simp add: decode_def Let_def)

subsection \<open>Rotates and branches\<close>

lemma rot_index:
  "sh < 32 \<Longrightarrow> n < 32 \<Longrightarrow> (n + 32 - sh) mod 32 = (if sh \<le> n then n - sh else 32 + n - sh)"
  "sh < 32 \<Longrightarrow> n < 32 \<Longrightarrow> (n + sh) mod 32 = (if sh + n < 32 then sh + n else n + sh - 32)"
  for n sh :: nat
  by (auto simp: mod_if)

lemma bit_u32_less: "bit (x :: u32) n \<Longrightarrow> n < 32"
  by (drule bit_imp_le_length) simp

lemma rol_eq: "sh < 32 \<Longrightarrow> rol sh x = word_rotl sh x"
proof (rule bit_word_eqI)
  fix n
  assume "sh < 32" "n < LENGTH(32)"
  then show "bit (rol sh x) n = bit (word_rotl sh x) n"
    using rot_index(1) [of sh n] bit_u32_less [of x "32 + n - sh"] by (auto simp: rol_def bit_simps)
qed

lemma ror_eq: "sh < 32 \<Longrightarrow> ror sh x = word_rotr sh x"
proof (rule bit_word_eqI)
  fix n
  assume "sh < 32" "n < LENGTH(32)"
  then show "bit (ror sh x) n = bit (word_rotr sh x) n"
    using rot_index(2) [of sh n] bit_u32_less [of x "sh + n"] by (auto simp: ror_def bit_simps)
qed

lemma low5_eq: "low5 x = unat x mod 32"
proof -
  have "(0x1F :: u32) = mask 5" by (simp add: mask_eq_exp_minus_1)
  then have "x AND 0x1F = take_bit 5 x" by (simp only: take_bit_eq_mask)
  then show ?thesis by (simp add: low5_def take_bit_eq_mod unat_mod)
qed

lemma low5_less: "low5 x < 32"
  by (simp add: low5_eq)

lemma sint_asr: "sint (asr n x) = sint x div 2 ^ n"
  by (simp add: asr_def sint_signed_drop_bit_eq drop_bit_eq_div)

text \<open>C27: The variable shifts and rotates work modulo 32 as architecture.md says: ROLR and RORR are the
  32-bit rotations by the low five bits of the count register (a count of 0 or 32 included,
  where the shift of the C expression would be undefined), ASRR divides the signed value by the
  power of two rounding down, and all of them clear C and V and set N and Z from the result.\<close>

theorem shift_rotate_correct:
  defines "n \<equiv> \<lambda>d s. unat (regs s (d_rs2 d)) mod 32"
  shows "alu_out 0x39 d s = word_rotl (n d s) (regs s (d_rs1 d)) \<and>
    alu_out 0x3A d s = word_rotr (n d s) (regs s (d_rs1 d)) \<and>
    sint (alu_out 0x2F d s) = sint (regs s (d_rs1 d)) div 2 ^ n d s \<and>
    (\<forall>op \<in> {0x39, 0x3A, 0x2F}. let f = flags (exec_instr pc (d\<lparr>d_op := op\<rparr>) s) in
       \<not> bit f 29 \<and> \<not> bit f 28 \<and> (bit f 30 \<longleftrightarrow> alu_out op d s = 0) \<and> (bit f 31 \<longleftrightarrow> bit (alu_out op d s) 31))"
proof -
  have out: "alu_out 0x39 d s = rol (low5 (regs s (d_rs2 d))) (regs s (d_rs1 d))"
    "alu_out 0x3A d s = ror (low5 (regs s (d_rs2 d))) (regs s (d_rs1 d))"
    "alu_out 0x2F d s = asr (low5 (regs s (d_rs2 d))) (regs s (d_rs1 d))"
    by (simp_all add: alu_out_def exec_op exec_rotate_def exec_shift_reg_def logic_result_def set_reg_def Let_def)
  have fl: "flags (exec_instr pc (d\<lparr>d_op := op\<rparr>) s) = flags (clear_cv (update_flags_nz (alu_out op d s) s))"
    if "op \<in> {0x39, 0x3A, 0x2F}" for op
    using that by (auto simp: out) (simp_all add: exec_op exec_rotate_def exec_shift_reg_def logic_result_def set_reg_def Let_def)
  show ?thesis
    by (simp add: fl Let_def del: insert_iff)
      (simp add: out rol_eq ror_eq sint_asr n_def low5_eq)
qed

lemma shift_rotate_correct_witness:
  "\<not> bit (flags (exec_instr 0 ((decode 0x39312000)\<lparr>d_op := 0x39\<rparr>) (zero_machine\<lparr>flags := 0xF0000000\<rparr>))) 29"
  using shift_rotate_correct [of "decode 0x39312000" "zero_machine\<lparr>flags := 0xF0000000\<rparr>" 0]
  by (simp add: Let_def)

text \<open>C10: Compare and branch: after CMP of two registers, a conditional branch is taken exactly when the
  relation that architecture.md gives for its condition code holds between the two values, signed
  for BLT, BGE, BGT and BLE, unsigned for BLTU, BGEU, BGTU and BLEU; reserved condition codes
  raise the illegal-instruction exception.\<close>

theorem cmp_branch:
  assumes "d_op c = 0x28" "d_op b = 0x0D"
  defines "t \<equiv> \<lambda>pc s. exec_instr pc c s"
  shows "exec_instr pc' b (t pc s) =
    (case cond_relation (d_rd b) (regs s (d_rs1 c)) (regs s (d_rs2 c)) of
       None \<Rightarrow> raise_exception 0 (t pc s)
     | Some taken \<Rightarrow> if taken then set_reg PC (pc' + d_soff b) (t pc s) else t pc s)"
proof -
  have t: "t pc s = update_flags_sub (regs s (d_rs1 c)) (regs s (d_rs2 c)) (regs s (d_rs1 c) - regs s (d_rs2 c)) s"
    by (simp add: t_def exec_op(3) [OF assms(1)] exec_rtype_def assms(1) Let_def)
  show ?thesis
    unfolding exec_op(13) [OF assms(2)] exec_control_def assms(2) t branch_after_sub by simp
qed

lemma cmp_branch_witness:
  "regs (exec_instr 0x44 (decode 0x0D200010) (exec_instr 0x40 (decode 0x28012000)
     (zero_machine\<lparr>regs := (\<lambda>i. if i = 1 then 0xFFFFFFFE else 1)\<rparr>))) PC = 0x54"
  by (subst cmp_branch) (simp_all add: decode_def Let_def cond_relation_def set_reg_def)

end
