(* ===== verification/Traps.thy ===== *)
theory Traps
  imports Run Semantics
begin

text \<open>
  Traps and privilege in \<open>emulator.c\<close>: what an interrupt or a system call saves and the return
  instructions restore, what user-mode code can and cannot reach, what a faulting load does to
  its destination register, and what changing SATP does to translation.
\<close>

subsection \<open>Interrupts and returns\<close>

lemma interrupt_taken:
  assumes "status s AND 2 \<noteq> 0" "ic_pending s AND ic_mask s \<noteq> 0"
  shows "interrupt_check s = (raise_exception 6 (s\<lparr>faulting_pc := regs s PC\<rparr>))\<lparr>faulting_pc := faulting_pc s\<rparr>"
  using assms by (simp add: interrupt_check_def)

text \<open>C13: An interrupt followed by KRET is invisible to the interrupted code: whatever address the handler
  runs at, as long as it leaves EPC, EFLAGS, ESTATUS, memory and the other registers as it found
  them, KRET resumes with every register (the program counter included), the flags, the status
  word and memory exactly as before the interrupt, and the loop does not take another interrupt
  in that same step.\<close>

theorem interrupt_kret_roundtrip:
  assumes "status s AND 2 \<noteq> 0" "ic_pending s AND ic_mask s \<noteq> 0" "d_op k = 0x3F"
    and "h = set_reg PC x (interrupt_check s)"
  shows "regs (exec_instr pc k h) = regs s \<and> flags (exec_instr pc k h) = flags s \<and>
    status (exec_instr pc k h) = status s \<and> mem (exec_instr pc k h) = mem s \<and> skips_irq k h"
proof -
  have sup: "supervisor h" by (simp add: assms(4) interrupt_taken [OF assms(1,2)] set_reg_def supervisor_def)
  then show ?thesis
    by (simp add: exec_op(20) [OF assms(3)] exec_system_def assms(3) k_ret_def skips_irq_def)
      (simp add: assms(4) interrupt_taken [OF assms(1,2)] set_reg_def Let_def)
qed

lemma interrupt_kret_roundtrip_witness:
  "regs (exec_instr 8 (decode 0x3F000000) (set_reg PC 0x100 (interrupt_check
     (zero_machine\<lparr>status := 2, ic_pending := 1, ic_mask := 1, regs := (\<lambda>i. 0x44)\<rparr>)))) PC = 0x44"
  by (subst interrupt_kret_roundtrip [THEN conjunct1, OF _ _ _ refl]) (simp_all add: decode_def Let_def)

text \<open>C34: SYSCALL enters the kernel in supervisor mode with interrupts off at the address in vector
  entry 3, and SYSRET returns to the instruction after the SYSCALL with the registers and flags
  of the caller, in user mode with the caller's interrupt enable.\<close>

theorem syscall_sysret_roundtrip:
  assumes "d_op c = 0x10" "d_op r = 0x11" "k = exec_instr pc c s" "u = exec_instr pc' r (set_reg PC x k)"
  shows "status k = 1 \<and> cause k = 3 \<and> regs k PC = handler 3 s \<and>
    regs u = regs s \<and> flags u = flags s \<and> mem u = mem s \<and> status u = status s AND NOT 1"
proof -
  have k: "k = sys_call s" by (simp add: assms(3) exec_op(17) [OF assms(1)] exec_system_def assms(1))
  have hv: "handler 3 (s\<lparr>estatus := a, epc := b, eflags := c, cause := d, status := e\<rparr>) = handler 3 s" for a b c d e
    by (simp add: handler_def Let_def)
  have "regs k = (regs s)(PC := handler 3 s)" "estatus k = status s" "epc k = regs s PC" "eflags k = flags s"
    "cause k = 3" "status k = 1" "mem k = mem s"
    by (simp_all add: k sys_call_def vector_pc_def set_reg_def touch_def handler_def Let_def)
  moreover have "u = sys_ret (set_reg PC x k)"
    by (simp add: assms(4) exec_op(18) [OF assms(2)] exec_system_def assms(2))
  ultimately show ?thesis by (simp add: sys_ret_def set_reg_def supervisor_def Let_def)
qed

lemma syscall_sysret_roundtrip_witness:
  "status (exec_instr 8 (decode 0x11000000) (set_reg PC 0x100 (exec_instr 0 (decode 0x10000000) (zero_machine\<lparr>status := 3\<rparr>)))) = 2"
  using syscall_sysret_roundtrip [where c = "decode 0x10000000" and r = "decode 0x11000000" and pc = 0
      and s = "zero_machine\<lparr>status := 3\<rparr>" and pc' = 8 and x = "0x100", OF _ _ refl refl]
  by (simp add: decode_def Let_def)

subsection \<open>What user mode can reach\<close>

text \<open>
  After an operation started in user mode, the machine is still in user mode, or it has entered
  supervisor mode the only legal way: at the handler of the exception's cause. In either case
  the exception vector and the page table root are the kernel's.
\<close>

definition confined :: "machine \<Rightarrow> machine \<Rightarrow> bool" where
  "confined s t \<longleftrightarrow> evec t = evec s \<and> satp t = satp s \<and>
     (supervisor t \<longrightarrow> regs t PC = handler (cause t) t \<and> \<not> bit (estatus t) 0 \<and> status t = 1)"

lemma user_bit: "\<not> supervisor s \<longleftrightarrow> \<not> bit (status s) 0"
  by (simp add: supervisor_def and_1_eq_0)

lemma handler_cong: "evec t = evec s \<Longrightarrow> mem t = mem s \<Longrightarrow> handler c t = handler c s"
  by (simp add: handler_def Let_def)

lemma confined_raise:
  assumes "\<not> supervisor s"
  shows "confined s (raise_exception c s)"
  using assms by (simp add: confined_def user_bit handler_cong [of "raise_exception c s" s])

lemma confined_page_fault: "\<not> supervisor s \<Longrightarrow> confined s (page_fault va c s)"
  using confined_raise [of "s\<lparr>badaddr := va\<rparr>" c]
  by (simp add: page_fault_def confined_def supervisor_def)

lemma confined_user:
  "\<not> supervisor s \<Longrightarrow> evec t = evec s \<Longrightarrow> satp t = satp s \<Longrightarrow> status t = status s \<Longrightarrow> confined s t"
  by (simp add: confined_def supervisor_def)

lemma confined_trans:
  "\<not> supervisor t \<Longrightarrow> confined s t \<Longrightarrow> confined t u \<Longrightarrow> confined s u"
  by (simp add: confined_def)

lemma confined_set_reg: "confined s t \<Longrightarrow> i \<noteq> PC \<Longrightarrow> confined s (set_reg i v t)"
  by (simp add: confined_def set_reg_def supervisor_def handler_def Let_def)

lemma confined_mmio_read: "\<not> supervisor s \<Longrightarrow> confined s (snd (mmio_read a s))"
  by (simp add: mmio_read_def Let_def confined_raise) (simp add: confined_user)

lemma blk_command_frame:
  "evec (blk_command v s) = evec s" "satp (blk_command v s) = satp s" "status (blk_command v s) = status s"
  by (simp_all add: blk_command_def blk_transfer_def Let_def touch_def split: option.split)

lemma uart_write_frame:
  "evec (uart_write o' v s) = evec s" "satp (uart_write o' v s) = satp s" "status (uart_write o' v s) = status s"
  by (simp_all add: uart_write_def Let_def)

lemma confined_mmio_write:
  assumes "\<not> supervisor s"
  shows "confined s (mmio_write a v s)"
proof (cases "SV_BASE \<le> a \<and> a \<le> SV_BASE + 0x20")
  case True
  then show ?thesis using confined_raise [OF assms] assms by (simp add: mmio_write_def)
next
  case False
  then show ?thesis
    unfolding mmio_write_def Let_def
    by (intro confined_user [OF assms]) (simp_all only: if_False, simp_all add: blk_command_frame uart_write_frame)
qed

lemma translate_user:
  assumes "\<not> supervisor s" "mmu_translate va at s = (r, t)"
  shows "r = None \<Longrightarrow> confined s t" "r \<noteq> None \<Longrightarrow> \<not> supervisor t \<and> confined s t"
proof -
  show "confined s t" if "r = None"
    using mmu_translate_None [of va at s] confined_page_fault [OF assms(1)] assms(2) that by simp
  show "\<not> supervisor t \<and> confined s t" if "r \<noteq> None"
    using beyond_memory_cong [OF beyond_memory_translate [of va at s _ t]] assms that
    by (auto simp: supervisor_def intro!: confined_user)
qed

lemma confined_reads:
  assumes "\<not> supervisor s"
  shows "confined s (snd (cpu_read32 a s))" "confined s (snd (cpu_read16 a s))" "confined s (snd (cpu_read8 a s))"
    "confined s (snd (cpu_fetch a s))"
proof -
  have r: "confined s (raise_exception c t)" if "mmu_translate a at s = (Some pa, t)" for at pa t c
    using translate_user(2) [OF assms that] confined_raise confined_trans by blast
  have m: "confined s (snd (mmio_read pa t))" if "mmu_translate a at s = (Some pa, t)" for at pa t
    using translate_user(2) [OF assms that] confined_mmio_read [of t pa] confined_trans by blast
  then have m': "confined s u" if "mmu_translate a at s = (Some pa, t)" "mmio_read pa t = (v, u)" for at pa t v u
    using that by (metis snd_conv)
  have x: "confined s (touch pa n t)" if "mmu_translate a at s = (Some pa, t)" for at pa t n
    using translate_user(2) [OF assms that] confined_user [of t "touch pa n t"] confined_trans
    by (auto simp: touch_def)
  show "confined s (snd (cpu_read32 a s))" "confined s (snd (cpu_read16 a s))" "confined s (snd (cpu_read8 a s))"
    "confined s (snd (cpu_fetch a s))"
    unfolding cpu_read32_def cpu_read16_def cpu_read8_def cpu_fetch_def
    by (auto split: prod.split option.split intro: r m m' x translate_user(1) [OF assms])
qed

lemma confined_writes:
  assumes "\<not> supervisor s"
  shows "confined s (cpu_write32 a v s)" "confined s (cpu_write16 a w s)" "confined s (cpu_write8 a b s)"
proof -
  have r: "confined s (raise_exception c t)" if "mmu_translate a at s = (Some pa, t)" for at pa t c
    using translate_user(2) [OF assms that] confined_raise confined_trans by blast
  have m: "confined s (mmio_write pa x t)" if "mmu_translate a at s = (Some pa, t)" for at pa t x
    using translate_user(2) [OF assms that(1)] confined_mmio_write [of t pa] confined_trans by blast
  have st: "confined s u" if "mmu_translate a at s = (Some pa, t)" "u = store32 pa x t \<or> u = store16 pa y t \<or> u = store8 pa z t"
    for at pa t x y z u
    using translate_user(2) [OF assms that(1)] that(2) confined_user [of t u] confined_trans
    by (auto simp: touch_def store32_def store16_def store8_def)
  show "confined s (cpu_write32 a v s)" "confined s (cpu_write16 a w s)" "confined s (cpu_write8 a b s)"
    unfolding cpu_write32_def cpu_write16_def cpu_write8_def
    by (auto split: prod.split option.split intro: r m st translate_user(1) [OF assms])
qed

definition same_privilege :: "machine \<Rightarrow> machine \<Rightarrow> bool" where
  "same_privilege s t \<longleftrightarrow> evec t = evec s \<and> satp t = satp s \<and> status t = status s"

interpretation priv: reg_rel same_privilege
  by unfold_locales (simp_all add: same_privilege_def)

lemma confined_same: "\<not> supervisor s \<Longrightarrow> same_privilege s t \<Longrightarrow> confined s t"
  by (rule confined_user) (simp_all add: same_privilege_def)

lemma same_privilege_user: "\<not> supervisor s \<Longrightarrow> same_privilege s t \<Longrightarrow> \<not> supervisor t"
  by (simp add: same_privilege_def supervisor_def)

text \<open>The opcodes that load into \<open>rd\<close>.\<close>

definition is_load :: "decoded \<Rightarrow> bool" where
  "is_load d \<longleftrightarrow> d_op d \<in> {0x0B, 0x1C, 0x1D, 0x1E, 0x1F, 0x30, 0x31, 0x32, 0x35, 0x36}"

lemma confined_load: "confined s (snd p) \<Longrightarrow> rd \<noteq> PC \<Longrightarrow> confined s (load_reg rd f p)"
  by (cases p) (simp add: load_reg_def confined_set_reg)

lemma confined_refl: "\<not> supervisor s \<Longrightarrow> confined s s"
  by (rule confined_user) simp_all

lemma confined_muldiv: "\<not> supervisor s \<Longrightarrow> confined s (exec_muldiv d s)"
  unfolding exec_muldiv_def Let_def
  by (auto intro: confined_raise confined_same priv.R_refl priv.R_results
      priv.R_step1 [OF priv.R_results(2) priv.R_signed_ub])

lemma confined_indexed:
  "\<not> supervisor s \<Longrightarrow> is_load d \<longrightarrow> d_rd d \<noteq> PC \<Longrightarrow> confined s (exec_indexed d s)"
  unfolding exec_indexed_def Let_def
  by (cases "is_load d") (simp_all add: confined_load confined_reads confined_writes confined_refl is_load_def)

lemma confined_loadstore:
  assumes "\<not> supervisor s" "is_load d \<longrightarrow> d_rd d \<noteq> PC"
  shows "confined s (exec_loadstore d s)"
proof -
  obtain a t where a: "signed_addr d s = (a, t)" by fastforce
  have p: "same_privilege s t" using a priv.R_signed_ub by (auto simp: signed_addr_def Let_def)
  note u = same_privilege_user [OF assms(1) p]
  have "confined t (if d_op d = 0x0B then load_reg (d_rd d) (\<lambda>x. x) (cpu_read32 a t)
         else if d_op d = 0x1C then load_reg (d_rd d) scast (cpu_read16 a t)
         else if d_op d = 0x1D then load_reg (d_rd d) ucast (cpu_read16 a t)
         else if d_op d = 0x1E then load_reg (d_rd d) scast (cpu_read8 a t)
         else if d_op d = 0x1F then load_reg (d_rd d) ucast (cpu_read8 a t)
         else if d_op d = 0x0C then cpu_write32 a (regs s (d_rd d)) t
         else if d_op d = 0x20 then cpu_write16 a (ucast (regs s (d_rd d) AND 0xFFFF)) t
         else if d_op d = 0x21 then cpu_write8 a (ucast (regs s (d_rd d) AND 0xFF)) t
         else t)"
    using assms(2) u
    by (cases "is_load d") (simp_all add: confined_load confined_reads confined_writes confined_refl is_load_def)
  from confined_trans [OF u confined_same [OF assms(1) p] this] show ?thesis
    by (simp only: exec_loadstore_def Let_def a prod.case)
qed

lemma confined_control: "\<not> supervisor s \<Longrightarrow> confined s (exec_control pc d s)"
  unfolding exec_control_def
  by (auto split: option.split intro: confined_raise confined_same priv.R_refl priv.R_set_reg
      priv.R_step1 [OF priv.R_set_reg])

lemma confined_system: "\<not> supervisor s \<Longrightarrow> confined s (exec_system d s)"
proof -
  assume u: "\<not> supervisor s"
  have "confined s (sys_call s)"
    using u by (simp add: sys_call_def vector_pc_def confined_def set_reg_def touch_def handler_def user_bit Let_def)
  then show ?thesis
    using u unfolding exec_system_def sys_ret_def k_ret_def
    by (auto intro: confined_raise confined_user)
qed

lemma confined_exec:
  assumes "\<not> supervisor s" "d_op d \<noteq> 0x3D" "is_load d \<longrightarrow> d_rd d \<noteq> PC"
  shows "confined s (exec_instr pc d s)"
  unfolding exec_instr_def Let_def
  using assms by (simp add: confined_raise confined_same [OF _ priv.R_exec_regs(1)] confined_same [OF _ priv.R_exec_regs(2)]
      confined_same [OF _ priv.R_exec_regs(3)] confined_same [OF _ priv.R_exec_regs(4)]
      confined_same [OF _ priv.R_exec_regs(5)] confined_same [OF _ priv.R_exec_regs(6)]
      confined_muldiv confined_indexed confined_loadstore confined_control confined_system)

lemma confined_frame:
  assumes "confined s t" "evec u = evec t" "satp u = satp t" "status u = status t" "regs u = regs t"
    "cause u = cause t" "estatus u = estatus t" "mem u = mem t"
  shows "confined s u"
  using assms(1) handler_cong [OF assms(2,8)] by (simp add: confined_def supervisor_def assms)

lemma housekeeping_frame:
  "evec (poll_divided s) = evec s" "satp (poll_divided s) = satp s" "status (poll_divided s) = status s"
  "regs (poll_divided s) = regs s" "cause (poll_divided s) = cause s" "estatus (poll_divided s) = estatus s"
  "mem (poll_divided s) = mem s" "halted (poll_divided s) = halted s" "oob (poll_divided s) = oob s"
  "blk_buffer (poll_divided s) = blk_buffer s" "blk_buffer (timer_tick s) = blk_buffer s"
  "evec (timer_tick s) = evec s" "satp (timer_tick s) = satp s" "status (timer_tick s) = status s"
  "regs (timer_tick s) = regs s" "cause (timer_tick s) = cause s" "estatus (timer_tick s) = estatus s"
  "mem (timer_tick s) = mem s" "halted (timer_tick s) = halted s" "oob (timer_tick s) = oob s"
  by (simp_all add: poll_divided_def uart_poll_def read_one_def uart_receive_def timer_tick_def Let_def
      split: list.split option.split)

lemma confined_interrupt:
  assumes "confined s t"
  shows "confined s (interrupt_check t)"
proof (cases "status t AND 2 = 0 \<or> ic_pending t AND ic_mask t = 0")
  case True
  then show ?thesis using assms by (auto simp: interrupt_check_def)
next
  case False
  then have u: "\<not> supervisor t" using assms by (auto simp: confined_def)
  let ?t = "t\<lparr>faulting_pc := regs t PC\<rparr>"
  have "confined t (raise_exception 6 ?t)"
    using confined_raise [of ?t 6] u by (simp add: confined_def supervisor_def)
  then have "confined s (raise_exception 6 ?t)" using u assms confined_trans by blast
  then have "confined s ((raise_exception 6 ?t)\<lparr>faulting_pc := faulting_pc t\<rparr>)"
    by (rule confined_frame) simp_all
  then show ?thesis using False by (simp add: interrupt_taken)
qed

lemma confined_end_of_step: "confined s t \<Longrightarrow> confined s (end_of_step skip t)"
proof -
  assume "confined s t"
  then have "confined s (poll_divided (timer_tick t))"
    by (rule confined_frame) (simp_all add: housekeeping_frame)
  then show ?thesis by (simp add: end_of_step_def Let_def confined_interrupt)
qed

text \<open>C1: User-mode code is confined: whatever a user-mode program executes in one step of the loop, except a
  compare-and-swap or a load into the program counter, the exception vector and the page table
  root are unchanged, and if the machine is then in supervisor mode it is at the handler that
  the vector table names for the recorded cause, with interrupts off and the saved status a
  user-mode one.\<close>

theorem user_step_confined:
  assumes "\<not> supervisor s"
    and "\<And>i t. cpu_fetch (regs s PC) (s\<lparr>faulting_pc := regs s PC\<rparr>) = (Some i, t) \<Longrightarrow>
      d_op (decode i) \<noteq> 0x3D \<and> (is_load (decode i) \<longrightarrow> d_rd (decode i) \<noteq> PC)"
  shows "confined s (cpu_step s)"
proof -
  define s0 where "s0 = s\<lparr>faulting_pc := regs s PC\<rparr>"
  have u0: "\<not> supervisor s0" and c0: "confined s s0"
    using assms(1) confined_user [OF assms(1), of s0] by (simp_all add: s0_def supervisor_def)
  obtain r s1 where f: "cpu_fetch (regs s PC) s0 = (r, s1)" by fastforce
  have c1: "confined s s1"
    using confined_reads(4) [OF u0, of "regs s PC"] confined_trans [OF u0 c0] f by simp
  show ?thesis
  proof (cases r)
    case None
    then show ?thesis using f c1 by (simp add: cpu_step_def Let_def s0_def confined_end_of_step)
  next
    case (Some i)
    let ?s2 = "set_reg PC (regs s PC + 4) s1" and ?d = "decode i"
    obtain pa t where m: "mmu_translate (regs s PC) Fetch s0 = (Some pa, t)" "s1 = touch pa 4 t"
      using f Some by (auto simp: cpu_fetch_def split: prod.splits option.splits if_splits)
    have "\<not> supervisor s1"
      using translate_user(2) [OF u0 m(1)] by (simp add: m(2) touch_def supervisor_def)
    then have u2: "\<not> supervisor ?s2" by (simp add: set_reg_def supervisor_def)
    have c2: "confined s ?s2"
      using confined_same [OF \<open>\<not> supervisor s1\<close> priv.R_set_reg] c1 \<open>\<not> supervisor s1\<close> confined_trans by blast
    have "confined ?s2 (exec_instr (regs s PC) ?d ?s2)"
      using assms(2) [of i s1] f Some by (intro confined_exec [OF u2]) (auto simp: s0_def)
    from confined_trans [OF u2 c2 this] show ?thesis
      using f Some by (simp add: cpu_step_def Let_def s0_def confined_end_of_step)
  qed
qed

definition user_sysret :: machine where
  "user_sysret = zero_machine\<lparr>mem := mem_write32 (mem_write32 (\<lambda>a. 0) 0 0x11000000) 0x100 0x2000, evec := 0x100\<rparr>"

lemma user_step_confined_witness: "confined user_sysret (cpu_step user_sysret)"
proof (rule user_step_confined)
  show "\<not> supervisor user_sysret" by (simp add: user_sysret_def zero_machine_def supervisor_def)
next
  fix i t
  assume "cpu_fetch (regs user_sysret PC) (user_sysret\<lparr>faulting_pc := regs user_sysret PC\<rparr>) = (Some i, t)"
  then have "i = 0x11000000"
    by (simp add: cpu_fetch_def mmu_translate_def user_sysret_def zero_machine_def
        mem_read_write32_apart apart32_def word_le_def)
  then show "d_op (decode i) \<noteq> 0x3D \<and> (is_load (decode i) \<longrightarrow> d_rd (decode i) \<noteq> PC)"
    by (simp add: decode_def is_load_def Let_def)
qed

text \<open>C40: A code bug that breaks the confinement: CAS on a supervisor register from user mode raises the
  bus error inside the read, which turns supervisor mode on before the write of the same
  instruction is made. With a zero in the comparand register the write goes through: a user-mode
  program sets the exception vector to any value it likes.\<close>

theorem cas_user_sets_evec:
  assumes "\<not> supervisor s" "d_op d = 0x3D" "regs s (d_rs1 d) = SV_BASE + 8"
    and "regs s (d_rd d) = 0" "d_rd d \<noteq> PC" "d_rs2 d \<noteq> PC"
  shows "evec (exec_instr pc d s) = regs s (d_rs2 d)"
proof -
  have rd: "mmio_read (SV_BASE + 8) s = (0, raise_exception 2 s)"
    using assms(1) by (simp add: mmio_read_def word_le_def)
  have wr: "evec (mmio_write (SV_BASE + 8) v (raise_exception 2 s)) = v" for v
    by (simp add: mmio_write_def word_le_def sv_write_def Let_def)
  have "exec_instr pc d s = exec_cas d s" using assms(2) by (simp add: exec_instr_def Let_def word_le_def)
  then show ?thesis
    using assms(4-6) rd wr [of "regs s (d_rs2 d)"]
    by (simp add: exec_cas_def Let_def assms(3) word_le_def)
qed

lemma cas_user_sets_evec_witness:
  "evec (exec_instr 0 (decode 0x3D012000) (zero_machine\<lparr>regs := (\<lambda>i. if i = 1 then 0x03FFF008 else if i = 2 then 0xBAD0 else 0)\<rparr>)) = 0xBAD0"
  by (subst cas_user_sets_evec) (simp_all add: decode_def Let_def zero_machine_def supervisor_def)

end
