(* ===== verification/Safety.thy ===== *)
theory Safety
  imports Traps
begin

text \<open>
  Memory under translation and under the loop of \<open>emulator.c\<close>: switching address spaces through
  SATP, which bytes a store may change, what a faulting load does, and when a step of the loop
  stays inside the array \<open>mem\<close>.
\<close>

subsection \<open>Switching address spaces\<close>

lemma satp_write_eq:
  assumes "supervisor s"
  shows "mmio_write (SV_BASE + 0x18) v s = tlb_flush_non_global (s\<lparr>satp := v\<rparr>)"
  using assms by (simp add: mmio_write_def sv_write_def Let_def word_le_def)

lemma sfence_eq:
  assumes "supervisor s" "d_op d = 0x3E"
  shows "exec_instr pc d s = tlb_flush_non_global s"
  using assms by (simp add: exec_instr_def exec_system_def Let_def word_le_def)

text \<open>C35: Switching address spaces: when the supervisor writes SATP, or executes SFENCE after changing the
  page tables in memory, then, with translation enabled in the value of SATP, and if the
  entries marked global agree with the page tables now in force (which is what the G bit promises),
  the translation buffer is coherent with these tables afterwards, and every address below
  the devices that does not hit a global superpage entry is translated by these tables, whatever
  the other entries held.\<close>

theorem satp_write_switches:
  assumes "supervisor s" "v AND 0x80000000 \<noteq> 0" "va < MMIO_BASE"
    and "t = mmio_write (SV_BASE + 0x18) v s \<or> satp s = v \<and> d_op d = 0x3E \<and> t = exec_instr pc d s"
    and "\<And>i. te_valid (tlb s i) \<Longrightarrow> te_global (tlb s i) \<Longrightarrow> entry_coherent (mem s) v i (tlb s i)"
    and "\<not> (tlb_match va t \<and> te_superpage (tlb t (tlb_index (drop_bit 12 va))))"
  shows "tlb_coherent t \<and> fst (mmu_translate va at t) = translate_spec (mem s) v False va at"
proof -
  have "satp s = v \<Longrightarrow> s = s\<lparr>satp := v\<rparr>" by simp
  then have t: "t = tlb_flush_non_global (s\<lparr>satp := v\<rparr>)"
    using assms(4) satp_write_eq [OF assms(1)] sfence_eq [OF assms(1)] by metis
  then have "tlb_coherent t"
    using assms(5) by (auto simp: tlb_coherent_def tlb_flush_non_global_def)
  moreover have "satp t = v" "mem t = mem s" "supervisor t"
    using assms(1) by (simp_all add: t tlb_flush_non_global_def supervisor_def)
  ultimately show ?thesis using translate_page_spec [of t va at] assms(2,3,6) by simp
qed

lemma satp_write_switches_witness:
  "fst (mmu_translate 0x2ABC Load (mmio_write (SV_BASE + 0x18) 0x80000010 (paged\<lparr>satp := 0\<rparr>))) = Some 0x00345ABC \<and>
   fst (mmu_translate 0x2ABC Load (exec_instr 0 (decode 0x3E000000) paged)) = Some 0x00345ABC"
proof -
  let ?s = "paged\<lparr>satp := 0\<rparr>" and ?d = "decode 0x3E000000"
  have inv: "\<not> te_valid (tlb paged i)" for i by (simp add: paged_def zero_machine_def tlb_entry0_def)
  have sup: "supervisor ?s" "supervisor paged" "satp paged = 0x80000010" "d_op ?d = 0x3E"
    by (simp_all add: paged_def supervisor_def decode_def Let_def)
  have n: "\<not> tlb_match 0x2ABC (mmio_write (SV_BASE + 0x18) 0x80000010 ?s)" "\<not> tlb_match 0x2ABC (exec_instr 0 ?d paged)"
    using inv satp_write_eq [OF sup(1)] sfence_eq [OF sup(2,4)]
    by (simp_all add: tlb_match_def tlb_flush_non_global_def Let_def)
  have x: "translate_spec (mem paged) 0x80000010 False 0x2ABC Load = Some 0x00345ABC"
    using paged_walk(2) by (simp add: translate_spec_def paged_def access_allowed_def leaf_pa_def Let_def)
  have lt: "(0x80000010 :: u32) AND 0x80000000 \<noteq> 0" "(0x2ABC :: u32) < MMIO_BASE" by (simp_all add: word_less_def)
  have "fst (mmu_translate 0x2ABC Load (mmio_write (SV_BASE + 0x18) 0x80000010 ?s)) = Some 0x00345ABC"
    using satp_write_switches [OF sup(1) lt disjI1 [OF refl], of Load] n inv x by simp
  moreover have "fst (mmu_translate 0x2ABC Load (exec_instr 0 ?d paged)) = Some 0x00345ABC"
    using satp_write_switches [OF sup(2) lt disjI2 [OF conjI [OF sup(3) conjI [OF sup(4) refl]]], of 0 Load] n inv x by simp
  ultimately show ?thesis by blast
qed

subsection \<open>What a store changes\<close>

text \<open>The page table entry whose dirty bit a store to \<open>va\<close> may set.\<close>

definition pte_of :: "machine \<Rightarrow> u32 \<Rightarrow> u32 option" where
  "pte_of s va = map_option fst (pt_walk (mem s) (satp s) va)"

lemma translate_mem_pte:
  assumes "tlb_coherent s" "satp s AND 0x80000000 \<noteq> 0" "va < MMIO_BASE"
  shows "mem (snd (mmu_translate va at s)) = mem s \<or>
    (\<exists>a. pte_of s va = Some a \<and> a AND 3 = 0 \<and>
      mem (snd (mmu_translate va at s)) = mem_write32 (mem s) a (mem_read32 (mem s) a OR 2))"
proof (cases "pt_walk (mem s) (satp s) va")
  case None
  have "\<not> tlb_match va s" using None tlb_match_coherent [OF assms(1)] by (metis option.distinct(1))
  then show ?thesis using None by (simp add: mmu_translate_def page_walk_eq page_fault_def)
next
  case (Some w)
  obtain a p sp where w: "pt_walk (mem s) (satp s) va = Some (a, p, sp)" using Some by (cases w) simp
  note pt = pt_walk_Some [OF w]
  have "va \<ge> MMIO_BASE \<longleftrightarrow> False" using assms(3) by (simp add: linorder_not_le)
  then show ?thesis
    using assms(2) tlb_hit_eq [OF assms(1) _ w, of at] pt(1,3) walk_leaf_eq [OF pt(2,1), of va at sp]
    by (simp add: mmu_translate_def page_walk_eq w pte_of_def page_fault_def Let_def)
qed

text \<open>The memory with the bytes \<open>bs\<close> at \<open>a\<close>, and what a store of these bytes does at an address the MMU
  lets through: misaligned or beyond the RAM it stores nothing (it raises an exception).\<close>

definition put_bytes :: "memory \<Rightarrow> u32 \<Rightarrow> u8 list \<Rightarrow> memory" where
  "put_bytes m a bs = (\<lambda>x. if x - a < of_nat (length bs) then bs ! unat (x - a) else m x)"

definition stored :: "u32 option \<Rightarrow> u8 list \<Rightarrow> memory \<Rightarrow> memory" where
  "stored target bs m =
     (case target of None \<Rightarrow> m
      | Some pa \<Rightarrow> if pa AND (of_nat (length bs) - 1) = 0 \<and> pa < MMIO_BASE then put_bytes m pa bs else m)"

text \<open>The address and the bytes of each store instruction: SW, SH, SB, SWX, SBX, SHX.\<close>

definition store_bytes :: "decoded \<Rightarrow> machine \<Rightarrow> (u32 \<times> u8 list) option" where
  "store_bytes d s =
     (let v = regs s (d_rd d); disp = regs s (d_rs1 d) + d_simm d; idx = regs s (d_rs1 d) + regs s (d_rs2 d)
      in if d_op d = 0x0C then Some (disp, [byte_at 0 v, byte_at 1 v, byte_at 2 v, byte_at 3 v])
         else if d_op d = 0x20 then Some (disp, [byte_at 0 v, byte_at 1 v])
         else if d_op d = 0x21 then Some (disp, [byte_at 0 v])
         else if d_op d = 0x33 then Some (idx, [byte_at 0 v, byte_at 1 v, byte_at 2 v, byte_at 3 v])
         else if d_op d = 0x37 then Some (idx, [byte_at 0 v, byte_at 1 v])
         else if d_op d = 0x34 then Some (idx, [byte_at 0 v])
         else None)"

text \<open>The physical address of a store to \<open>va\<close>: the page tables' where the MMU translates, \<open>va\<close> itself
  otherwise.\<close>

definition store_target :: "machine \<Rightarrow> u32 \<Rightarrow> u32 option" where
  "store_target s va =
     (if satp s AND 0x80000000 \<noteq> 0 \<and> va < MMIO_BASE
      then translate_spec (mem s) (satp s) (\<not> supervisor s) va Store else Some va)"

lemma word_less_4: "(w :: u32) < 4 \<longleftrightarrow> w = 0 \<or> w = 1 \<or> w = 2 \<or> w = 3"
proof -
  have "uint w < 4 \<longleftrightarrow> uint w = 0 \<or> uint w = 1 \<or> uint w = 2 \<or> uint w = 3" using uint_ge_0 [of w] by presburger
  then show ?thesis by (simp add: word_less_def word_uint_eq_iff)
qed

lemma word_less_2: "(w :: u32) < 2 \<longleftrightarrow> w = 0 \<or> w = 1"
  by (auto simp: word_less_def word_uint_eq_iff) (use uint_ge_0 [of w] in presburger)

lemma write_put_bytes:
  "mem_write32 m a v = put_bytes m a [byte_at 0 v, byte_at 1 v, byte_at 2 v, byte_at 3 v]"
  "mem_write16 m a (ucast (v AND 0xFFFF)) = put_bytes m a [byte_at 0 v, byte_at 1 v]"
  "mem_write8 m a (ucast (v AND 0xFF)) = put_bytes m a [byte_at 0 v]"
proof -
  have mask8_u16: "(0xFF :: u16) = mask 8" by (simp add: mask_eq_exp_minus_1)
  have b: "(ucast ((ucast (v AND 0xFFFF) :: u16) AND 0xFF) :: u8) = byte_at 0 v"
    "(ucast (drop_bit 8 (ucast (v AND 0xFFFF) :: u16) AND 0xFF) :: u8) = byte_at 1 v"
    "(ucast (v AND 0xFF) :: u8) = byte_at 0 v"
    unfolding mask16_u32 mask8_u32 mask8_u16 by (rule bit_word_eqI; auto simp: bit_byte_at bit_simps)+
  have ext: "f = g" if "\<And>d. f (a + d) = g (a + d)" for f g :: memory
    using that [of "x - a" for x] by (simp add: fun_eq_iff)
  show "mem_write32 m a v = put_bytes m a [byte_at 0 v, byte_at 1 v, byte_at 2 v, byte_at 3 v]"
    by (rule ext) (auto simp: mem_write32_def put_bytes_def word_less_4)
  show "mem_write16 m a (ucast (v AND 0xFFFF)) = put_bytes m a [byte_at 0 v, byte_at 1 v]"
    by (rule ext) (auto simp: mem_write16_def put_bytes_def word_less_2 b)
  show "mem_write8 m a (ucast (v AND 0xFF)) = put_bytes m a [byte_at 0 v]"
    by (rule ext) (auto simp: mem_write8_def put_bytes_def b)
qed

text \<open>Setting the dirty bit of a page table entry changes its first byte only.\<close>

lemma write_dirty: "mem_write32 m a (mem_read32 m a OR 2) = m(a := m a OR 2)"
proof -
  have "byte_at 0 (w OR 2) = byte_at 0 w OR 2" "byte_at 1 (w OR 2) = byte_at 1 w"
    "byte_at 2 (w OR 2) = byte_at 2 w" "byte_at 3 (w OR 2) = byte_at 3 w" for w
    by (rule bit_word_eqI; auto simp: bit_byte_at bit_or_iff bit_2_iff)+
  then show ?thesis by (simp add: mem_write32_def mem_read32_def fun_eq_iff)
qed

lemma cpu_write_mem:
  assumes "\<And>pa. fst (mmu_translate va Store s) = Some pa \<Longrightarrow> \<not> (MMIO_BASE \<le> pa \<and> pa < MEM_SIZE)"
    and "m = mem (snd (mmu_translate va Store s))" "target = fst (mmu_translate va Store s)"
  shows "mem (cpu_write32 va v s) = stored target [byte_at 0 v, byte_at 1 v, byte_at 2 v, byte_at 3 v] m"
    "mem (cpu_write16 va (ucast (v AND 0xFFFF)) s) = stored target [byte_at 0 v, byte_at 1 v] m"
    "mem (cpu_write8 va (ucast (v AND 0xFF)) s) = stored target [byte_at 0 v] m"
proof -
  obtain r s1 where r: "mmu_translate va Store s = (r, s1)" by fastforce
  have dev: "\<not> (MMIO_BASE \<le> pa \<and> pa < MEM_SIZE)" if "r = Some pa" for pa using assms(1) r that by simp
  have le: "MEM_SIZE \<le> pa \<Longrightarrow> \<not> pa < MMIO_BASE" for pa :: u32 by (simp add: word_less_def word_le_def)
  note unf = assms(2,3) r stored_def store32_def store16_def store8_def touch_def write_put_bytes not_le
  show "mem (cpu_write32 va v s) = stored target [byte_at 0 v, byte_at 1 v, byte_at 2 v, byte_at 3 v] m"
    using dev le by (cases r) (auto simp: cpu_write32_def unf)
  show "mem (cpu_write16 va (ucast (v AND 0xFFFF)) s) = stored target [byte_at 0 v, byte_at 1 v] m"
    using dev le by (cases r) (auto simp: cpu_write16_def unf)
  show "mem (cpu_write8 va (ucast (v AND 0xFF)) s) = stored target [byte_at 0 v] m"
    using dev le by (cases r) (auto simp: cpu_write8_def unf)
qed

text \<open>Memory after the translation of a store: unchanged, or with the dirty bit of the entry set.\<close>

definition dirty_only :: "machine \<Rightarrow> u32 \<Rightarrow> memory \<Rightarrow> bool" where
  "dirty_only s va m \<longleftrightarrow> m = mem s \<or> satp s AND 0x80000000 \<noteq> 0 \<and> va < MMIO_BASE \<and>
     (\<exists>a. pte_of s va = Some a \<and> m = (mem s)(a := mem s a OR 2))"

lemma store_translated:
  assumes "tlb_coherent s"
    and "satp s AND 0x80000000 = 0 \<or> \<not> (tlb_match va s \<and> te_superpage (tlb s (tlb_index (drop_bit 12 va))))"
  shows "fst (mmu_translate va Store s) = store_target s va \<and> dirty_only s va (mem (snd (mmu_translate va Store s)))"
proof (cases "satp s AND 0x80000000 \<noteq> 0 \<and> va < MMIO_BASE")
  case True
  then show ?thesis
    using translate_page_spec [OF assms(1), of va Store] translate_mem_pte [OF assms(1), of va Store] assms(2)
    by (auto simp: store_target_def dirty_only_def write_dirty)
next
  case False
  then show ?thesis by (auto simp: store_target_def dirty_only_def mmu_translate_def not_less)
qed

lemma sovf_frame:
  "tlb_coherent (s\<lparr>sovf := b\<rparr>) = tlb_coherent s" "tlb_match va (s\<lparr>sovf := b\<rparr>) = tlb_match va s"
  "store_target (s\<lparr>sovf := b\<rparr>) va = store_target s va" "dirty_only (s\<lparr>sovf := b\<rparr>) va = dirty_only s va"
  by (auto simp: tlb_coherent_def tlb_match_def store_target_def dirty_only_def pte_of_def supervisor_def Let_def fun_eq_iff)

text \<open>Each store instruction is one write of its bytes, in a state that differs in \<open>sovf\<close> at most.\<close>

lemma store_instr_mem:
  assumes "store_bytes d s = Some (va, bs)"
    and "\<And>b pa. fst (mmu_translate va Store (s\<lparr>sovf := b\<rparr>)) = Some pa \<Longrightarrow> \<not> (MMIO_BASE \<le> pa \<and> pa < MEM_SIZE)"
  shows "\<exists>b. mem (exec_instr pc d s) = stored (fst (mmu_translate va Store (s\<lparr>sovf := b\<rparr>))) bs
    (mem (snd (mmu_translate va Store (s\<lparr>sovf := b\<rparr>))))"
proof -
  let ?a = "regs s (d_rs1 d) + d_simm d" and ?v = "regs s (d_rd d)"
  obtain b where b: "signed_addr d s = (?a, s\<lparr>sovf := b\<rparr>)"
    by (simp add: signed_addr_def signed_ub_def Let_def)
  note wb = cpu_write_mem [OF assms(2) [of b] refl refl, where v = ?v]
    and w0 = cpu_write_mem [OF assms(2) [of "sovf s"] refl refl, where v = ?v]
  note unf = store_bytes_def exec_instr_def exec_loadstore_def exec_indexed_def Let_def word_le_def
  have "d_op d \<in> {0x0C, 0x20, 0x21, 0x33, 0x34, 0x37}"
    using assms(1) by (auto simp: store_bytes_def Let_def split: if_splits)
  then consider "d_op d = 0x0C \<or> d_op d = 0x20 \<or> d_op d = 0x21" | "d_op d = 0x33 \<or> d_op d = 0x34 \<or> d_op d = 0x37"
    by blast
  then show ?thesis
  proof cases
    case 1
    then show ?thesis using assms(1) wb b by (intro exI [of _ b]) (elim disjE; simp add: unf)
  next
    case 2
    then show ?thesis using assms(1) w0 by (intro exI [of _ "sovf s"]) (elim disjE; simp add: unf)
  qed
qed

text \<open>C36: A store instruction (SW, SH, SB, SWX, SHX, SBX), with translation on or off, changes exactly the
  bytes it should: if the page tables let the current mode store to its address (or it is not
  translated) and the physical address is aligned and in RAM, memory afterwards holds the low
  bytes of the register there, little-endian, and every other byte is as before, save that the
  dirty bit of the page table entry used may have been set; if the page tables refuse the store,
  or the address is misaligned or beyond the memory, nothing changes but that. The translation
  buffer is coherent with the tables, the address does not hit a superpage entry of it, and the
  physical address is not one of a device.\<close>

theorem store_changes_only_target:
  assumes "store_bytes d s = Some (va, bs)" "tlb_coherent s"
    and "satp s AND 0x80000000 = 0 \<or> \<not> (tlb_match va s \<and> te_superpage (tlb s (tlb_index (drop_bit 12 va))))"
    and "target = store_target s va" "\<And>pa. target = Some pa \<Longrightarrow> \<not> (MMIO_BASE \<le> pa \<and> pa < MEM_SIZE)"
  shows "\<exists>m. dirty_only s va m \<and> mem (exec_instr pc d s) = stored target bs m"
proof -
  have tr: "fst (mmu_translate va Store (s\<lparr>sovf := b\<rparr>)) = target \<and>
      dirty_only s va (mem (snd (mmu_translate va Store (s\<lparr>sovf := b\<rparr>))))" for b
    using store_translated [of "s\<lparr>sovf := b\<rparr>" va] assms(2-4) by (simp add: sovf_frame)
  have dev: "\<not> (MMIO_BASE \<le> pa \<and> pa < MEM_SIZE)" if "fst (mmu_translate va Store (s\<lparr>sovf := b\<rparr>)) = Some pa" for b pa
    using that tr [of b] by (intro assms(5)) simp
  have "\<exists>b. mem (exec_instr pc d s) = stored (fst (mmu_translate va Store (s\<lparr>sovf := b\<rparr>))) bs
      (mem (snd (mmu_translate va Store (s\<lparr>sovf := b\<rparr>))))"
    by (rule store_instr_mem [OF assms(1)], rule dev)
  then obtain b where "mem (exec_instr pc d s) = stored (fst (mmu_translate va Store (s\<lparr>sovf := b\<rparr>))) bs
      (mem (snd (mmu_translate va Store (s\<lparr>sovf := b\<rparr>))))" by blast
  with tr [of b] show ?thesis by auto
qed

lemma store_changes_only_target_witness:
  "let t = exec_instr 0 (decode 0x20310002) (paged\<lparr>regs := (\<lambda>_. 0)(1 := 0x2ABA, 3 := 0x1234CAFE)\<rparr>)
   in mem t 0x345ABC = 0xFE \<and> mem t 0x345ABD = 0xCA \<and> mem t 0x345ABE = mem paged 0x345ABE"
proof -
  let ?s = "paged\<lparr>regs := (\<lambda>_. 0)(1 := 0x2ABA, 3 := 0x1234CAFE)\<rparr>" and ?d = "decode 0x20310002"
  have same: "tlb ?s = tlb paged" "mem ?s = mem paged" "satp ?s = satp paged" "supervisor ?s = supervisor paged"
    by (simp_all add: supervisor_def)
  have bs: "store_bytes ?d ?s = Some (0x2ABC, [0xFE, 0xCA])"
    by (simp add: store_bytes_def decode_def Let_def byte_at_def)
  have coh: "tlb_coherent ?s" using paged_coherent by (simp add: tlb_coherent_def)
  have n: "\<not> tlb_match 0x2ABC ?s"
    by (simp add: tlb_match_def paged_def zero_machine_def tlb_entry0_def)
  have x: "store_target ?s 0x2ABC = Some 0x345ABC"
    by (simp add: store_target_def same translate_spec_def paged_walk access_allowed_def leaf_pa_def Let_def)
      (simp add: paged_def supervisor_def word_less_def)
  have p: "pte_of ?s 0x2ABC = Some 0x11008" by (simp add: pte_of_def paged_walk)
  obtain m where m: "dirty_only ?s 0x2ABC m" "mem (exec_instr 0 ?d ?s) = stored (Some 0x345ABC) [0xFE, 0xCA] m"
    using store_changes_only_target [OF bs coh _ refl, of 0] n by (auto simp: x word_le_def)
  have "m 0x345ABE = mem paged 0x345ABE" using m(1) by (auto simp: dirty_only_def p)
  then show ?thesis unfolding m(2) Let_def by (simp add: stored_def put_bytes_def word_less_def)
qed

subsection \<open>A faulting load\<close>

lemma translate_fst_sovf: "fst (mmu_translate va at (s\<lparr>sovf := b\<rparr>)) = fst (mmu_translate va at s)"
  by (simp add: mmu_translate_def tlb_match_def tlb_hit_def page_walk_eq walk_leaf_def supervisor_def Let_def
      split: option.split)

text \<open>A load that takes a page fault still writes its destination: the exception is delivered (cause 8,
  the address in BADADDR, EPC at the load), and then the register named by the instruction is set
  to zero. architecture.md says that no general-purpose register is modified; and when the
  destination is the program counter the processor continues at address 0 in supervisor mode
  instead of at the handler.\<close>

theorem faulting_load_writes_rd:
  assumes "d_op d = 0x0B" "fst (mmu_translate (regs s (d_rs1 d) + d_simm d) Load s) = None"
    and "t = exec_instr pc d s"
  shows "supervisor t \<and> cause t = 8 \<and> badaddr t = regs s (d_rs1 d) + d_simm d \<and> epc t = faulting_pc s \<and>
    regs t = (regs s)(PC := handler 8 s, d_rd d := 0)"
proof -
  let ?a = "regs s (d_rs1 d) + d_simm d"
  obtain s1 where s1: "signed_addr d s = (?a, s1)" "s1 = s\<lparr>sovf := sovf s1\<rparr>"
    by (simp add: signed_addr_def signed_ub_def Let_def)
  have "fst (mmu_translate ?a Load s1) = None"
    using translate_fst_sovf [of ?a Load "sovf s1" s] assms(2) s1(2) by simp
  then have m: "mmu_translate ?a Load s1 = (None, page_fault ?a 8 s1)"
    using mmu_translate_None [of ?a Load s1] by (simp add: prod_eq_iff pf_cause_def)
  have "exec_instr pc d s = exec_loadstore d s" using assms(1) by (simp add: exec_instr_def Let_def word_le_def)
  then have "t = set_reg (d_rd d) 0 (page_fault ?a 8 s1)"
    by (simp add: assms(1,3) exec_loadstore_def Let_def s1(1) cpu_read32_def m load_reg_def)
  then have "t = set_reg (d_rd d) 0 (page_fault ?a 8 (s\<lparr>sovf := sovf s1\<rparr>))" using s1(2) by simp
  then show ?thesis
    by (simp add: set_reg_def page_fault_def supervisor_def handler_def Let_def)
qed

lemma faulting_load_writes_rd_witness:
  "regs (exec_instr 0 (decode 0x0BF10000) (paged\<lparr>status := 0, evec := 0x200\<rparr>)) PC = 0"
proof -
  let ?s = "paged\<lparr>status := 0, evec := 0x200\<rparr>"
  have s: "satp paged = 0x80000010" and r: "regs paged = (\<lambda>i. 0)"
    by (simp_all add: paged_def zero_machine_def)
  have "mem_read32 (mem paged) 0x11000 = 0"
    by (simp add: paged_def mem_read_write32_apart apart32_def word_le_def) (simp add: mem_read32_def le32_def)
  then have "pt_walk (mem paged) (satp paged) 0 = None"
    by (simp add: pt_walk_def Let_def l1_addr_def l2_addr_def paged_read s)
  moreover have "\<not> tlb_match 0 ?s" by (simp add: tlb_match_def paged_def zero_machine_def tlb_entry0_def)
  ultimately have "fst (mmu_translate 0 Load ?s) = None" by (simp add: mmu_translate_def page_walk_eq s)
  then show ?thesis
    using faulting_load_writes_rd [where d = "decode 0x0BF10000" and s = ?s and pc = 0, OF _ _ refl]
    by (simp add: decode_def Let_def r)
qed

end
