(* ===== verification/Bounds.thy ===== *)
theory Bounds
  imports Safety
begin

text \<open>
  When the loop of \<open>emulator.c\<close> stays inside \<open>mem\<close>. No access of the C code is unconditionally
  in bounds: a vector entry is read at \<open>evec + 4 * cause\<close> whenever that is below \<open>MEM_SIZE\<close>, a
  fetch reads four bytes from any address below it, and a block transfer trusts a wrapping
  comparison. \<open>guarded\<close> states the conditions on the guest's set-up under which these are in
  bounds; everything else is in bounds in every well-formed machine.
\<close>

subsection \<open>Operations that stay in bounds\<close>

definition guarded :: "machine \<Rightarrow> bool" where
  "guarded s \<longleftrightarrow> evec s AND 3 = 0 \<and> blk_buffer s \<noteq> 0xFFFFFE00"

definition same_guard :: "machine \<Rightarrow> machine \<Rightarrow> bool" where
  "same_guard s t \<longleftrightarrow> oob t = oob s \<and> evec t = evec s \<and> blk_buffer t = blk_buffer s"

interpretation gd: reg_rel same_guard
  by unfold_locales (simp_all add: same_guard_def)

lemma same_guard_guarded: "same_guard s t \<Longrightarrow> guarded t = guarded s"
  by (simp add: same_guard_def guarded_def)

lemma guard_raise: "guarded s \<Longrightarrow> same_guard s (raise_exception c s)"
  by (simp add: same_guard_def guarded_def oob_raise_aligned)

lemma guard_page_fault: "guarded s \<Longrightarrow> same_guard s (page_fault va c s)"
  using guard_raise [of "s\<lparr>badaddr := va\<rparr>" c] by (simp add: page_fault_def same_guard_def guarded_def)

lemma oob_tlb_hit:
  assumes "tlb_hit va at s = (Some pa, t)"
  shows "oob t = oob s"
proof -
  have "in_mem a 4" if "a < MEM_SIZE - 3" for a using that by (simp add: in_mem_def word_less_def)
  then show ?thesis using assms
    by (auto simp: tlb_hit_def Let_def store32_def split: option.splits if_splits)
qed

lemma oob_page_walk:
  assumes "page_walk va at s = (Some pa, t)"
  shows "oob t = oob s"
proof (cases "pt_walk (mem s) (satp s) va")
  case None
  then show ?thesis using assms by (simp add: page_walk_eq)
next
  case (Some w)
  obtain a p sp where w: "w = (a, p, sp)" by (cases w)
  note pt = pt_walk_Some [OF Some [unfolded w]]
  show ?thesis using assms
    unfolding page_walk_eq Some w option.case prod.case walk_leaf_eq [OF pt(2,1)] by (auto split: if_splits)
qed

lemma guard_translate:
  assumes "guarded s"
  shows "same_guard s (snd (mmu_translate va at s))"
proof (cases "fst (mmu_translate va at s)")
  case None
  then show ?thesis using mmu_translate_None [OF None] guard_page_fault [OF assms] by simp
next
  case (Some pa)
  then obtain t where m: "mmu_translate va at s = (Some pa, t)" by (metis prod.collapse)
  have "oob t = oob s"
    using m oob_tlb_hit [of va at s pa t] oob_page_walk [of va at s pa t]
    by (auto simp: mmu_translate_def split: if_splits)
  then show ?thesis
    using beyond_memory_cong [OF beyond_memory_translate [OF m]] by (simp add: same_guard_def m)
qed

lemma guard_translated: "mmu_translate va at s = (r, t) \<Longrightarrow> guarded s \<Longrightarrow> same_guard s t \<and> guarded t"
  using guard_translate [of s va at] same_guard_guarded [of s t] by simp

lemma guard_mmio_read: "guarded s \<Longrightarrow> same_guard s (snd (mmio_read a s))"
  by (simp add: mmio_read_def Let_def guard_raise) (simp add: same_guard_def)

lemma blk_oob:
  assumes "blk_buffer s \<noteq> 0xFFFFFE00"
  shows "oob (blk_command v s) = oob s"
proof -
  have "in_mem (blk_buffer s) 512" if a: "blk_buffer s AND 0x1FF = 0" "blk_buffer s + 512 \<le> MEM_SIZE"
  proof -
    obtain x where x: "uint (blk_buffer s) = x" "0 \<le> x" "x < 4294967296" by (rule uint_u32_cases)
    have d: "512 dvd x" using a(1) x(1) by (simp add: and_1FF_dvd)
    have "x \<noteq> 4294966784"
    proof
      assume "x = 4294966784"
      then have "uint (blk_buffer s) = uint (0xFFFFFE00 :: u32)" using x(1) by simp
      then show False using assms by (simp only: word_uint_eq_iff)
    qed
    moreover obtain k where k: "x = 512 * k" using d by (auto elim: dvdE)
    ultimately have "k < 8388608" "k \<noteq> 8388607" using x(3) by auto
    then have "x + 512 < 4294967296" using k by linarith
    then have "uint (blk_buffer s + 512) = x + 512" by (subst uint_add_u32) (simp add: x(1))
    then show ?thesis using a(2) x(1) by (simp add: in_mem_def word_le_def)
  qed
  then show ?thesis
    by (simp add: blk_command_def blk_transfer_def Let_def touch_def split: option.split)
qed

lemma uart_write_oob: "oob (uart_write o' v s) = oob s"
  by (simp add: uart_write_def Let_def)

lemma sv_write_oob: "oob (sv_write o' v s) = oob s"
  by (simp add: sv_write_def tlb_flush_non_global_def)

lemma oob_mmio_write: "guarded s \<Longrightarrow> oob (mmio_write a v s) = oob s"
  by (simp add: mmio_write_def Let_def uart_write_oob sv_write_oob blk_oob guarded_def oob_raise_aligned)

lemma in_mem_pa:
  "pa < MEM_SIZE \<Longrightarrow> pa AND 3 = 0 \<Longrightarrow> touch pa 4 s = s"
  "pa < MEM_SIZE \<Longrightarrow> touch pa (Suc 0) s = s"
  by (simp add: in_mem_aligned) (simp add: touch_def in_mem_def word_less_def)

lemma in_mem_pa2: "pa < MEM_SIZE \<Longrightarrow> pa AND 1 = 0 \<Longrightarrow> touch pa 2 s = s"
proof -
  assume "pa < MEM_SIZE" "pa AND 1 = 0"
  then have "\<not> bit (uint pa) 0" "uint pa < 0x04000000"
    by (simp_all add: and_1_eq_0 word_less_def bit_uint_iff)
  then have "even (uint pa)" "uint pa < 0x04000000" by (simp_all add: bit_0)
  then have "uint pa + 2 \<le> 0x04000000" by presburger
  then show ?thesis by (simp add: in_mem_def)
qed

lemma guard_reads:
  assumes "guarded s"
  shows "same_guard s (snd (cpu_read32 a s))" "same_guard s (snd (cpu_read16 a s))" "same_guard s (snd (cpu_read8 a s))"
proof -
  note tr = guard_translated [OF _ assms]
  have r: "same_guard s (raise_exception c t)" if "mmu_translate a Load s = (Some pa, t)" for pa t c
    using tr [OF that] guard_raise gd.R_trans by blast
  have m: "same_guard s (snd (mmio_read pa t))" if "mmu_translate a Load s = (Some pa, t)" for pa t
    using tr [OF that] guard_mmio_read gd.R_trans by blast
  then have m': "same_guard s u" if "mmu_translate a Load s = (Some pa, t)" "mmio_read pa t = (v, u)" for pa t v u
    using that by (metis snd_conv)
  show "same_guard s (snd (cpu_read32 a s))" "same_guard s (snd (cpu_read16 a s))" "same_guard s (snd (cpu_read8 a s))"
    unfolding cpu_read32_def cpu_read16_def cpu_read8_def
    by (auto simp: in_mem_pa in_mem_pa2 linorder_not_le dest: tr split: prod.split option.split intro: r m m')
qed

lemma oob_writes:
  assumes "guarded s"
  shows "oob (cpu_write32 a v s) = oob s" "oob (cpu_write16 a w s) = oob s" "oob (cpu_write8 a b s) = oob s"
proof -
  have tr: "guarded t \<and> oob t = oob s" if "mmu_translate a Store s = (r, t)" for r t
    using guard_translated [OF that assms] by (simp add: same_guard_def)
  have r: "oob (raise_exception c t) = oob t" if "guarded t" for c t
    using that by (simp add: guarded_def oob_raise_aligned)
  show "oob (cpu_write32 a v s) = oob s" "oob (cpu_write16 a w s) = oob s" "oob (cpu_write8 a b s) = oob s"
    unfolding cpu_write32_def cpu_write16_def cpu_write8_def store32_def store16_def store8_def
    by (auto simp: in_mem_pa in_mem_pa2 linorder_not_le oob_mmio_write r dest: tr split: prod.split option.split)
qed

lemma oob_set_reg [simp]: "oob (set_reg i v s) = oob s"
  by (simp add: set_reg_def)

lemma oob_load: "same_guard s (snd p) \<Longrightarrow> oob (load_reg rd f p) = oob s"
  by (cases p) (simp add: load_reg_def same_guard_def)

lemma oob_muldiv: "guarded s \<Longrightarrow> oob (exec_muldiv d s) = oob s"
  by (simp add: exec_muldiv_def Let_def guarded_def oob_raise_aligned muldiv_result_def update_flags_nz_def signed_ub_def)

lemma oob_indexed: "guarded s \<Longrightarrow> oob (exec_indexed d s) = oob s"
  by (simp add: exec_indexed_def Let_def oob_load guard_reads oob_writes)

lemma oob_loadstore:
  assumes "guarded s"
  shows "oob (exec_loadstore d s) = oob s"
proof -
  obtain a t where a: "signed_addr d s = (a, t)" by fastforce
  have p: "same_guard s t" using a gd.R_signed_ub by (auto simp: signed_addr_def Let_def)
  have g: "guarded t" using same_guard_guarded [OF p] assms by simp
  have "oob (exec_loadstore d s) = oob t"
    by (simp add: exec_loadstore_def Let_def a oob_load [OF guard_reads(1) [OF g]] oob_load [OF guard_reads(2) [OF g]]
        oob_load [OF guard_reads(3) [OF g]] oob_writes [OF g])
  then show ?thesis using p by (simp add: same_guard_def)
qed

lemma oob_cas:
  assumes "guarded s"
  shows "oob (exec_cas d s) = oob s"
proof -
  let ?a = "regs s (d_rs1 d)"
  have r: "oob (raise_exception c s) = oob s" for c using guard_raise [OF assms] by (simp add: same_guard_def)
  have m: "guarded t \<and> oob t = oob s" if "mmio_read ?a s = (v, t)" for v t
    using guard_mmio_read [OF assms, of ?a] same_guard_guarded [of s t] assms that by (simp add: same_guard_def)
  have st: "oob (store32 ?a x s) = oob s" if "?a AND 3 = 0" "\<not> MEM_SIZE \<le> ?a" for x
    using that by (simp add: store32_def in_mem_pa linorder_not_le)
  show ?thesis
    by (auto simp: exec_cas_def Let_def r in_mem_pa linorder_not_le st oob_mmio_write
        dest: m split: prod.split if_split_asm)
qed

lemma oob_control: "guarded s \<Longrightarrow> oob (exec_control pc d s) = oob s"
  by (simp add: exec_control_def guarded_def oob_raise_aligned split: option.split)

lemma oob_system: "guarded s \<Longrightarrow> oob (exec_system d s) = oob s"
proof -
  assume g: "guarded s"
  then have "in_mem (evec s + 12) 4" if "evec s + 12 < MEM_SIZE"
    using aligned_vector [of s 3] in_mem_aligned [of "evec s + 12"] that by (simp add: guarded_def)
  then have "oob (sys_call s) = oob s"
    by (simp add: sys_call_def vector_pc_def touch_def)
  with g show ?thesis
    by (simp add: exec_system_def sys_ret_def k_ret_def guarded_def oob_raise_aligned tlb_flush_non_global_def Let_def)
qed

lemma oob_exec:
  assumes "guarded s"
  shows "oob (exec_instr pc d s) = oob s"
proof -
  have reg: "oob (exec_rtype d s) = oob s" "oob (exec_addc d s) = oob s" "oob (exec_subc d s) = oob s"
    "oob (exec_rotate d s) = oob s" "oob (exec_shift_reg d s) = oob s" "oob (exec_itype d s) = oob s"
    using gd.R_exec_regs [of s d] by (simp_all add: same_guard_def)
  have r: "oob (raise_exception c s) = oob s" for c using guard_raise [OF assms] by (simp add: same_guard_def)
  show ?thesis
    unfolding exec_instr_def Let_def
    by (simp add: reg r oob_muldiv [OF assms] oob_indexed [OF assms] oob_loadstore [OF assms]
        oob_cas [OF assms] oob_control [OF assms] oob_system [OF assms])
qed

subsection \<open>Fetch\<close>

lemma and3_or: "(a OR b) AND 3 = (0 :: u32) \<longleftrightarrow> a AND 3 = 0 \<and> b AND 3 = 0"
proof -
  have "(a OR b) AND 3 = (a AND 3) OR (b AND 3)" by (rule bit.conj_disj_distrib2)
  then show ?thesis by (simp add: or_eq_0_iff)
qed

lemma and3_and: "a AND 3 = (0 :: u32) \<Longrightarrow> (a AND b) AND 3 = 0"
proof -
  assume "a AND 3 = 0"
  moreover have "(a AND b) AND 3 = (a AND 3) AND b" by (simp only: ac_simps)
  ultimately show ?thesis by simp
qed

lemma fetch_aligned:
  assumes "tlb_wf s" "va AND 3 = 0" "fst (mmu_translate va at s) = Some pa"
  shows "pa AND 3 = 0"
proof (cases "satp s AND 0x80000000 = 0 \<or> va \<ge> MMIO_BASE")
  case True
  then show ?thesis using assms by (auto simp: mmu_translate_def split: if_splits)
next
  case False
  have va: "(va AND m) AND 3 = 0" for m using assms(2) by (rule and3_and)
  show ?thesis
  proof (cases "tlb_match va s")
    case True
    then have "fst (tlb_hit va at s) = Some pa" using False assms(3) by (simp add: mmu_translate_def)
    then show ?thesis
      using assms(1) va by (auto simp: tlb_hit_def Let_def tlb_wf_def and3_or split: option.splits if_splits)
  next
    case nomatch: False
    have leaf: "leaf_pa sp p va AND 3 = 0" for sp p
      using va by (simp add: leaf_pa_def Let_def and3_or aligned_push_bit del: push_bit_and)
    have "fst (page_walk va at s) = Some pa" using nomatch False assms(3) by (simp add: mmu_translate_def)
    then show ?thesis using leaf
      by (auto simp: fst_page_walk translate_spec_def split: option.splits if_splits)
  qed
qed

lemma guard_fetch:
  assumes "guarded s" "tlb_wf s" "pc AND 3 = 0"
  shows "same_guard s (snd (cpu_fetch pc s))"
proof -
  obtain r t where m: "mmu_translate pc Fetch s = (r, t)" by fastforce
  note g = guard_translated [OF m assms(1)]
  have al: "pa AND 3 = 0" if "r = Some pa" for pa
    using fetch_aligned [OF assms(2,3), of Fetch pa] m that by simp
  show ?thesis
    using g al gd.R_trans [OF _ guard_raise, of s t] by (auto simp: cpu_fetch_def m in_mem_pa linorder_not_le split: option.split)
qed

lemma evec_end_of_step: "evec (end_of_step skip s) = evec s"
  by (simp add: end_of_step_def interrupt_check_def Let_def housekeeping_frame)

lemma oob_end_of_step: "evec s AND 3 = 0 \<Longrightarrow> oob (end_of_step skip s) = oob s"
  by (simp add: end_of_step_def interrupt_check_def Let_def housekeeping_frame oob_raise_aligned)

lemma step_in_bounds:
  assumes "machine_wf s" "guarded s" "regs s PC AND 3 = 0" "evec (cpu_step s) AND 3 = 0"
  shows "oob (cpu_step s) = oob s"
proof -
  define s0 where "s0 = s\<lparr>faulting_pc := regs s PC\<rparr>"
  have g0: "guarded s0" "tlb_wf s0" "oob s0 = oob s"
    using assms(1,2) by (simp_all add: s0_def guarded_def machine_wf_def tlb_wf_def)
  obtain r s1 where f: "cpu_fetch (regs s PC) s0 = (r, s1)" by fastforce
  have g1: "oob s1 = oob s" "guarded s1"
    using guard_fetch [OF g0(1,2) assms(3)] same_guard_guarded [of s0 s1] g0 by (simp_all add: f same_guard_def)
  show ?thesis
  proof (cases r)
    case None
    then show ?thesis using g1 f
      by (simp add: cpu_step_def Let_def s0_def oob_end_of_step guarded_def)
  next
    case (Some i)
    let ?s2 = "set_reg PC (regs s PC + 4) s1" and ?d = "decode i"
    let ?s3 = "exec_instr (regs s PC) ?d ?s2"
    have g2: "guarded ?s2" using same_guard_guarded [OF gd.R_set_reg] g1(2) by simp
    have step: "cpu_step s = end_of_step (skips_irq ?d ?s2) ?s3"
      using f Some by (simp add: cpu_step_def Let_def s0_def)
    then have "evec ?s3 AND 3 = 0" using assms(4) by (simp add: evec_end_of_step)
    then show ?thesis using oob_exec [OF g2] g1(1) by (simp add: step oob_end_of_step)
  qed
qed

text \<open>The one buffer address that passes the wrapping check and is out of bounds.\<close>

lemma blk_buffer_wraps:
  "blk_file s = Some f \<Longrightarrow> blk_buffer s = 0xFFFFFE00 \<Longrightarrow> v \<in> {1, 2} \<Longrightarrow> oob (blk_command v s)"
  by (auto simp: blk_command_def blk_transfer_def Let_def touch_def in_mem_def)

text \<open>A fetch that is not word-aligned at the end of memory is not refused either: \<open>cpu_fetch\<close> checks the
  address of the first byte only.\<close>

lemma misaligned_fetch_oob:
  "satp s AND 0x80000000 = 0 \<Longrightarrow> pc \<in> {0x03FFFFFD, 0x03FFFFFE, 0x03FFFFFF} \<Longrightarrow> oob (snd (cpu_fetch pc s))"
  by (auto simp: cpu_fetch_def mmu_translate_def touch_def in_mem_def word_le_def)

subsection \<open>Runs that stay in bounds\<close>

text \<open>C38: Memory safety of the emulator: started from a program that loads in bounds, no access of any step
  leaves the array \<open>mem\<close>, for any program and input, as long as in every state it reaches the guest
  keeps its vector table and program counter word-aligned and does not hold 0xFFFFFE00 in the
  block device's buffer register. All translated accesses, page table walks, dirty-bit updates
  through the translation buffer, device accesses and compare-and-swaps need no such condition.
  The conditions are needed: \<open>misaligned_fetch_oob\<close>, \<open>blk_buffer_wraps\<close>.\<close>

theorem run_in_bounds:
  assumes "boot a f blk input = Some s" "\<not> oob s" "emu_steps s t"
    and "\<And>u. emu_steps s u \<Longrightarrow> guarded u \<and> regs u PC AND 3 = 0"
  shows "\<not> oob t"
  using assms(3)
proof (induction rule: rtranclp_induct)
  case base
  show ?case by (rule assms(2))
next
  case (step u t)
  have "machine_wf u" using wf.R_emu_steps [OF step.hyps(1)] wf_boot [OF assms(1)] by blast
  moreover have "guarded u \<and> regs u PC AND 3 = 0" "guarded t"
    using assms(4) step.hyps by (auto intro: rtranclp.rtrancl_into_rtrancl)
  moreover have "t = cpu_step u" using step.hyps(2) by (simp add: emu_step_iff)
  ultimately show ?case using step_in_bounds [of u] step.IH by (simp add: guarded_def)
qed

text \<open>A one-instruction program, HALT.\<close>

definition halt_boot :: machine where
  "halt_boot = the (boot 0 [0, 0, 0, 0x12] None [])"

lemma halt_boot_eq: "boot 0 [0, 0, 0, 0x12] None [] = Some halt_boot"
  by (simp add: halt_boot_def boot_def is_elf_def Let_def)

lemma halt_boot_fields:
  "regs halt_boot PC = 0" "evec halt_boot = 0" "blk_buffer halt_boot = 0" "\<not> oob halt_boot" "satp halt_boot = 0"
  "mem_read32 (mem halt_boot) 0 = 0x12000000"
  by (simp_all add: halt_boot_def boot_def is_elf_def Let_def load_flat_def host_store_def cpu_reset_def
      tlb_flush_all_def zero_machine_def set_reg_def host_fread_def mem_fill_def mem_read32_def le32_def)

lemma halt_boot_step:
  "stopped (cpu_step halt_boot)" "regs (cpu_step halt_boot) PC = 4" "evec (cpu_step halt_boot) = 0"
  "blk_buffer (cpu_step halt_boot) = 0"
  by (simp_all add: cpu_step_def Let_def cpu_fetch_def mmu_translate_def halt_boot_fields decode_def
     exec_instr_def exec_system_def end_of_step_def set_reg_def touch_def word_le_def stopped_def housekeeping_frame)

lemma halt_boot_reaches: "emu_steps halt_boot u \<Longrightarrow> u = halt_boot \<or> u = cpu_step halt_boot"
  by (induction rule: rtranclp_induct) (auto simp: emu_step_iff halt_boot_step)

lemma run_in_bounds_witness: "\<not> oob (cpu_step halt_boot)"
proof (rule run_in_bounds [OF halt_boot_eq])
  show "emu_steps halt_boot (cpu_step halt_boot)"
    using wf_boot [OF halt_boot_eq] by (auto intro: emu_step.intros)
  show "guarded u \<and> regs u PC AND 3 = 0" if "emu_steps halt_boot u" for u
    using halt_boot_reaches [OF that] by (auto simp: guarded_def halt_boot_fields halt_boot_step)
qed (rule halt_boot_fields)

end
