(* ===== verification/Stepping.thy ===== *)
theory Stepping
  imports Traps
begin

text \<open>
  Iterations of the loop that nothing disturbs: with translation off and interrupts disabled, one
  iteration of \<open>cpu_run\<close> fetches the word at PC, advances PC and executes the word; the timer and
  the console then leave registers and memory alone. The lemmas carry statements about
  \<open>exec_instr\<close> to \<open>run_steps\<close>, so that they speak of code in memory.
\<close>

definition undisturbed :: "machine \<Rightarrow> bool" where
  "undisturbed s \<longleftrightarrow> satp s AND 0x80000000 = 0 \<and> status s AND 2 = 0 \<and> \<not> stopped s"

text \<open>The words \<open>ws\<close> are in memory from address \<open>p\<close> on.\<close>

fun code_at :: "u32 \<Rightarrow> u32 list \<Rightarrow> machine \<Rightarrow> bool" where
  "code_at p [] s = True"
| "code_at p (w # ws) s \<longleftrightarrow> p < MEM_SIZE \<and> mem_read32 (mem s) p = w \<and> code_at (p + 4) ws s"

lemma code_at_cong: "mem s = mem t \<Longrightarrow> code_at p ws s = code_at p ws t"
  by (induction p ws s rule: code_at.induct) simp_all

text \<open>The machine as the switch finds it after the fetch.\<close>

definition fetched :: "machine \<Rightarrow> machine" where
  "fetched s = set_reg PC (regs s PC + 4) (touch (regs s PC) 4 (s\<lparr>faulting_pc := regs s PC\<rparr>))"

lemma fetched_fields [simp]:
  "regs (fetched s) = (regs s)(PC := regs s PC + 4)" "mem (fetched s) = mem s" "satp (fetched s) = satp s"
  "status (fetched s) = status s" "halted (fetched s) = halted s" "exited (fetched s) = exited s"
  "stdin_q (fetched s) = stdin_q s"
  by (simp_all add: fetched_def set_reg_def touch_def)

lemma quiet_end:
  assumes "status s AND 2 = 0"
  shows "regs (end_of_step b s) = regs s" "mem (end_of_step b s) = mem s" "satp (end_of_step b s) = satp s"
    "status (end_of_step b s) = status s"
  using assms by (simp_all add: end_of_step_def interrupt_check_def housekeeping_frame Let_def)

lemma undisturbed_end:
  assumes "undisturbed s" "code_at (regs s PC) (w # ws) s" "t = exec_instr (regs s PC) (decode w) (fetched s)"
  shows "\<exists>b. cpu_step s = end_of_step b t"
proof -
  have "cpu_fetch (regs s PC) (s\<lparr>faulting_pc := regs s PC\<rparr>) =
      (Some w, touch (regs s PC) 4 (s\<lparr>faulting_pc := regs s PC\<rparr>))"
    using assms(1,2) by (simp add: cpu_fetch_def mmu_translate_def undisturbed_def not_le)
  then show ?thesis by (auto simp: cpu_step_def Let_def fetched_def touch_def assms(3))
qed

lemma undisturbed_step:
  assumes "undisturbed s" "code_at (regs s PC) (w # ws) s" "t = exec_instr (regs s PC) (decode w) (fetched s)"
    and "status t AND 2 = 0"
  shows "regs (cpu_step s) = regs t" "mem (cpu_step s) = mem t" "satp (cpu_step s) = satp t"
    "status (cpu_step s) = status t"
  using undisturbed_end [OF assms(1-3)] quiet_end [OF assms(4)] by auto

text \<open>Nobody quits when there is no input.\<close>

lemma poll_nothing:
  assumes "stdin_q s = []"
  shows "\<exists>v. poll_divided s = s\<lparr>uart_poll_divider := v\<rparr>"
  using assms by (auto simp: poll_divided_def uart_poll_def read_one_def Let_def intro: exI)

lemma undisturbed_goes_on:
  assumes "undisturbed s" "code_at (regs s PC) (w # ws) s" "t = exec_instr (regs s PC) (decode w) (fetched s)"
    and "status t AND 2 = 0" "stdin_q t = []" "\<not> stopped t"
  shows "\<not> stopped (cpu_step s)"
proof -
  obtain b where b: "cpu_step s = end_of_step b t" using undisturbed_end [OF assms(1-3)] by blast
  obtain v where "poll_divided (timer_tick t) = (timer_tick t)\<lparr>uart_poll_divider := v\<rparr>"
    using poll_nothing [of "timer_tick t"] assms(5) by (auto simp: timer_tick_def Let_def)
  then show ?thesis
    using assms(4,6) by (simp add: b end_of_step_def interrupt_check_def housekeeping_frame stopped_def Let_def timer_tick_def)
qed

text \<open>Two instructions in a row, when the first is no jump and the user does not quit between them.\<close>

lemma undisturbed_two:
  assumes "undisturbed s" "code_at (regs s PC) [w1, w2] s" "\<not> stopped (cpu_step s)"
    and t: "t = exec_instr (regs s PC) (decode w1) (fetched s)" "regs t PC = regs s PC + 4"
      "satp t = satp s" "status t = status s" "mem t = mem s"
    and "\<And>v. regs v = regs t \<Longrightarrow> mem v = mem t \<Longrightarrow> satp v = satp t \<Longrightarrow> status v = status t \<Longrightarrow>
      status (exec_instr (regs s PC + 4) (decode w2) (fetched v)) = status s \<and>
      regs (exec_instr (regs s PC + 4) (decode w2) (fetched v)) = r \<and>
      mem (exec_instr (regs s PC + 4) (decode w2) (fetched v)) = m"
  shows "regs (run_steps 2 s) = r \<and> mem (run_steps 2 s) = m"
proof -
  let ?v = "cpu_step s"
  have st: "status s AND 2 = 0" "satp s AND 0x80000000 = 0" "\<not> stopped s"
    using assms(1) by (simp_all add: undisturbed_def)
  note v = undisturbed_step [OF assms(1,2) t(1)]
  have v: "regs ?v = regs t" "mem ?v = mem t" "satp ?v = satp t" "status ?v = status t"
    using v st(1) t(4) by simp_all
  have u: "undisturbed ?v" using v t st assms(3) by (simp add: undisturbed_def)
  have c: "code_at (regs ?v PC) [w2] ?v" using assms(2) v t(2,5) by simp
  note last = assms(9) [OF v]
  have "run_steps 2 s = cpu_step ?v" using st(3) assms(3) by (simp add: numeral_2_eq_2)
  then show ?thesis
    using undisturbed_step(1,2) [OF u c refl] last v(1) t(2) st(1) by simp
qed

text \<open>Two words that write one register in turn, as the pairs that load a 32-bit constant.\<close>

lemma set_pair_runs:
  assumes "undisturbed s" "\<not> stopped (cpu_step s)" "code_at (regs s PC) [w1, w2] s" "rd \<noteq> PC"
    and w1: "\<And>u. exec_instr (regs s PC) (decode w1) u = set_reg rd x u"
    and w2: "\<And>u. exec_instr (regs s PC + 4) (decode w2) u = set_reg rd (f (regs u rd)) u"
  shows "regs (run_steps 2 s) = (regs s)(rd := f x, PC := regs s PC + 8) \<and> mem (run_steps 2 s) = mem s"
proof (rule undisturbed_two [OF assms(1,3,2) refl])
  let ?t = "exec_instr (regs s PC) (decode w1) (fetched s)"
  show t: "regs ?t PC = regs s PC + 4" "satp ?t = satp s" "status ?t = status s" "mem ?t = mem s"
    using assms(4) by (simp_all add: w1 set_reg_def)
  fix v :: machine
  assume v: "regs v = regs ?t" "mem v = mem ?t" "satp v = satp ?t" "status v = status ?t"
  let ?u = "exec_instr (regs s PC + 4) (decode w2) (fetched v)"
  have "regs v rd = x" using assms(4) by (simp add: v w1 set_reg_def)
  then have r: "regs ?u = (regs s)(rd := f x, PC := regs s PC + 8)"
    using assms(4) v(1) by (auto simp: w1 w2 set_reg_def fun_eq_iff)
  have "status ?u = status s" "mem ?u = mem s" using v t by (simp_all add: w2 set_reg_def)
  with r show "status ?u = status s \<and> regs ?u = (regs s)(rd := f x, PC := regs s PC + 8) \<and> mem ?u = mem s"
    by blast
qed

end
