(* ===== verification/Idle.thy ===== *)
theory Idle
  imports Stepping
begin

text \<open>
  The idle loop of a kernel: with interrupts enabled and the timer running, the processor executes
  a branch to itself until the timer interrupt takes it away (\<open>cpu_run\<close>, \<open>timer_tick\<close> and
  \<open>interrupt_check\<close> of \<open>emulator.c\<close>). The lemmas compose the fetch, the branch and the work between
  two instructions; the theorem says that the handler is reached, and when.
\<close>

text \<open>At \<open>p\<close>, an untranslated \<open>BA .\<close>, with the timer interrupt awaited and no other one pending.\<close>

definition idle_at :: "u32 \<Rightarrow> machine \<Rightarrow> bool" where
  "idle_at p s \<longleftrightarrow> regs s PC = p \<and> p < MEM_SIZE \<and> mem_read32 (mem s) p = 0x0D600000 \<and>
     satp s AND 0x80000000 = 0 \<and> status s AND 2 \<noteq> 0 \<and> timer_control s AND 1 \<noteq> 0 \<and>
     timer_control s AND 2 \<noteq> 0 \<and> ic_mask s AND 1 \<noteq> 0 \<and> ic_pending s AND ic_mask s = 0 \<and>
     stdin_q s = [] \<and> \<not> stopped s"

lemma idle_step:
  assumes "idle_at p s"
  shows "\<exists>v. cpu_step s =
    interrupt_check ((timer_tick (s\<lparr>faulting_pc := p, oob := oob s \<or> \<not> in_mem p 4\<rparr>))\<lparr>uart_poll_divider := v\<rparr>)"
proof -
  note a = assms [unfolded idle_at_def]
  let ?t = "s\<lparr>faulting_pc := p, oob := oob s \<or> \<not> in_mem p 4\<rparr>"
  let ?d = "decode 0x0D600000"
  have d: "d_op ?d = 0x0D" "d_rd ?d = 6" "d_soff ?d = 0" by (simp_all add: decode_def Let_def)
  have f: "cpu_fetch p (s\<lparr>faulting_pc := p\<rparr>) = (Some 0x0D600000, ?t)"
    using a by (simp add: cpu_fetch_def mmu_translate_def touch_def not_le)
  have "exec_instr p ?d (set_reg PC (p + 4) ?t) = ?t\<lparr>regs := (regs s)(PC := p)\<rparr>"
    by (simp add: exec_op(13) [OF d(1)] exec_control_def d branch_taken_def set_reg_def Let_def)
  also have "\<dots> = ?t" using a by (simp add: fun_upd_idem)
  finally have "cpu_step s = end_of_step False ?t"
    using a by (simp add: cpu_step_def f Let_def skips_irq_def d)
  moreover obtain v where "poll_divided (timer_tick ?t) = (timer_tick ?t)\<lparr>uart_poll_divider := v\<rparr>"
    using poll_nothing [of "timer_tick ?t"] a by (auto simp: timer_tick_def Let_def)
  ultimately show ?thesis
    using a by (auto simp: end_of_step_def housekeeping_frame stopped_def Let_def timer_tick_def)
qed

lemma idle_goes_on:
  assumes "idle_at p s" "1 < timer_count s"
  shows "idle_at p (cpu_step s) \<and> timer_count (cpu_step s) = timer_count s - 1 \<and>
    regs (cpu_step s) = regs s \<and> mem (cpu_step s) = mem s \<and> evec (cpu_step s) = evec s \<and> status (cpu_step s) = status s \<and>
    flags (cpu_step s) = flags s"
proof -
  note a = assms(1) [unfolded idle_at_def]
  have c: "0 < timer_count s" "timer_count s \<noteq> 1" using assms(2) by (auto simp: word_less_nat_alt)
  obtain v where v: "cpu_step s =
    interrupt_check ((timer_tick (s\<lparr>faulting_pc := p, oob := oob s \<or> \<not> in_mem p 4\<rparr>))\<lparr>uart_poll_divider := v\<rparr>)"
    using idle_step [OF assms(1)] by blast
  show ?thesis unfolding v
    using a c by (simp add: timer_tick_eq interrupt_check_def idle_at_def stopped_def)
qed

lemma word_neq_0_of_bit: "bit (x :: u32) n \<Longrightarrow> x \<noteq> 0"
  by auto

lemma word_le_1: "(x :: u32) \<le> 1 \<longleftrightarrow> x = 0 \<or> x = 1"
  by (auto simp: word_le_nat_alt word_unat_eq_iff le_Suc_eq)

lemma idle_ends:
  assumes "idle_at p s" "timer_count s \<le> 1"
  shows "regs (cpu_step s) = (regs s)(PC := handler 6 s) \<and> epc (cpu_step s) = p \<and> eflags (cpu_step s) = flags s \<and>
    estatus (cpu_step s) = status s \<and> cause (cpu_step s) = 6 \<and> status (cpu_step s) = 1 \<and> mem (cpu_step s) = mem s"
proof -
  note a = assms(1) [unfolded idle_at_def]
  let ?s = "s\<lparr>faulting_pc := p, oob := oob s \<or> \<not> in_mem p 4\<rparr>"
  obtain v where v: "cpu_step s = interrupt_check ((timer_tick ?s)\<lparr>uart_poll_divider := v\<rparr>)"
    using idle_step [OF assms(1)] by blast
  have "timer_count s = 0 \<or> timer_count s = 1" using assms(2) by (simp add: word_le_1)
  then have t: "timer_tick ?s = ?s\<lparr>timer_count := timer_period s, ic_pending := ic_pending s OR 1\<rparr>"
    using a by (elim disjE) (simp_all add: timer_tick_def Let_def)
  let ?u = "?s\<lparr>timer_count := timer_period s, ic_pending := ic_pending s OR 1, uart_poll_divider := v\<rparr>"
  have "bit (ic_mask s) 0" using a by (simp add: and_1_eq_0)
  then have "bit ((ic_pending s OR 1) AND ic_mask s) 0" by (simp add: bit_or_iff bit_and_iff)
  then have "(ic_pending s OR 1) AND ic_mask s \<noteq> 0" by (rule word_neq_0_of_bit)
  with a have irq: "ic_pending ?u AND ic_mask ?u \<noteq> 0" "status ?u AND 2 \<noteq> 0" by simp_all
  have "handler 6 (?u\<lparr>faulting_pc := regs ?u PC\<rparr>) = handler 6 s" by (rule handler_cong) simp_all
  then show ?thesis unfolding v t interrupt_taken [OF irq(2,1)] using a by simp
qed

text \<open>C11: Liveness of the timer interrupt: a kernel that waits in a branch to itself, with interrupts
  enabled and the timer on, does not wait for ever. After exactly as many iterations as the timer
  has left to count (one, when it has none) the machine is at the handler of the interrupt, in
  supervisor mode with the address of the loop, the flags and the status saved and everything
  else in place, and in every iteration before it was still waiting.\<close>

theorem idle_interrupted:
  assumes "idle_at p s" "n = max 1 (unat (timer_count s))" "t = run_steps n s"
  shows "regs t = (regs s)(PC := handler 6 s) \<and> epc t = p \<and> eflags t = flags s \<and> estatus t = status s \<and>
    cause t = 6 \<and> status t = 1 \<and> mem t = mem s \<and> (\<forall>m<n. idle_at p (run_steps m s))"
  using assms
proof (induction n arbitrary: s t)
  case 0
  then show ?case by simp
next
  case (Suc n)
  have run: "\<not> stopped s" using Suc.prems(1) by (simp add: idle_at_def)
  show ?case
  proof (cases "timer_count s \<le> 1")
    case True
    then have "unat (timer_count s) \<le> 1" by (simp add: word_le_nat_alt)
    then have "n = 0" using Suc.prems(2) by linarith
    then show ?thesis using idle_ends [OF Suc.prems(1) True] Suc.prems(1,3) run by simp
  next
    case False
    then have c: "1 < timer_count s" by simp
    let ?s = "cpu_step s"
    note step = idle_goes_on [OF Suc.prems(1) c]
    have "unat (timer_count ?s) = unat (timer_count s) - 1"
      using step c by (simp add: unat_sub_if' word_less_nat_alt)
    then have n: "n = max 1 (unat (timer_count ?s))"
      using Suc.prems(2) c by (simp add: word_less_nat_alt)
    have t: "t = run_steps n ?s" using Suc.prems(3) run by simp
    have "handler 6 ?s = handler 6 s" using step by (intro handler_cong) simp_all
    then have goal: "regs t = (regs s)(PC := handler 6 s) \<and> epc t = p \<and> eflags t = flags s \<and> estatus t = status s \<and>
      cause t = 6 \<and> status t = 1 \<and> mem t = mem s" and waits: "\<forall>m<n. idle_at p (run_steps m ?s)"
      using Suc.IH [OF _ n t] step by (simp_all add: fun_upd_def)
    have "idle_at p (run_steps m s)" if "m < Suc n" for m
      using that waits Suc.prems(1) run by (cases m) simp_all
    with goal show ?thesis by blast
  qed
qed

definition idle_machine :: machine where
  "idle_machine = zero_machine\<lparr>mem := mem_write32 (\<lambda>a. 0) 0 0x0D600000, status := 3, timer_control := 3,
     timer_count := 5, ic_mask := 1\<rparr>"

lemma idle_interrupted_witness: "epc (run_steps 5 idle_machine) = 0 \<and> status (run_steps 5 idle_machine) = 1"
  using idle_interrupted [of 0 idle_machine 5, OF _ _ refl]
  by (simp add: idle_at_def idle_machine_def zero_machine_def stopped_def)

end
