(* ===== verification/Lexer.thy ===== *)
theory Lexer
  imports Prelude "HOL-Library.Char_ord"
begin

text \<open>
  The tokenizer of the assembler (\<open>assembler.c\<close>, lines 385 to 501). A line is the list of its
  characters (a C string, so no NUL); \<open>tok_ptr\<close> is what is left of it, which every function
  returns. A stored token is a value of \<open>token\<close>; TOK_EOF and the error return are the result
  \<open>None\<close> of \<open>next_token\<close>, which also says whether \<open>asm_error\<close> was called. A backslash that
  ends the line inside a string makes the program read one character further; that character is
  the zero of the static line buffer, as the model has it, unless the line fills its buffer.
\<close>

datatype token =
    TIdent string
  | TInt u64
  | TString string
  | TComma
  | TLBracket
  | TRBracket
  | TPlus
  | TMinus
  | TRShift
  | TColon string
  | TDotIdent string

abbreviation NUL :: char where "NUL \<equiv> CHR 0x00"
abbreviation NL :: char where "NL \<equiv> CHR 0x0A"
abbreviation TAB :: char where "TAB \<equiv> CHR 0x09"
abbreviation QUOTE :: char where "QUOTE \<equiv> CHR 0x22"
abbreviation BACKSLASH :: char where "BACKSLASH \<equiv> CHR 0x5C"

abbreviation MAX_TOKS :: nat where "MAX_TOKS \<equiv> 64"
abbreviation STR_MAX :: nat where "STR_MAX \<equiv> 255"

subsection \<open>Characters\<close>

text \<open>The classes of \<open>ctype.h\<close> in the C locale.\<close>

definition isdigit :: "char \<Rightarrow> bool" where
  "isdigit c \<longleftrightarrow> CHR ''0'' \<le> c \<and> c \<le> CHR ''9''"

definition isupper :: "char \<Rightarrow> bool" where
  "isupper c \<longleftrightarrow> CHR ''A'' \<le> c \<and> c \<le> CHR ''Z''"

definition islower :: "char \<Rightarrow> bool" where
  "islower c \<longleftrightarrow> CHR ''a'' \<le> c \<and> c \<le> CHR ''z''"

definition isalpha :: "char \<Rightarrow> bool" where
  "isalpha c \<longleftrightarrow> isupper c \<or> islower c"

definition ident_char :: "char \<Rightarrow> bool" where
  "ident_char c \<longleftrightarrow> isalpha c \<or> isdigit c \<or> c = CHR ''_''"

text \<open>In ASCII the upper-case letter differs from the lower-case one in bit 5 only.\<close>

definition toupper :: "char \<Rightarrow> char" where
  "toupper c =
     (if islower c then (case c of Char b0 b1 b2 b3 b4 b5 b6 b7 \<Rightarrow> Char b0 b1 b2 b3 b4 False b6 b7) else c)"

text \<open>\<open>strcasecmp(a, b) == 0\<close>\<close>

definition same_case :: "string \<Rightarrow> string \<Rightarrow> bool" where
  "same_case a b \<longleftrightarrow> map toupper a = map toupper b"

definition is_ws :: "char \<Rightarrow> bool" where
  "is_ws c \<longleftrightarrow> c = CHR '' '' \<or> c = TAB"

definition skip_ws :: "string \<Rightarrow> string" where
  "skip_ws s = dropWhile is_ws s"

text \<open>The characters of a buffer up to the terminating NUL.\<close>

definition c_str :: "string \<Rightarrow> string" where
  "c_str s = takeWhile (\<lambda>c. c \<noteq> NUL) s"

subsection \<open>Numbers\<close>

text \<open>
  \<open>strtoull(s, &end, 0)\<close> for a string that starts with a digit: a prefix 0x selects base 16 when
  a hexadecimal digit follows, another leading 0 selects base 8; a number that does not fit
  gives the largest one.
\<close>

definition digit_val :: "char \<Rightarrow> nat" where
  "digit_val c =
     (if isdigit c then of_char c - 48 else if isupper c then of_char c - 55
      else if islower c then of_char c - 87 else 255)"

definition digits :: "nat \<Rightarrow> string \<Rightarrow> u64 \<times> string" where
  "digits b s =
     (let v = foldl (\<lambda>v c. int b * v + int (digit_val c)) 0 (takeWhile (\<lambda>c. digit_val c < b) s)
      in (word_of_int (min v 0xFFFFFFFFFFFFFFFF), dropWhile (\<lambda>c. digit_val c < b) s))"

fun strtoull :: "string \<Rightarrow> u64 \<times> string" where
  "strtoull (z # x # d # r) =
     (if z = CHR ''0'' \<and> (x = CHR ''x'' \<or> x = CHR ''X'') \<and> digit_val d < 16 then digits 16 (d # r)
      else if z = CHR ''0'' then digits 8 (z # x # d # r) else digits 10 (z # x # d # r))"
| "strtoull (z # r) = (if z = CHR ''0'' then digits 8 (z # r) else digits 10 (z # r))"
| "strtoull [] = (0, [])"

subsection \<open>Tokens\<close>

definition escape :: "char \<Rightarrow> char" where
  "escape c =
     (if c = CHR ''n'' then NL else if c = CHR ''r'' then CHR 0x0D else if c = CHR ''t'' then TAB
      else if c = CHR ''0'' then NUL else c)"

text \<open>The loop of a string literal; \<open>i\<close> counts the characters stored.\<close>

fun lex_string :: "nat \<Rightarrow> string \<Rightarrow> string \<times> string" where
  "lex_string i [] = ([], [])"
| "lex_string i (c # r) =
     (if c = QUOTE \<or> i \<ge> STR_MAX then ([], c # r)
      else if c = BACKSLASH then
        (case r of
           [] \<Rightarrow> ([NUL], [])
         | e # r \<Rightarrow> (case lex_string (i + 1) r of (s, rest) \<Rightarrow> (escape e # s, rest)))
      else (case lex_string (i + 1) r of (s, rest) \<Rightarrow> (c # s, rest)))"

definition lex_ident :: "string \<Rightarrow> string \<times> string" where
  "lex_ident s = (takeWhile ident_char s, dropWhile ident_char s)"

text \<open>
  The token if there is one, the rest of the line, and whether an error was reported: the cases
  of \<open>next_token\<close> for \<open>>\<close>, a string, a dot, a digit and a letter, given what follows (and, for
  the last two, with) the character.
\<close>

type_synonym lexed = "token option \<times> string \<times> bool"

definition lex_gt :: "string \<Rightarrow> lexed" where
  "lex_gt r =
     (case r of
        c2 # r2 \<Rightarrow> if c2 = CHR ''>'' then (Some TRShift, r2, False) else (None, r, True)
      | [] \<Rightarrow> (None, r, True))"

definition lex_quoted :: "string \<Rightarrow> lexed" where
  "lex_quoted r =
     (case lex_string 0 r of (s, rest) \<Rightarrow>
        (Some (TString s), (case rest of q # t \<Rightarrow> if q = QUOTE then t else rest | [] \<Rightarrow> rest), False))"

definition lex_dot :: "string \<Rightarrow> lexed" where
  "lex_dot r =
     (case lex_ident r of (s, rest) \<Rightarrow> (Some (TDotIdent (take STR_MAX (CHR ''.'' # s))), rest, False))"

definition lex_number :: "string \<Rightarrow> lexed" where
  "lex_number s = (case strtoull s of (v, rest) \<Rightarrow> (Some (TInt v), rest, False))"

definition lex_word :: "string \<Rightarrow> lexed" where
  "lex_word s =
     (case lex_ident s of (n, rest) \<Rightarrow>
        (case skip_ws rest of
           q # t \<Rightarrow>
             if q = CHR '':'' then (Some (TColon (take STR_MAX n)), t, False)
             else (Some (TIdent (take STR_MAX n)), q # t, False)
         | [] \<Rightarrow> (Some (TIdent (take STR_MAX n)), [], False)))"

definition next_token :: "string \<Rightarrow> lexed" where
  "next_token line =
     (case skip_ws line of
        [] \<Rightarrow> (None, [], False)
      | c # r \<Rightarrow>
          if c = NL \<or> c = CHR '';'' then (None, c # r, False)
          else if c = CHR '','' then (Some TComma, r, False)
          else if c = CHR ''['' then (Some TLBracket, r, False)
          else if c = CHR '']'' then (Some TRBracket, r, False)
          else if c = CHR ''+'' then (Some TPlus, r, False)
          else if c = CHR ''-'' then (Some TMinus, r, False)
          else if c = CHR ''>'' then lex_gt r
          else if c = QUOTE then lex_quoted r
          else if c = CHR ''.'' then lex_dot r
          else if isdigit c then lex_number (c # r)
          else if isalpha c \<or> c = CHR ''_'' then lex_word (c # r)
          else (None, r, True))"

fun tokens :: "nat \<Rightarrow> string \<Rightarrow> token list \<times> bool" where
  "tokens 0 line = ([], False)"
| "tokens (Suc n) line =
     (case next_token line of
        (None, _, err) \<Rightarrow> ([], err)
      | (Some t, rest, _) \<Rightarrow> (case tokens n rest of (ts, err) \<Rightarrow> (t # ts, err)))"

definition tokenize_line :: "string \<Rightarrow> token list \<times> bool" where
  "tokenize_line line = tokens MAX_TOKS line"

end
