(* ===== verification/Assembler.thy ===== *)
theory Assembler
  imports Lexer
begin

text \<open>
  The assembler's state, symbol table, expressions, emission and directives (\<open>assembler.c\<close>). The
  static variables are the record \<open>asm\<close>; \<open>as_errs\<close> is \<open>error_count\<close>. The index \<open>pos\<close> into a
  line's tokens is the list of the tokens left. A function that returns 0 or leaves its caller
  after \<open>asm_error\<close> returns \<open>None\<close>. \<open>as_ub\<close> records signed overflow and shifts by an amount
  outside 0 to 63, undefined in C. Functions take the pass (1 or 2) as in the source.
\<close>

subsection \<open>State\<close>

record Symbol =
  sm_name :: string
  sm_addr :: u32
  sm_global :: bool
  sm_defined :: bool
  sm_extern :: bool
  sm_label :: bool

record ObjReloc =
  or_offset :: u32
  or_sym :: u32
  or_type :: u8
  or_addend :: u32

record asm =
  as_syms :: "Symbol list"
  as_out :: "u32 \<Rightarrow> u8"
  as_org :: u32
  as_pos :: u32
  as_max :: u32
  as_obj :: bool
  as_base :: u32
  as_hint :: u32
  as_relocs :: "ObjReloc list"
  as_errs :: nat
  as_ub :: bool

abbreviation MAX_SYMS :: nat where "MAX_SYMS \<equiv> 4096"
abbreviation MAX_RELOCS :: nat where "MAX_RELOCS \<equiv> 65536"
abbreviation MAX_OUTPUT :: u32 where "MAX_OUTPUT \<equiv> 0x800000"

definition asm_error :: "asm \<Rightarrow> asm" where
  "asm_error s = s\<lparr>as_errs := as_errs s + 1\<rparr>"

definition asm_ub :: "bool \<Rightarrow> asm \<Rightarrow> asm" where
  "asm_ub b s = s\<lparr>as_ub := (as_ub s \<or> b)\<rparr>"

definition advance :: "u32 \<Rightarrow> asm \<Rightarrow> asm" where
  "advance n s = s\<lparr>as_org := as_org s + n\<rparr>"

text \<open>\<open>asm_error(...); return 0;\<close> and sequencing with the early return.\<close>

type_synonym 'a op = "asm \<Rightarrow> 'a option \<times> asm"

definition fail :: "'a op" where
  "fail s = (None, asm_error s)"

definition ret :: "'a \<Rightarrow> 'a op" where
  "ret x s = (Some x, s)"

definition andthen :: "'a op \<Rightarrow> ('a \<Rightarrow> 'b op) \<Rightarrow> 'b op" where
  "andthen m f s = (case m s of (None, s) \<Rightarrow> (None, s) | (Some x, s) \<Rightarrow> f x s)"

definition check :: "bool \<Rightarrow> unit op" where
  "check b s = (if b then (Some (), s) else fail s)"

subsection \<open>Registers\<close>

definition parse_register :: "string \<Rightarrow> nat option" where
  "parse_register s =
     (let n = foldl (\<lambda>v c. 10 * v + int (digit_val c)) 0 (drop 1 s)
      in if s \<noteq> [] \<and> (hd s = CHR ''r'' \<or> hd s = CHR ''R'') \<and> drop 1 s \<noteq> [] \<and> list_all isdigit (drop 1 s) \<and> n \<le> 15
         then Some (nat n)
         else if same_case s ''sp'' then Some 13
         else if same_case s ''lr'' then Some 14
         else if same_case s ''pc'' then Some 15
         else None)"

subsection \<open>Symbol table\<close>

fun find_symbol :: "Symbol list \<Rightarrow> string \<Rightarrow> Symbol option" where
  "find_symbol [] n = None"
| "find_symbol (y # ys) n = (if sm_name y = n then Some y else find_symbol ys n)"

fun find_sym_index :: "Symbol list \<Rightarrow> string \<Rightarrow> nat option" where
  "find_sym_index [] n = None"
| "find_sym_index (y # ys) n = (if sm_name y = n then Some 0 else map_option Suc (find_sym_index ys n))"

text \<open>An update through the pointer \<open>find_symbol\<close> returns.\<close>

fun set_symbol :: "(Symbol \<Rightarrow> Symbol) \<Rightarrow> string \<Rightarrow> Symbol list \<Rightarrow> Symbol list" where
  "set_symbol f n [] = []"
| "set_symbol f n (y # ys) = (if sm_name y = n then f y # ys else y # set_symbol f n ys)"

definition new_symbol :: "string \<Rightarrow> Symbol" where
  "new_symbol n =
     \<lparr>sm_name = take STR_MAX n, sm_addr = 0, sm_global = False, sm_defined = False,
      sm_extern = False, sm_label = False\<rparr>"

text \<open>\<open>Symbol *s = find_symbol(n); if (!s) s = add_symbol(n); if (s) update\<close>\<close>

definition add_symbol :: "string \<Rightarrow> asm \<Rightarrow> asm" where
  "add_symbol n s =
     (if length (as_syms s) \<ge> MAX_SYMS then asm_error s
      else s\<lparr>as_syms := as_syms s @ [new_symbol n]\<rparr>)"

definition with_symbol :: "string \<Rightarrow> (Symbol \<Rightarrow> Symbol) \<Rightarrow> asm \<Rightarrow> asm" where
  "with_symbol n f s =
     (let s1 = (if find_symbol (as_syms s) n = None then add_symbol n s else s)
      in s1\<lparr>as_syms := set_symbol f n (as_syms s1)\<rparr>)"

text \<open>The index of the symbol and the addend, for a reference that needs a relocation.\<close>

definition peek_sym_ref :: "asm \<Rightarrow> token list \<Rightarrow> (nat \<times> u64) option" where
  "peek_sym_ref s ts =
     (case ts of
        TIdent n # rest \<Rightarrow>
          (case (parse_register n, find_sym_index (as_syms s) n) of
             (None, Some i) \<Rightarrow>
               if sm_extern (as_syms s ! i) \<or> sm_label (as_syms s ! i) then
                 Some (i, case rest of TPlus # TInt v # _ \<Rightarrow> v | TMinus # TInt v # _ \<Rightarrow> - v | _ \<Rightarrow> 0)
               else None
           | _ \<Rightarrow> None)
      | _ \<Rightarrow> None)"

definition emit_reloc :: "u8 \<Rightarrow> nat \<Rightarrow> u32 \<Rightarrow> asm \<Rightarrow> asm" where
  "emit_reloc ty i addend s =
     (if length (as_relocs s) \<ge> MAX_RELOCS then asm_error s
      else s\<lparr>as_relocs := as_relocs s @
             [\<lparr>or_offset = as_pos s - as_base s, or_sym = of_nat i, or_type = ty, or_addend = addend\<rparr>]\<rparr>)"

subsection \<open>Expressions\<close>

definition symbol_value :: "nat \<Rightarrow> string \<Rightarrow> u64 op" where
  "symbol_value pass n s =
     (case find_symbol (as_syms s) n of
        None \<Rightarrow> if pass = 2 then fail s else (Some 0, s)
      | Some y \<Rightarrow> (Some (ucast (sm_addr y)), s))"

text \<open>\<open>int64_t\<close> arithmetic: the result, and whether the operation is undefined.\<close>

definition apply_op :: "token \<Rightarrow> u64 \<Rightarrow> u64 \<Rightarrow> u64 \<times> bool" where
  "apply_op t v r =
     (case t of
        TPlus \<Rightarrow> (v + r, sint v + sint r \<noteq> sint (v + r))
      | TMinus \<Rightarrow> (v - r, sint v - sint r \<noteq> sint (v - r))
      | _ \<Rightarrow> (signed_drop_bit (unat (r AND 63)) v, r \<ge> 64))"

definition is_binop :: "token \<Rightarrow> bool" where
  "is_binop t = (case t of TPlus \<Rightarrow> True | TMinus \<Rightarrow> True | TRShift \<Rightarrow> True | _ \<Rightarrow> False)"

text \<open>The first operand may also be a token that a colon follows; the others may not.\<close>

definition operand :: "nat \<Rightarrow> token \<Rightarrow> u64 op" where
  "operand pass t =
     (case t of TInt v \<Rightarrow> ret v | TIdent n \<Rightarrow> symbol_value pass n | _ \<Rightarrow> fail)"

definition first_operand :: "nat \<Rightarrow> token \<Rightarrow> u64 op" where
  "first_operand pass t = (case t of TColon n \<Rightarrow> symbol_value pass n | _ \<Rightarrow> operand pass t)"

fun eval_ops :: "nat \<Rightarrow> token list \<Rightarrow> u64 \<Rightarrow> (u64 \<times> token list) op" where
  "eval_ops pass [] v = ret (v, [])"
| "eval_ops pass [t] v = (if is_binop t then fail else ret (v, [t]))"
| "eval_ops pass (t # u # ts) v =
     (if is_binop t then
        andthen (operand pass u) (\<lambda>r s.
          case apply_op t v r of (w, b) \<Rightarrow> eval_ops pass ts w (asm_ub b s))
      else ret (v, t # u # ts))"

definition eval_expr :: "nat \<Rightarrow> token list \<Rightarrow> (u64 \<times> token list) op" where
  "eval_expr pass ts =
     (let neg = (case ts of TMinus # _ \<Rightarrow> True | _ \<Rightarrow> False)
      in case (if neg then drop 1 ts else ts) of
           [] \<Rightarrow> fail
         | t # rest \<Rightarrow>
             andthen (first_operand pass t) (\<lambda>v s.
               if neg then eval_ops pass rest (- v) (asm_ub (v = 0x8000000000000000) s)
               else eval_ops pass rest v s))"

subsection \<open>Emission\<close>

definition emit_byte :: "u8 \<Rightarrow> asm \<Rightarrow> asm" where
  "emit_byte b s =
     (let s1 = (if as_pos s < MAX_OUTPUT then
                  let p = as_pos s + 1
                  in s\<lparr>as_out := (as_out s)(as_pos s := b), as_pos := p, as_max := if p > as_max s then p else as_max s\<rparr>
                else asm_error s)
      in s1\<lparr>as_org := as_org s1 + 1\<rparr>)"

fun emit_bytes :: "u8 list \<Rightarrow> asm \<Rightarrow> asm" where
  "emit_bytes [] s = s"
| "emit_bytes (b # bs) s = emit_bytes bs (emit_byte b s)"

definition emit_word :: "u32 \<Rightarrow> asm \<Rightarrow> asm" where
  "emit_word w s = emit_bytes (le32_bytes w) s"

text \<open>\<open>if (pass == 2) emit_word(enc); else org_addr += 4;\<close>\<close>

definition put_word :: "nat \<Rightarrow> u32 \<Rightarrow> unit op" where
  "put_word pass w s = (Some (), if pass = 2 then emit_word w s else advance 4 s)"

definition emit_fill :: "u32 \<Rightarrow> asm \<Rightarrow> asm" where
  "emit_fill n s = emit_bytes (replicate (unat n) 0) s"

definition emit_string :: "string \<Rightarrow> asm \<Rightarrow> asm" where
  "emit_string t s = emit_bytes (map of_char t) s"

subsection \<open>Directives\<close>

definition align_up :: "u32 \<Rightarrow> u32 \<Rightarrow> u32" where
  "align_up al a = (a + (al - 1)) AND NOT (al - 1)"

text \<open>The branches of \<open>process_directive\<close> that do more than one thing.\<close>

definition dir_org :: "nat \<Rightarrow> u32 \<Rightarrow> asm \<Rightarrow> asm" where
  "dir_org pass new_addr s =
     (let s1 = (if pass = 2 then
                  (if new_addr > as_org s then emit_fill (new_addr - as_org s) s
                   else if new_addr < as_org s then asm_error s else s)
                else s);
          s2 = s1\<lparr>as_org := new_addr\<rparr>
      in if pass = 2 then s2\<lparr>as_pos := new_addr\<rparr> else s2)"

definition dir_word :: "nat \<Rightarrow> token list \<Rightarrow> asm \<Rightarrow> asm" where
  "dir_word pass ts s =
     (case (if as_obj s \<and> pass = 2 then peek_sym_ref s ts else None) of
        Some (i, addend) \<Rightarrow> emit_word 0 (emit_reloc 1 i (ucast addend) s)
      | None \<Rightarrow>
          (case eval_expr pass ts s of (r, s) \<Rightarrow>
             let v = (case r of None \<Rightarrow> 0 | Some (v, _) \<Rightarrow> v)
             in if pass = 2 then emit_word (ucast v) s else advance 4 s))"

definition dir_byte :: "nat \<Rightarrow> token list \<Rightarrow> asm \<Rightarrow> asm" where
  "dir_byte pass ts s =
     (case eval_expr pass ts s of (r, s) \<Rightarrow>
        let v = (case r of None \<Rightarrow> 0 | Some (v, _) \<Rightarrow> v)
        in if pass = 2 then emit_byte (ucast v) s else advance 1 s)"

definition dir_align :: "nat \<Rightarrow> u32 \<Rightarrow> asm \<Rightarrow> asm" where
  "dir_align pass al s =
     (if al > 1 then
        let new_addr = align_up al (as_org s)
        in if pass = 2 then emit_fill (new_addr - as_org s) s else s\<lparr>as_org := new_addr\<rparr>
      else s)"

definition set_equ :: "u64 \<Rightarrow> Symbol \<Rightarrow> Symbol" where
  "set_equ v y = y\<lparr>sm_addr := ucast v, sm_defined := True\<rparr>"

definition dir_equ :: "nat \<Rightarrow> token list \<Rightarrow> asm \<Rightarrow> asm" where
  "dir_equ pass ts s =
     (case ts of
        TIdent n # TComma # rest \<Rightarrow>
          (case eval_expr pass rest s of
             (None, s) \<Rightarrow> s
           | (Some (v, _), s) \<Rightarrow> with_symbol n (set_equ v) s)
      | _ \<Rightarrow> asm_error s)"

definition set_global :: "Symbol \<Rightarrow> Symbol" where
  "set_global y = y\<lparr>sm_global := True\<rparr>"

definition dir_global :: "token list \<Rightarrow> asm \<Rightarrow> asm" where
  "dir_global ts s = (case ts of TIdent n # _ \<Rightarrow> with_symbol n set_global s | _ \<Rightarrow> s)"

text \<open>\<open>process_directive(toks, ntoks, start, pass)\<close>: the directive's name and the tokens after it.\<close>

definition process_directive :: "nat \<Rightarrow> string \<Rightarrow> token list \<Rightarrow> asm \<Rightarrow> asm" where
  "process_directive pass dir ts s =
     (if same_case dir ''.org'' then
        (case ts of TInt v # _ \<Rightarrow> dir_org pass (ucast v) s | _ \<Rightarrow> asm_error s)
      else if same_case dir ''.extern'' then s
      else if same_case dir ''.section'' then s
      else if same_case dir ''.global'' then dir_global ts s
      else if same_case dir ''.word'' then (if ts = [] then asm_error s else dir_word pass ts s)
      else if same_case dir ''.byte'' then (if ts = [] then asm_error s else dir_byte pass ts s)
      else if same_case dir ''.space'' then
        (case ts of
           TInt v # _ \<Rightarrow> if pass = 2 then emit_fill (ucast v) s else advance (ucast v) s
         | _ \<Rightarrow> asm_error s)
      else if same_case dir ''.ascii'' then
        (case ts of
           TString t # _ \<Rightarrow>
             if pass = 2 then emit_string (c_str t) s else advance (of_nat (length (c_str t))) s
         | _ \<Rightarrow> asm_error s)
      else if same_case dir ''.asciiz'' then
        (case ts of
           TString t # _ \<Rightarrow>
             if pass = 2 then emit_string (c_str t @ [NUL]) s
             else advance (of_nat (length (c_str t)) + 1) s
         | _ \<Rightarrow> asm_error s)
      else if same_case dir ''.align'' then
        (case ts of TInt v # _ \<Rightarrow> dir_align pass (ucast v) s | _ \<Rightarrow> asm_error s)
      else if same_case dir ''.equ'' then dir_equ pass ts s
      else asm_error s)"

end
