(* ===== verification/Encoder.thy ===== *)
theory Encoder
  imports Assembler
begin

text \<open>
  Instruction encoding (\<open>assembler.c\<close>): the opcode table, the operand syntax of each format and
  \<open>assemble_line\<close>. A format is a sequence of operand parsers over the tokens left, ended by the
  words it emits; a failed operand has called \<open>asm_error\<close> and yields \<open>None\<close>, on which
  \<open>assemble_line\<close> advances the address in pass 1 as each error return of the source does.
\<close>

subsection \<open>The opcode table\<close>

datatype InstrFmt =
    FMT_R3 | FMT_R2 | FMT_RSHIFT | FMT_I_SIGNED | FMT_I_UNSIGNED | FMT_I_SHIFT | FMT_MEM
  | FMT_BRANCH | FMT_JUMP | FMT_MOVI | FMT_MOVHI | FMT_NONE | FMT_MOVI32 | FMT_CMP | FMT_CMPI
  | FMT_RET | FMT_BR | FMT_CALL | FMT_PUSH | FMT_POP | FMT_MEM_IDX

record OpcodeEntry =
  oe_mnemonic :: string
  oe_opcode :: u8
  oe_fmt :: InstrFmt
  oe_cond :: u32

definition entry :: "string \<Rightarrow> u8 \<Rightarrow> InstrFmt \<Rightarrow> u32 \<Rightarrow> OpcodeEntry" where
  "entry m op f c = \<lparr>oe_mnemonic = m, oe_opcode = op, oe_fmt = f, oe_cond = c\<rparr>"

definition opcode_table :: "OpcodeEntry list" where
  "opcode_table =
  [
   entry ''ADD'' 0x00 FMT_R3 (- 1),
   entry ''SUB'' 0x01 FMT_R3 (- 1),
   entry ''AND'' 0x02 FMT_R3 (- 1),
   entry ''OR'' 0x03 FMT_R3 (- 1),
   entry ''XOR'' 0x04 FMT_R3 (- 1),
   entry ''NOT'' 0x05 FMT_R2 (- 1),
   entry ''LSL'' 0x06 FMT_RSHIFT (- 1),
   entry ''LSR'' 0x07 FMT_RSHIFT (- 1),
   entry ''ASR'' 0x08 FMT_RSHIFT (- 1),
   entry ''MUL'' 0x09 FMT_R3 (- 1),
   entry ''DIV'' 0x0A FMT_R3 (- 1),
   entry ''LW'' 0x0B FMT_MEM (- 1),
   entry ''SW'' 0x0C FMT_MEM (- 1),
   entry ''BEQ'' 0x0D FMT_BRANCH 0,
   entry ''BNE'' 0x0D FMT_BRANCH 1,
   entry ''BLT'' 0x0D FMT_BRANCH 2,
   entry ''BGE'' 0x0D FMT_BRANCH 3,
   entry ''BLTU'' 0x0D FMT_BRANCH 4,
   entry ''BGEU'' 0x0D FMT_BRANCH 5,
   entry ''BA'' 0x0D FMT_BRANCH 6,
   entry ''BGT'' 0x0D FMT_BRANCH 7,
   entry ''BLE'' 0x0D FMT_BRANCH 8,
   entry ''BGTU'' 0x0D FMT_BRANCH 9,
   entry ''BLEU'' 0x0D FMT_BRANCH 10,
   entry ''JMP'' 0x0E FMT_JUMP (- 1),
   entry ''MOVI'' 0x0F FMT_MOVI (- 1),
   entry ''SYSCALL'' 0x10 FMT_NONE (- 1),
   entry ''SYSRET'' 0x11 FMT_NONE (- 1),
   entry ''HALT'' 0x12 FMT_NONE (- 1),
   entry ''MOVHI'' 0x13 FMT_MOVHI (- 1),
   entry ''ADDI'' 0x14 FMT_I_SIGNED (- 1),
   entry ''SUBI'' 0x15 FMT_I_SIGNED (- 1),
   entry ''ANDI'' 0x16 FMT_I_UNSIGNED (- 1),
   entry ''ORI'' 0x17 FMT_I_UNSIGNED (- 1),
   entry ''XORI'' 0x18 FMT_I_UNSIGNED (- 1),
   entry ''LSLI'' 0x19 FMT_I_SHIFT (- 1),
   entry ''LSRI'' 0x1A FMT_I_SHIFT (- 1),
   entry ''ASRI'' 0x1B FMT_I_SHIFT (- 1),
   entry ''LH'' 0x1C FMT_MEM (- 1),
   entry ''LHU'' 0x1D FMT_MEM (- 1),
   entry ''LB'' 0x1E FMT_MEM (- 1),
   entry ''LBU'' 0x1F FMT_MEM (- 1),
   entry ''SH'' 0x20 FMT_MEM (- 1),
   entry ''SB'' 0x21 FMT_MEM (- 1),
   entry ''MULH'' 0x22 FMT_R3 (- 1),
   entry ''MULHU'' 0x23 FMT_R3 (- 1),
   entry ''DIVU'' 0x24 FMT_R3 (- 1),
   entry ''MOD'' 0x25 FMT_R3 (- 1),
   entry ''MODU'' 0x26 FMT_R3 (- 1),
   entry ''MOV'' 0x27 FMT_R2 (- 1),
   entry ''CMP'' 0x28 FMT_CMP (- 1),
   entry ''CMPI'' 0x29 FMT_CMPI (- 1),
   entry ''CALLR'' 0x2A FMT_R2 (- 1),
   entry ''ADDC'' 0x2B FMT_R3 (- 1),
   entry ''SUBC'' 0x2C FMT_R3 (- 1),
   entry ''LSLR'' 0x2D FMT_R3 (- 1),
   entry ''LSRR'' 0x2E FMT_R3 (- 1),
   entry ''ASRR'' 0x2F FMT_R3 (- 1),
   entry ''LWX'' 0x30 FMT_MEM_IDX (- 1),
   entry ''LBX'' 0x31 FMT_MEM_IDX (- 1),
   entry ''LBUX'' 0x32 FMT_MEM_IDX (- 1),
   entry ''SWX'' 0x33 FMT_MEM_IDX (- 1),
   entry ''SBX'' 0x34 FMT_MEM_IDX (- 1),
   entry ''LHX'' 0x35 FMT_MEM_IDX (- 1),
   entry ''LHUX'' 0x36 FMT_MEM_IDX (- 1),
   entry ''SHX'' 0x37 FMT_MEM_IDX (- 1),
   entry ''LUI'' 0x38 FMT_MOVI (- 1),
   entry ''ROLR'' 0x39 FMT_R3 (- 1),
   entry ''RORR'' 0x3A FMT_R3 (- 1),
   entry ''ROLI'' 0x3B FMT_RSHIFT (- 1),
   entry ''RORI'' 0x3C FMT_RSHIFT (- 1),
   entry ''CAS'' 0x3D FMT_R3 (- 1),
   entry ''SFENCE'' 0x3E FMT_NONE (- 1),
   entry ''RET'' 0x27 FMT_RET (- 1),
   entry ''BR'' 0x27 FMT_BR (- 1),
   entry ''CALL'' 0x0E FMT_CALL (- 1),
   entry ''NOP'' 0x0F FMT_NONE (- 1),
   entry ''PUSH'' 0x00 FMT_PUSH (- 1),
   entry ''POP'' 0x00 FMT_POP (- 1),
   entry ''MOVI32'' 0x00 FMT_MOVI32 (- 1)
  ]"

fun find_entry :: "OpcodeEntry list \<Rightarrow> string \<Rightarrow> OpcodeEntry option" where
  "find_entry [] m = None"
| "find_entry (e # es) m = (if same_case (oe_mnemonic e) m then Some e else find_entry es m)"

definition find_opcode :: "string \<Rightarrow> OpcodeEntry option" where
  "find_opcode m = find_entry opcode_table m"

subsection \<open>Instruction words\<close>

definition enc_op :: "u8 \<Rightarrow> u32" where "enc_op op = push_bit 24 (ucast op)"
definition enc_rd :: "nat \<Rightarrow> u32" where "enc_rd r = push_bit 20 (of_nat r)"
definition enc_rs1 :: "nat \<Rightarrow> u32" where "enc_rs1 r = push_bit 16 (of_nat r)"
definition enc_rs2 :: "nat \<Rightarrow> u32" where "enc_rs2 r = push_bit 12 (of_nat r)"
definition enc_imm16 :: "u64 \<Rightarrow> u32" where "enc_imm16 v = ucast (v AND 0xFFFF)"
definition enc_off20 :: "u64 \<Rightarrow> u32" where "enc_off20 v = ucast (v AND 0xFFFFF)"

subsection \<open>Operands\<close>

definition reg_operand :: "token list \<Rightarrow> (nat \<times> token list) op" where
  "reg_operand ts s =
     (case ts of
        TIdent n # rest \<Rightarrow> (case parse_register n of None \<Rightarrow> fail s | Some r \<Rightarrow> (Some (r, rest), s))
      | _ \<Rightarrow> fail s)"

definition comma :: "token list \<Rightarrow> token list op" where
  "comma ts s = (case ts of TComma # rest \<Rightarrow> (Some rest, s) | _ \<Rightarrow> fail s)"

definition rbracket :: "token list \<Rightarrow> token list op" where
  "rbracket ts s = (case ts of TRBracket # rest \<Rightarrow> (Some rest, s) | _ \<Rightarrow> fail s)"

definition lbracket :: "token list \<Rightarrow> token list op" where
  "lbracket ts s = (case ts of TLBracket # rest \<Rightarrow> (Some rest, s) | _ \<Rightarrow> fail s)"

text \<open>\<open>pass == 2 && (imm < lo || imm > hi)\<close> is an error\<close>

definition in_range :: "nat \<Rightarrow> int \<Rightarrow> int \<Rightarrow> u64 \<Rightarrow> unit op" where
  "in_range pass lo hi v = check (pass = 2 \<longrightarrow> lo \<le> sint v \<and> sint v \<le> hi)"

text \<open>\<open>[rs1]\<close>, \<open>[rs1+imm]\<close>, \<open>[rs1-imm]\<close>; \<open>rs1\<close> and \<open>rs1, imm\<close> without brackets.\<close>

definition mem_offset :: "nat \<Rightarrow> token list \<Rightarrow> (u64 \<times> token list) op" where
  "mem_offset pass ts =
     (case ts of
        TPlus # ts \<Rightarrow> eval_expr pass ts
      | TMinus # ts \<Rightarrow>
          andthen (eval_expr pass ts) (\<lambda>(v, ts) s. (Some (- v, ts), asm_ub (v = 0x8000000000000000) s))
      | _ \<Rightarrow> ret (0, ts))"

definition mem_bracket :: "nat \<Rightarrow> token list \<Rightarrow> (nat \<times> u64) op" where
  "mem_bracket pass ts =
     andthen (reg_operand ts) (\<lambda>(rs1, ts). andthen (mem_offset pass ts) (\<lambda>(imm, ts).
       andthen (rbracket ts) (\<lambda>_. ret (rs1, imm))))"

definition mem_plain :: "nat \<Rightarrow> token list \<Rightarrow> (nat \<times> u64) op" where
  "mem_plain pass ts =
     andthen (reg_operand ts) (\<lambda>(rs1, ts).
       andthen (case ts of TComma # ts \<Rightarrow> eval_expr pass ts | _ \<Rightarrow> ret (0, ts)) (\<lambda>(imm, _). ret (rs1, imm)))"

definition parse_mem_operand :: "nat \<Rightarrow> token list \<Rightarrow> (nat \<times> u64) op" where
  "parse_mem_operand pass ts =
     (case ts of
        [] \<Rightarrow> fail
      | t # rest \<Rightarrow> if t = TLBracket then mem_bracket pass rest else mem_plain pass ts)"

text \<open>
  The tail of branches, jumps and calls: in an object file a reference to an external symbol
  becomes a relocation, anything else a PC-relative offset.
\<close>

definition extern_ref :: "nat \<Rightarrow> token list \<Rightarrow> asm \<Rightarrow> (nat \<times> u64) option" where
  "extern_ref pass ts s =
     (if as_obj s \<and> pass = 2 then
        (case peek_sym_ref s ts of
           Some (i, a) \<Rightarrow> if sm_extern (as_syms s ! i) then Some (i, a) else None
         | None \<Rightarrow> None)
      else None)"

definition pc_target :: "nat \<Rightarrow> u32 \<Rightarrow> u8 \<Rightarrow> u32 \<Rightarrow> token list \<Rightarrow> unit op" where
  "pc_target pass instr_addr ty base ts s =
     (case extern_ref pass ts s of
        Some (i, a) \<Rightarrow> (Some (), emit_word base (emit_reloc ty i (ucast a) s))
      | None \<Rightarrow>
          andthen (eval_expr pass ts) (\<lambda>(target, _) s.
            let off = target - ucast instr_addr
            in andthen (in_range pass (- 524288) 524287 off) (\<lambda>_. put_word pass (base OR enc_off20 off))
                 (asm_ub (sint target - sint (ucast instr_addr :: u64) \<noteq> sint off) s)) s)"

definition rd_rs1 :: "token list \<Rightarrow> (nat \<Rightarrow> nat \<Rightarrow> token list \<Rightarrow> unit op) \<Rightarrow> unit op" where
  "rd_rs1 ts f =
     andthen (reg_operand ts) (\<lambda>(rd, ts). andthen (comma ts) (\<lambda>ts. andthen (reg_operand ts) (\<lambda>(rs1, ts). f rd rs1 ts)))"

text \<open>\<open>rd, rs1, expression\<close> and \<open>rd, expression\<close>; \<open>chk\<close> is the format's range check.\<close>

definition rd_rs1_imm :: "nat \<Rightarrow> token list \<Rightarrow> (u64 \<Rightarrow> unit op) \<Rightarrow> (nat \<Rightarrow> nat \<Rightarrow> u64 \<Rightarrow> u32) \<Rightarrow> unit op" where
  "rd_rs1_imm pass ts chk enc =
     rd_rs1 ts (\<lambda>rd rs1 ts.
       andthen (comma ts) (\<lambda>ts. andthen (eval_expr pass ts) (\<lambda>(v, _).
       andthen (chk v) (\<lambda>_. put_word pass (enc rd rs1 v)))))"

definition rd_imm :: "nat \<Rightarrow> token list \<Rightarrow> (u64 \<Rightarrow> unit op) \<Rightarrow> (nat \<Rightarrow> u64 \<Rightarrow> u32) \<Rightarrow> unit op" where
  "rd_imm pass ts chk enc =
     andthen (reg_operand ts) (\<lambda>(rd, ts). andthen (comma ts) (\<lambda>ts. andthen (eval_expr pass ts) (\<lambda>(v, _).
       andthen (chk v) (\<lambda>_. put_word pass (enc rd v)))))"

definition movi32_ref :: "nat \<Rightarrow> nat \<Rightarrow> u32 \<Rightarrow> asm \<Rightarrow> asm" where
  "movi32_ref rd i a s =
     emit_word (enc_op 0x13 OR enc_rd rd) (emit_reloc 3 i a
       (emit_word (enc_op 0x0F OR enc_rd rd) (emit_reloc 2 i a s)))"

definition movi32_val :: "nat \<Rightarrow> nat \<Rightarrow> token list \<Rightarrow> unit op" where
  "movi32_val pass rd ts =
     andthen (eval_expr pass ts) (\<lambda>(v, _) s.
       (Some (), if pass = 2 then
                   emit_word (enc_op 0x13 OR enc_rd rd OR enc_imm16 (signed_drop_bit 16 v))
                     (emit_word (enc_op 0x0F OR enc_rd rd OR enc_imm16 v) s)
                 else advance 8 s))"

definition movi32 :: "nat \<Rightarrow> token list \<Rightarrow> unit op" where
  "movi32 pass ts =
     andthen (reg_operand ts) (\<lambda>(rd, ts). andthen (comma ts) (\<lambda>ts s.
       case (if as_obj s \<and> pass = 2 then peek_sym_ref s ts else None) of
         Some (i, a) \<Rightarrow> (Some (), movi32_ref rd i (ucast a) s)
       | None \<Rightarrow> movi32_val pass rd ts s))"

definition push_pop :: "nat \<Rightarrow> token list \<Rightarrow> (nat \<Rightarrow> u32) \<Rightarrow> (nat \<Rightarrow> u32) \<Rightarrow> unit op" where
  "push_pop pass ts enc1 enc2 =
     andthen (reg_operand ts) (\<lambda>(rd, _) s.
       (Some (), if pass = 2 then emit_word (enc2 rd) (emit_word (enc1 rd) s) else advance 8 s))"

definition indexed :: "nat \<Rightarrow> u32 \<Rightarrow> token list \<Rightarrow> unit op" where
  "indexed pass op ts =
     andthen (reg_operand ts) (\<lambda>(rd, ts). andthen (comma ts) (\<lambda>ts. andthen (lbracket ts) (\<lambda>ts.
     andthen (reg_operand ts) (\<lambda>(rs1, ts).
     andthen (case ts of TPlus # ts \<Rightarrow> reg_operand ts | _ \<Rightarrow> ret (0, ts)) (\<lambda>(rs2, ts).
     andthen (rbracket ts) (\<lambda>_. put_word pass (op OR enc_rd rd OR enc_rs1 rs1 OR enc_rs2 rs2)))))))"

subsection \<open>Instructions\<close>

text \<open>The cases of the \<open>switch (op->fmt)\<close>, each given the opcode field \<open>w\<close> of the word.\<close>

definition fmt_r3 :: "nat \<Rightarrow> u32 \<Rightarrow> token list \<Rightarrow> unit op" where
  "fmt_r3 pass w ts =
     rd_rs1 ts (\<lambda>rd rs1 ts. andthen (comma ts) (\<lambda>ts. andthen (reg_operand ts) (\<lambda>(rs2, _).
       put_word pass (w OR enc_rd rd OR enc_rs1 rs1 OR enc_rs2 rs2))))"

definition fmt_r2 :: "nat \<Rightarrow> u32 \<Rightarrow> token list \<Rightarrow> unit op" where
  "fmt_r2 pass w ts = rd_rs1 ts (\<lambda>rd rs1 _. put_word pass (w OR enc_rd rd OR enc_rs1 rs1))"

text \<open>The shift amount is checked in both passes, the other immediates in the second only.\<close>

definition fmt_rshift :: "nat \<Rightarrow> u32 \<Rightarrow> token list \<Rightarrow> unit op" where
  "fmt_rshift pass w ts =
     rd_rs1_imm pass ts (\<lambda>v. check (0 \<le> sint v \<and> sint v \<le> 31))
       (\<lambda>rd rs1 v. w OR enc_rd rd OR enc_rs1 rs1 OR push_bit 7 (ucast v))"

definition fmt_i_signed :: "nat \<Rightarrow> u32 \<Rightarrow> token list \<Rightarrow> unit op" where
  "fmt_i_signed pass w ts =
     rd_rs1_imm pass ts (in_range pass (- 32768) 32767) (\<lambda>rd rs1 v. w OR enc_rd rd OR enc_rs1 rs1 OR enc_imm16 v)"

definition fmt_i_unsigned :: "nat \<Rightarrow> u32 \<Rightarrow> token list \<Rightarrow> unit op" where
  "fmt_i_unsigned pass w ts =
     rd_rs1_imm pass ts (in_range pass 0 65535) (\<lambda>rd rs1 v. w OR enc_rd rd OR enc_rs1 rs1 OR enc_imm16 v)"

definition fmt_i_shift :: "nat \<Rightarrow> u32 \<Rightarrow> token list \<Rightarrow> unit op" where
  "fmt_i_shift pass w ts =
     rd_rs1_imm pass ts (in_range pass 0 31) (\<lambda>rd rs1 v. w OR enc_rd rd OR enc_rs1 rs1 OR enc_imm16 v)"

definition fmt_movi :: "nat \<Rightarrow> u32 \<Rightarrow> token list \<Rightarrow> unit op" where
  "fmt_movi pass w ts = rd_imm pass ts (in_range pass 0 65535) (\<lambda>rd v. w OR enc_rd rd OR enc_imm16 v)"

definition fmt_movhi :: "nat \<Rightarrow> u32 \<Rightarrow> token list \<Rightarrow> unit op" where
  "fmt_movhi pass w ts = rd_imm pass ts (in_range pass 0 65535) (\<lambda>rd v. w OR enc_rd rd OR enc_imm16 v)"

definition fmt_mem :: "nat \<Rightarrow> u32 \<Rightarrow> token list \<Rightarrow> unit op" where
  "fmt_mem pass w ts =
     andthen (reg_operand ts) (\<lambda>(rd, ts). andthen (comma ts) (\<lambda>ts.
     andthen (parse_mem_operand pass ts) (\<lambda>(rs1, v).
       put_word pass (w OR enc_rd rd OR enc_rs1 rs1 OR enc_imm16 v))))"

definition fmt_branch :: "nat \<Rightarrow> u32 \<Rightarrow> u32 \<Rightarrow> token list \<Rightarrow> unit op" where
  "fmt_branch pass instr_addr cond ts =
     (if ts = [] then fail else pc_target pass instr_addr 4 (enc_op 0x0D OR push_bit 20 cond) ts)"

definition fmt_jump :: "nat \<Rightarrow> u32 \<Rightarrow> token list \<Rightarrow> unit op" where
  "fmt_jump pass instr_addr ts =
     andthen (reg_operand ts) (\<lambda>(rd, ts). andthen (comma ts) (\<lambda>ts.
       pc_target pass instr_addr 5 (enc_op 0x0E OR enc_rd rd) ts))"

definition fmt_cmp :: "nat \<Rightarrow> u32 \<Rightarrow> token list \<Rightarrow> unit op" where
  "fmt_cmp pass w ts = rd_rs1 ts (\<lambda>rs1 rs2 _. put_word pass (w OR enc_rs1 rs1 OR enc_rs2 rs2))"

text \<open>CMPI reports an immediate out of range and emits the word all the same.\<close>

definition fmt_cmpi :: "nat \<Rightarrow> u32 \<Rightarrow> token list \<Rightarrow> unit op" where
  "fmt_cmpi pass w ts =
     andthen (reg_operand ts) (\<lambda>(rs1, ts). andthen (comma ts) (\<lambda>ts. andthen (eval_expr pass ts) (\<lambda>(v, _) s.
       put_word pass (w OR enc_rs1 rs1 OR enc_imm16 v)
         (if pass = 2 \<and> \<not> (0 \<le> sint v \<and> sint v \<le> 65535) then asm_error s else s))))"

definition fmt_ret :: "nat \<Rightarrow> unit op" where
  "fmt_ret pass = put_word pass (enc_op 0x27 OR enc_rd 15 OR enc_rs1 14)"

definition fmt_br :: "nat \<Rightarrow> token list \<Rightarrow> unit op" where
  "fmt_br pass ts = andthen (reg_operand ts) (\<lambda>(rs1, _). put_word pass (enc_op 0x27 OR enc_rd 15 OR enc_rs1 rs1))"

definition fmt_push :: "nat \<Rightarrow> token list \<Rightarrow> unit op" where
  "fmt_push pass ts =
     push_pop pass ts (\<lambda>_. enc_op 0x14 OR enc_rd 13 OR enc_rs1 13 OR 0xFFFC)
       (\<lambda>rd. enc_op 0x0C OR enc_rd rd OR enc_rs1 13)"

definition fmt_pop :: "nat \<Rightarrow> token list \<Rightarrow> unit op" where
  "fmt_pop pass ts =
     push_pop pass ts (\<lambda>rd. enc_op 0x0B OR enc_rd rd OR enc_rs1 13)
       (\<lambda>_. enc_op 0x14 OR enc_rd 13 OR enc_rs1 13 OR 4)"

definition fmt_call :: "nat \<Rightarrow> u32 \<Rightarrow> token list \<Rightarrow> unit op" where
  "fmt_call pass instr_addr ts =
     (if ts = [] then fail else pc_target pass instr_addr 5 (enc_op 0x0E OR enc_rd 14) ts)"

definition assemble_fmt :: "nat \<Rightarrow> u32 \<Rightarrow> OpcodeEntry \<Rightarrow> token list \<Rightarrow> unit op" where
  "assemble_fmt pass instr_addr op ts =
     (let w = enc_op (oe_opcode op)
      in case oe_fmt op of
           FMT_NONE \<Rightarrow> put_word pass w
         | FMT_R3 \<Rightarrow> fmt_r3 pass w ts
         | FMT_R2 \<Rightarrow> fmt_r2 pass w ts
         | FMT_RSHIFT \<Rightarrow> fmt_rshift pass w ts
         | FMT_I_SIGNED \<Rightarrow> fmt_i_signed pass w ts
         | FMT_I_UNSIGNED \<Rightarrow> fmt_i_unsigned pass w ts
         | FMT_I_SHIFT \<Rightarrow> fmt_i_shift pass w ts
         | FMT_MOVI \<Rightarrow> fmt_movi pass w ts
         | FMT_MOVHI \<Rightarrow> fmt_movhi pass w ts
         | FMT_MEM \<Rightarrow> fmt_mem pass w ts
         | FMT_BRANCH \<Rightarrow> fmt_branch pass instr_addr (oe_cond op) ts
         | FMT_JUMP \<Rightarrow> fmt_jump pass instr_addr ts
         | FMT_MOVI32 \<Rightarrow> movi32 pass ts
         | FMT_CMP \<Rightarrow> fmt_cmp pass w ts
         | FMT_CMPI \<Rightarrow> fmt_cmpi pass w ts
         | FMT_RET \<Rightarrow> fmt_ret pass
         | FMT_BR \<Rightarrow> fmt_br pass ts
         | FMT_PUSH \<Rightarrow> fmt_push pass ts
         | FMT_POP \<Rightarrow> fmt_pop pass ts
         | FMT_MEM_IDX \<Rightarrow> indexed pass w ts
         | FMT_CALL \<Rightarrow> fmt_call pass instr_addr ts)"

lemmas assemble_fmt_eqs = assemble_fmt_def fmt_r3_def fmt_r2_def fmt_rshift_def fmt_i_signed_def fmt_i_unsigned_def
  fmt_i_shift_def fmt_movi_def fmt_movhi_def fmt_mem_def fmt_branch_def fmt_jump_def fmt_cmp_def fmt_cmpi_def
  fmt_ret_def fmt_br_def fmt_push_def fmt_pop_def fmt_call_def

text \<open>The bytes an error return in pass 1 still counts.\<close>

definition fmt_size :: "InstrFmt \<Rightarrow> u32" where
  "fmt_size f = (if f = FMT_MOVI32 \<or> f = FMT_PUSH \<or> f = FMT_POP then 8 else 4)"

definition is_label :: "token \<Rightarrow> bool" where
  "is_label t = (case t of TColon _ \<Rightarrow> True | _ \<Rightarrow> False)"

definition assemble_line :: "nat \<Rightarrow> token list \<Rightarrow> asm \<Rightarrow> asm" where
  "assemble_line pass toks s =
     (case dropWhile is_label toks of
        [] \<Rightarrow> s
      | TDotIdent dir # ts \<Rightarrow> process_directive pass dir ts s
      | TIdent m # ts \<Rightarrow>
          (case find_opcode m of
             None \<Rightarrow> asm_error s
           | Some op \<Rightarrow>
               (case assemble_fmt pass (as_org s) op ts s of
                  (Some _, s) \<Rightarrow> s
                | (None, s) \<Rightarrow> if pass = 1 then advance (fmt_size (oe_fmt op)) s else s))
      | _ \<Rightarrow> asm_error s)"

end
