(* ===== verification/Passes.thy ===== *)
theory Passes
  imports Encoder
begin

text \<open>
  The two passes of the assembler, the splitting of the source into lines with its \<open>.include\<close>
  directive, the object file writer and \<open>main\<close>. The file system is the function \<open>fs\<close>, which
  gives the contents of a file that can be opened.
\<close>

subsection \<open>Pass 1\<close>

definition count_error :: "bool \<Rightarrow> asm \<Rightarrow> asm" where
  "count_error b s = (if b then asm_error s else s)"

definition set_label :: "u32 \<Rightarrow> Symbol \<Rightarrow> Symbol" where
  "set_label a y = y\<lparr>sm_addr := a, sm_defined := True, sm_label := True\<rparr>"

definition set_extern :: "Symbol \<Rightarrow> Symbol" where
  "set_extern y = y\<lparr>sm_extern := True, sm_defined := False\<rparr>"

text \<open>One label: defined at the current address unless the name is defined already.\<close>

definition define_label :: "string \<Rightarrow> asm \<Rightarrow> asm" where
  "define_label n s =
     (case find_symbol (as_syms s) n of
        Some y \<Rightarrow> if sm_defined y then asm_error s else with_symbol n (set_label (as_org s)) s
      | None \<Rightarrow> with_symbol n (set_label (as_org s)) s)"

fun collect_labels :: "token list \<Rightarrow> asm \<Rightarrow> token list \<times> asm" where
  "collect_labels (TColon n # ts) s = collect_labels ts (define_label n s)"
| "collect_labels ts s = (ts, s)"

definition instr_size :: "string \<Rightarrow> u32" where
  "instr_size m = (if same_case m ''movi32'' \<or> same_case m ''push'' \<or> same_case m ''pop'' then 8 else 4)"

text \<open>\<open>directive_size\<close> reads the line again and skips at most one label.\<close>

definition size_of_directive :: "string \<Rightarrow> token list \<Rightarrow> u32" where
  "size_of_directive dir ts =
     (if same_case dir ''.org'' \<or> same_case dir ''.global'' \<or> same_case dir ''.align'' \<or> same_case dir ''.equ'' then 0
      else if same_case dir ''.word'' then 4
      else if same_case dir ''.byte'' then 1
      else if same_case dir ''.space'' then (case ts of TInt v # _ \<Rightarrow> ucast v | _ \<Rightarrow> 0)
      else if same_case dir ''.ascii'' then (case ts of TString t # _ \<Rightarrow> of_nat (length (c_str t)) | _ \<Rightarrow> 0)
      else if same_case dir ''.asciiz'' then (case ts of TString t # _ \<Rightarrow> of_nat (length (c_str t)) + 1 | _ \<Rightarrow> 0)
      else 0)"

definition directive_size :: "token list \<Rightarrow> u32" where
  "directive_size toks =
     (case toks of
        [] \<Rightarrow> 0
      | t # rest \<Rightarrow>
          (case (if is_label t then rest else toks) of
             TDotIdent dir # ts \<Rightarrow> size_of_directive dir ts
           | _ \<Rightarrow> 0))"

definition pass1_org :: "u32 \<Rightarrow> asm \<Rightarrow> asm" where
  "pass1_org a s =
     (let s1 = (if as_obj s \<and> as_base s = 0 \<and> a \<noteq> 0 then s\<lparr>as_base := a, as_hint := a\<rparr> else s)
      in s1\<lparr>as_org := a\<rparr>)"

definition pass1_equ :: "token list \<Rightarrow> asm \<Rightarrow> asm" where
  "pass1_equ ts s =
     (case ts of
        TIdent n # TComma # rest \<Rightarrow>
          (case eval_expr 1 rest s of (r, s) \<Rightarrow>
             with_symbol n (set_equ (case r of None \<Rightarrow> 0 | Some (v, _) \<Rightarrow> v)) s)
      | _ \<Rightarrow> s)"

definition pass1_directive :: "token list \<Rightarrow> bool \<Rightarrow> string \<Rightarrow> token list \<Rightarrow> asm \<Rightarrow> asm" where
  "pass1_directive toks lex_err dir ts s =
     (if same_case dir ''.org'' then (case ts of TInt v # _ \<Rightarrow> pass1_org (ucast v) s | _ \<Rightarrow> s)
      else if same_case dir ''.extern'' then
        (case ts of TIdent n # _ \<Rightarrow> with_symbol n set_extern s | _ \<Rightarrow> s)
      else if same_case dir ''.section'' then s
      else if same_case dir ''.global'' then dir_global ts s
      else if same_case dir ''.align'' then
        (case ts of
           TInt v # _ \<Rightarrow> if (ucast v :: u32) > 1 then s\<lparr>as_org := align_up (ucast v) (as_org s)\<rparr> else s
         | _ \<Rightarrow> s)
      else if same_case dir ''.equ'' then pass1_equ ts s
      else advance (directive_size toks) (count_error lex_err s))"

definition pass1_line :: "string \<Rightarrow> asm \<Rightarrow> asm" where
  "pass1_line text s =
     (case tokenize_line text of (toks, err) \<Rightarrow>
        (case collect_labels toks (count_error err s) of (rest, s) \<Rightarrow>
           (case rest of
              TDotIdent dir # ts \<Rightarrow> pass1_directive toks err dir ts s
            | TIdent m # _ \<Rightarrow> advance (instr_size m) s
            | _ \<Rightarrow> s)))"

definition pass1 :: "string list \<Rightarrow> asm \<Rightarrow> asm" where
  "pass1 ls s = foldl (\<lambda>s text. pass1_line text s) (s\<lparr>as_org := 0\<rparr>) ls"

subsection \<open>Pass 2\<close>

definition pass2_line :: "string \<Rightarrow> asm \<Rightarrow> asm" where
  "pass2_line text s =
     (case tokenize_line text of (toks, err) \<Rightarrow>
        let s = count_error err s in if toks = [] then s else assemble_line 2 toks s)"

definition pass2 :: "string list \<Rightarrow> asm \<Rightarrow> asm" where
  "pass2 ls s = foldl (\<lambda>s text. pass2_line text s) (s\<lparr>as_org := 0, as_pos := 0, as_max := 0\<rparr>) ls"

subsection \<open>Splitting the source into lines\<close>

abbreviation MAX_LINES :: nat where "MAX_LINES \<equiv> 65536"
abbreviation MAX_LINE_LEN :: nat where "MAX_LINE_LEN \<equiv> 1024"

text \<open>
  The file named by an \<open>.include\<close> line: the characters between the quotes, if the line (cut to
  its buffer) starts with the directive and the name has 1 to 511 characters.
\<close>

definition include_name :: "string \<Rightarrow> string option" where
  "include_name line =
     (let cut = take (MAX_LINE_LEN - 1) line;
          k = length (takeWhile is_ws cut);
          q = drop (k + 8) line;
          j = length (takeWhile is_ws (drop (k + 8) cut));
          name = takeWhile (\<lambda>c. c \<noteq> QUOTE) (drop (j + 1) q)
      in if length (drop k cut) \<ge> 8 \<and> same_case (take 8 (drop k line)) ''.include'' \<and>
            (q \<noteq> [] \<and> (is_ws (hd q) \<or> hd q = QUOTE)) \<and>
            (drop j q \<noteq> [] \<and> hd (drop j q) = QUOTE) \<and>
            0 < length name \<and> length name < 512
         then Some name else None)"

definition include_path :: "string \<Rightarrow> string \<Rightarrow> string" where
  "include_path dir name = take 1023 (if dir \<noteq> [] then dir @ CHR ''/'' # name else name)"

text \<open>
  A file that includes itself before it has filled the line table recurses for ever: the
  function is partial. The result is the lines and the number of files that could not be opened.
\<close>

partial_function (option) collect_lines ::
    "(string \<Rightarrow> string option) \<Rightarrow> string \<Rightarrow> string \<Rightarrow> string list \<times> nat \<Rightarrow> (string list \<times> nat) option" where
  "collect_lines fs dir src acc =
     (if src = [] \<or> length (fst acc) \<ge> MAX_LINES then Some acc
      else
        let line = takeWhile (\<lambda>c. c \<noteq> NL) src; rest = drop 1 (dropWhile (\<lambda>c. c \<noteq> NL) src)
        in case include_name line of
             None \<Rightarrow> collect_lines fs dir rest (fst acc @ [take (MAX_LINE_LEN - 1) line], snd acc)
           | Some name \<Rightarrow>
               (case fs (include_path dir name) of
                  None \<Rightarrow> collect_lines fs dir rest (fst acc, snd acc + 1)
                | Some inc \<Rightarrow>
                    Option.bind (collect_lines fs dir (c_str inc) acc) (collect_lines fs dir rest)))"

subsection \<open>Assembling\<close>

definition asm0 :: "bool \<Rightarrow> asm" where
  "asm0 obj =
     \<lparr>as_syms = [], as_out = (\<lambda>_. 0), as_org = 0, as_pos = 0, as_max = 0, as_obj = obj, as_base = 0,
      as_hint = 0, as_relocs = [], as_errs = 0, as_ub = False\<rparr>"

definition assemble_lines :: "bool \<Rightarrow> string list \<times> nat \<Rightarrow> asm" where
  "assemble_lines obj ls = pass2 (fst ls) (pass1 (fst ls) ((asm0 obj)\<lparr>as_errs := snd ls\<rparr>))"

definition assemble_string :: "(string \<Rightarrow> string option) \<Rightarrow> string \<Rightarrow> bool \<Rightarrow> string \<Rightarrow> asm option" where
  "assemble_string fs dir obj src = map_option (assemble_lines obj) (collect_lines fs dir (c_str src) ([], 0))"

text \<open>The bytes copied to \<open>out\<close>.\<close>

definition out_bytes :: "u32 \<Rightarrow> u32 \<Rightarrow> asm \<Rightarrow> u8 list" where
  "out_bytes first n s = map (\<lambda>i. as_out s (first + of_nat i)) [0..<unat n]"

subsection \<open>Object files\<close>

definition wle32 :: "u32 \<Rightarrow> u8 list" where "wle32 v = le32_bytes v"
definition wle16 :: "u16 \<Rightarrow> u8 list" where "wle16 v = [ucast (v AND 0xFF), ucast (drop_bit 8 v AND 0xFF)]"

text \<open>A name in its field of 28 bytes: \<open>strncpy(n, name, 27)\<close> over zeros.\<close>

definition name_field :: "string \<Rightarrow> u8 list" where
  "name_field n = (let b = map of_char (take 27 (c_str n)) in b @ replicate (28 - length b) 0)"

definition write_sym :: "u32 \<Rightarrow> Symbol \<Rightarrow> u8 list" where
  "write_sym base y =
     name_field (sm_name y) @ wle32 (if sm_extern y then 0 else sm_addr y - base) @
     wle16 (if sm_extern y then 0xFFFF else 0) @ [if sm_global y then 1 else 0, 0]"

definition write_rel :: "ObjReloc \<Rightarrow> u8 list" where
  "write_rel r = wle32 (or_offset r) @ wle32 (or_sym r) @ [or_type r, 0, 0, 0] @ wle32 (or_addend r)"

definition section_size :: "asm \<Rightarrow> u32" where
  "section_size s = (if as_max s > as_base s then as_max s - as_base s else 0)"

definition write_dobj :: "asm \<Rightarrow> u8 list" where
  "write_dobj s =
     (let n_sym = of_nat (length (as_syms s)); n_rel = of_nat (length (as_relocs s))
      in [0x44, 0x4F, 0x42, 0x4A, 1, 0, 0, 0] @ wle32 1 @ wle32 n_sym @ wle32 n_rel @
         wle32 (24 + 24 + n_sym * 36 + n_rel * 16) @
         [0x2E, 0x74, 0x65, 0x78, 0x74, 0, 0, 0] @ wle32 0 @ wle32 (section_size s) @ wle32 (as_hint s) @ wle32 5 @
         concat (map (write_sym (as_base s)) (as_syms s)) @ concat (map write_rel (as_relocs s)) @
         out_bytes (as_base s) (section_size s) s)"

text \<open>
  \<open>main\<close> for an input file that opens: the bytes of the output file, \<open>None\<close> when the exit status
  is 1; the include directory is the input's, if its name has fewer than 1023 characters.
\<close>

definition include_dir :: "string \<Rightarrow> string" where
  "include_dir path =
     (let d = rev (drop 1 (dropWhile (\<lambda>c. c \<noteq> CHR ''/'') (rev path)))
      in if CHR ''/'' \<in> set path \<and> length d < 1023 then d else [])"

definition assembler_output :: "asm \<Rightarrow> u8 list option" where
  "assembler_output s =
     (if as_errs s > 0 then None
      else Some (if as_obj s then write_dobj s else out_bytes 0 (as_max s) s))"

definition assembler_main :: "(string \<Rightarrow> string option) \<Rightarrow> bool \<Rightarrow> string \<Rightarrow> u8 list option option" where
  "assembler_main fs obj infile =
     (case fs infile of
        None \<Rightarrow> Some None
      | Some src \<Rightarrow> map_option assembler_output (assemble_string fs (include_dir infile) obj src))"

text \<open>The map file: one line for each symbol.\<close>

definition symbol_map :: "asm \<Rightarrow> (u32 \<times> string) list" where
  "symbol_map s = map (\<lambda>y. (sm_addr y, sm_name y)) (as_syms s)"

end
