(* ===== verification/Tokens.thy ===== *)
theory Tokens
  imports Lexer
begin

text \<open>
  What the parser of \<open>assembler.c\<close> may rely on about the tokens it gets from \<open>tokenize_line\<close>: the
  shape of the text in each kind of token, and that it fits the buffer \<open>str\<close> of the \<open>Token\<close>
  structure with its terminator, for every line.
\<close>

text \<open>An identifier: not empty, not starting with a digit, and of the characters \<open>isalnum\<close> and \<open>_\<close>.\<close>

definition ident_wf :: "string \<Rightarrow> bool" where
  "ident_wf n \<longleftrightarrow> n \<noteq> [] \<and> \<not> isdigit (hd n) \<and> list_all ident_char n"

fun token_wf :: "token \<Rightarrow> bool" where
  "token_wf (TIdent n) \<longleftrightarrow> ident_wf n \<and> length n \<le> STR_MAX"
| "token_wf (TColon n) \<longleftrightarrow> ident_wf n \<and> length n \<le> STR_MAX"
| "token_wf (TDotIdent n) \<longleftrightarrow> n \<noteq> [] \<and> hd n = CHR ''.'' \<and> list_all ident_char (tl n) \<and> length n \<le> STR_MAX"
| "token_wf (TString s) \<longleftrightarrow> length s \<le> STR_MAX"
| "token_wf _ \<longleftrightarrow> True"

definition lexed_wf :: "lexed \<Rightarrow> bool" where
  "lexed_wf r \<longleftrightarrow> (case fst r of None \<Rightarrow> True | Some t \<Rightarrow> token_wf t)"

lemma ident_wf_take:
  assumes "isalpha c \<or> c = CHR ''_''"
  shows "ident_wf (take STR_MAX (takeWhile ident_char (c # r)))"
proof -
  have "\<not> isdigit c" using assms by (auto simp: isalpha_def isupper_def islower_def isdigit_def less_eq_char_def)
  moreover have "ident_char c" using assms by (auto simp: ident_char_def)
  moreover have "list_all ident_char (take k (takeWhile ident_char r))" for k
    by (auto simp: list_all_iff dest!: in_set_takeD set_takeWhileD)
  ultimately show ?thesis by (simp add: ident_wf_def take_Cons')
qed

lemma lex_string_length: "i \<le> STR_MAX \<Longrightarrow> length (fst (lex_string i s)) + i \<le> STR_MAX"
proof (induction i s rule: lex_string.induct)
  case (2 i c r)
  show ?case
  proof (cases "c = QUOTE \<or> i \<ge> STR_MAX")
    case False
    then have "i + 1 \<le> STR_MAX" by simp
    then show ?thesis using False 2
      by (cases "c = BACKSLASH"; cases r; simp add: lex_string.simps(2) [of i] case_prod_beta del: lex_string.simps)
  qed (use 2 in simp)
qed simp

lemma lexed_wf_word: "ident_wf (take STR_MAX (fst (lex_ident s))) \<Longrightarrow> lexed_wf (lex_word s)"
  by (auto simp: lexed_wf_def lex_word_def split: prod.splits list.split)

lemma lexed_wf_cases:
  "lexed_wf (lex_gt r)" "lexed_wf (lex_quoted r)" "lexed_wf (lex_dot r)" "lexed_wf (lex_number r)"
  "isalpha c \<or> c = CHR ''_'' \<Longrightarrow> lexed_wf (lex_word (c # r))"
proof -
  have "list_all ident_char (tl (take STR_MAX (CHR ''.'' # takeWhile ident_char r)))"
    by (auto simp: list_all_iff take_Cons' dest!: in_set_takeD set_takeWhileD)
  then show "lexed_wf (lex_dot r)" by (simp add: lexed_wf_def lex_dot_def lex_ident_def take_Cons')
  show "lexed_wf (lex_quoted r)"
    using lex_string_length [of 0 r] by (auto simp: lexed_wf_def lex_quoted_def split: prod.split)
  show "lexed_wf (lex_word (c # r))" if "isalpha c \<or> c = CHR ''_''"
    using ident_wf_take [OF that, of r] lexed_wf_word [of "c # r"] by (simp only: lex_ident_def fst_conv)
qed (simp_all add: lexed_wf_def lex_gt_def lex_number_def split: list.split prod.split)

lemma next_token_wf: "lexed_wf (next_token line)"
proof (cases "skip_ws line")
  case (Cons c r)
  then show ?thesis
    using lexed_wf_cases by (simp add: next_token_def) (simp add: lexed_wf_def)
qed (simp add: next_token_def lexed_wf_def)

lemma tokens_wf: "list_all token_wf (fst (tokens n line)) \<and> length (fst (tokens n line)) \<le> n"
proof (induction n arbitrary: line)
  case (Suc n)
  obtain o' rest err where t: "next_token line = (o', rest, err)" by (cases "next_token line")
  show ?case
    using next_token_wf [of line] Suc.IH [of rest] by (auto simp: t lexed_wf_def split: option.split prod.split)
qed simp

text \<open>C25: Every token of every line is well formed: an identifier or a label is a C-like name, a directive a
  dot and such characters, and no token text is longer than the 255 characters its buffer can
  hold in front of the terminator, however long the line; and there are never more tokens than
  the array of a line has entries.\<close>

theorem tokens_well_formed:
  "list_all token_wf (fst (tokenize_line line)) \<and> length (fst (tokenize_line line)) \<le> MAX_TOKS"
  unfolding tokenize_line_def by (rule tokens_wf)

end
