(* ===== verification/AsmInv.thy ===== *)
theory AsmInv
  imports Passes Tokens
begin

text \<open>
  What every line of a source does to the assembler's state. The locale \<open>operand_rel\<close> is the
  contract of the operand parsers, which only report errors; \<open>asm_rel\<close> extends it with the
  primitive updates of the state, and gives that both passes respect any preorder they respect.
  The interpretations: errors are never taken back, the tables stay within their arrays and the
  symbol names distinct.
\<close>

subsection \<open>Names in tokens\<close>

definition name_ok :: "string \<Rightarrow> bool" where
  "name_ok n \<longleftrightarrow> length n \<le> STR_MAX \<and> list_all ident_char n"

definition tok_ok :: "token \<Rightarrow> bool" where
  "tok_ok t = (case t of TIdent n \<Rightarrow> name_ok n | TColon n \<Rightarrow> name_ok n | _ \<Rightarrow> True)"

lemma tok_ok_simps [simp]: "tok_ok (TIdent n) = name_ok n" "tok_ok (TColon n) = name_ok n"
  by (simp_all add: tok_ok_def)

lemma token_wf_ok: "token_wf t \<Longrightarrow> tok_ok t"
  by (cases t) (simp_all add: tok_ok_def name_ok_def ident_wf_def)

lemma tokenize_line_ok: "tokenize_line line = (toks, err) \<Longrightarrow> list_all tok_ok toks"
  using tokens_wf [of MAX_TOKS line] by (auto simp: tokenize_line_def list_all_iff intro: token_wf_ok)

subsection \<open>What emission leaves alone\<close>

named_theorems emit_simps

lemma asm_error_fields [emit_simps]:
  "as_syms (asm_error s) = as_syms s" "as_org (asm_error s) = as_org s" "as_pos (asm_error s) = as_pos s"
  "as_max (asm_error s) = as_max s" "as_obj (asm_error s) = as_obj s" "as_base (asm_error s) = as_base s"
  "as_relocs (asm_error s) = as_relocs s" "as_errs (asm_error s) = Suc (as_errs s)" "as_out (asm_error s) = as_out s"
  "as_hint (asm_error s) = as_hint s"
  by (simp_all add: asm_error_def)

lemma asm_ub_fields [emit_simps]:
  "as_syms (asm_ub b s) = as_syms s" "as_org (asm_ub b s) = as_org s" "as_pos (asm_ub b s) = as_pos s"
  "as_max (asm_ub b s) = as_max s" "as_obj (asm_ub b s) = as_obj s" "as_base (asm_ub b s) = as_base s"
  "as_relocs (asm_ub b s) = as_relocs s" "as_errs (asm_ub b s) = as_errs s" "as_out (asm_ub b s) = as_out s"
  "as_hint (asm_ub b s) = as_hint s"
  by (simp_all add: asm_ub_def)

lemma emit_byte_fields [emit_simps]:
  "as_syms (emit_byte b s) = as_syms s" "as_org (emit_byte b s) = as_org s + 1"
  "as_obj (emit_byte b s) = as_obj s" "as_base (emit_byte b s) = as_base s" "as_relocs (emit_byte b s) = as_relocs s"
  "as_hint (emit_byte b s) = as_hint s"
  by (simp_all add: emit_byte_def Let_def emit_simps)

lemma emit_bytes_fields [emit_simps]:
  "as_syms (emit_bytes bs s) = as_syms s" "as_org (emit_bytes bs s) = as_org s + of_nat (length bs)"
  "as_obj (emit_bytes bs s) = as_obj s" "as_base (emit_bytes bs s) = as_base s"
  "as_relocs (emit_bytes bs s) = as_relocs s" "as_hint (emit_bytes bs s) = as_hint s"
  by (induction bs s rule: emit_bytes.induct) (simp_all add: emit_simps)

lemma emit_fields [emit_simps]:
  "as_syms (emit_word w s) = as_syms s" "as_org (emit_word w s) = as_org s + 4"
  "as_org (emit_fill n s) = as_org s + n" "as_org (emit_string t s) = as_org s + of_nat (length t)"
  by (simp_all add: emit_word_def emit_fill_def emit_string_def emit_simps)

lemma emit_reloc_fields [emit_simps]:
  "as_syms (emit_reloc ty i a s) = as_syms s" "as_org (emit_reloc ty i a s) = as_org s"
  by (simp_all add: emit_reloc_def emit_simps)

subsection \<open>Relations that every operation respects\<close>

locale operand_rel =
  fixes R :: "asm \<Rightarrow> asm \<Rightarrow> bool"
  assumes R_refl: "R s s"
    and R_trans: "R s t \<Longrightarrow> R t u \<Longrightarrow> R s u"
    and R_error: "R s (asm_error s)"
    and R_ub: "R s (asm_ub b s)"
begin

lemma R_step: "R t u \<Longrightarrow> R s t \<Longrightarrow> R s u" by (rule R_trans)

lemma R_if: "(c \<Longrightarrow> R s a) \<Longrightarrow> (\<not> c \<Longrightarrow> R s b) \<Longrightarrow> R s (if c then a else b)"
  by simp

lemma R_case_arg:
  "(\<And>v. R s (f v)) \<Longrightarrow> R s e \<Longrightarrow> R s (case ts of TInt v # _ \<Rightarrow> f v | _ \<Rightarrow> e)"
  "(\<And>t. R s (g t)) \<Longrightarrow> R s e \<Longrightarrow> R s (case ts of TString t # _ \<Rightarrow> g t | _ \<Rightarrow> e)"
  by (simp_all split: list.split token.split)

lemma R_fold: "(\<And>line s. line \<in> set ls \<Longrightarrow> R s (f s line)) \<Longrightarrow> R s (foldl f s ls)"
proof (induction ls arbitrary: s)
  case (Cons line ls)
  have "R (f s line) (foldl f (f s line) ls)" by (rule Cons.IH) (simp add: Cons.prems)
  with Cons.prems [of line s] show ?case by (simp add: R_trans)
qed (simp add: R_refl)

lemma R_fail: "R s (snd (fail s))" by (simp add: fail_def R_error)
lemma R_ret: "R s (snd (ret x s))" by (simp add: ret_def R_refl)
lemma R_check: "R s (snd (check b s))" by (simp add: check_def R_fail R_refl)
lemma R_in_range: "R s (snd (in_range pass lo hi v s))" by (simp add: in_range_def R_check)

lemma R_andthen:
  "(\<And>s. R s (snd (m s))) \<Longrightarrow> (\<And>x s. R s (snd (f x s))) \<Longrightarrow> R s (snd (andthen m f s))"
  by (auto simp: andthen_def split: prod.split option.split) (metis R_trans snd_conv)+

lemma R_symbol_value: "R s (snd (symbol_value pass n s))"
  by (simp add: symbol_value_def R_fail R_refl split: option.split)

lemma R_operand: "R s (snd (operand pass t s))" "R s (snd (first_operand pass t s))"
  by (simp_all add: operand_def first_operand_def R_fail R_ret R_symbol_value split: token.split)

lemma R_eval_ops: "R s (snd (eval_ops pass ts v s))"
proof (induction pass ts v arbitrary: s rule: eval_ops.induct)
  case (3 pass t u ts v)
  have "R s (snd (case apply_op t v r of (w, b) \<Rightarrow> eval_ops pass ts w (asm_ub b s)))" if "is_binop t" for r s
  proof -
    obtain w b where ab: "apply_op t v r = (w, b)" by force
    have "R (asm_ub b s) (snd (eval_ops pass ts w (asm_ub b s)))" using "3.IH" that ab by metis
    then show ?thesis using R_trans [OF R_ub] ab by simp
  qed
  note key = this
  show ?case
  proof (cases "is_binop t")
    case True
    show ?thesis unfolding eval_ops.simps if_P [OF True]
      by (rule R_andthen, rule R_operand, rule key [OF True])
  qed (simp add: R_ret)
qed (simp_all add: R_ret R_fail)

lemma R_eval_expr: "R s (snd (eval_expr pass ts s))"
  using R_trans [OF R_ub R_eval_ops]
  by (auto simp: eval_expr_def Let_def R_fail R_operand R_eval_ops R_ret intro!: R_andthen split: list.split)

lemma R_reg: "R s (snd (reg_operand ts s))"
  by (auto simp: reg_operand_def R_fail R_refl split: list.split token.split option.split)

lemma R_punct: "R s (snd (comma ts s))" "R s (snd (rbracket ts s))" "R s (snd (lbracket ts s))"
  by (auto simp: comma_def rbracket_def lbracket_def R_fail R_refl split: list.split token.split)

lemmas R_operands = R_fail R_ret R_refl R_reg R_punct R_eval_expr

lemma R_mem_offset: "R s (snd (mem_offset pass ts s))"
  unfolding mem_offset_def by (auto intro!: R_andthen simp: R_operands R_ub split: list.split token.split)

lemma R_parse_mem_operand: "R s (snd (parse_mem_operand pass ts s))"
proof -
  have "R s (snd (mem_bracket pass ts s))" for ts s
    unfolding mem_bracket_def by (auto intro!: R_andthen R_mem_offset simp: R_operands)
  moreover have "R s (snd (mem_plain pass ts s))" for ts s
    unfolding mem_plain_def by (auto intro!: R_andthen simp: R_operands split: list.split token.split)
  ultimately show ?thesis by (simp add: parse_mem_operand_def R_fail split: list.split)
qed

end

lemma peek_sym_ref_less: "peek_sym_ref s ts = Some (i, a) \<Longrightarrow> i < length (as_syms s)"
proof -
  have "find_sym_index ys n = Some i \<Longrightarrow> i < length ys" for ys n i
    by (induction ys arbitrary: i) (auto split: if_splits)
  then show "peek_sym_ref s ts = Some (i, a) \<Longrightarrow> i < length (as_syms s)"
    by (auto simp: peek_sym_ref_def split: list.splits token.splits option.splits if_splits)
qed

text \<open>What a pass emits; only the first pass advances the address without emitting.\<close>

locale emit_rel = operand_rel +
  fixes pass :: nat
  assumes R_advance: "pass \<noteq> 2 \<Longrightarrow> R s (advance n s)"
    and R_emit_byte: "R s (emit_byte b s)"
    and R_reloc: "i < length (as_syms s) \<Longrightarrow> ty \<in> {1, 2, 3, 4, 5} \<Longrightarrow> R s (emit_reloc ty i a s)"
begin

lemma R_emit_bytes: "R s (emit_bytes bs s)"
  by (induction bs s rule: emit_bytes.induct) (auto intro: R_refl R_trans [OF R_emit_byte])

lemma R_emit: "R s (emit_word w s)" "R s (emit_fill n s)" "R s (emit_string t s)"
  by (simp_all add: emit_word_def emit_fill_def emit_string_def R_emit_bytes)

lemma R_put_word: "R s (snd (put_word pass w s))"
  by (auto simp: put_word_def intro: R_emit R_advance)

lemma R_ref_word: "i < length (as_syms s) \<Longrightarrow> ty \<in> {1, 2, 3, 4, 5} \<Longrightarrow> R s (emit_word w (emit_reloc ty i a s))"
  by (rule R_trans [OF R_reloc R_emit(1)])

lemma R_pc_target: "ty \<in> {1, 2, 3, 4, 5} \<Longrightarrow> R s (snd (pc_target pass instr_addr ty w ts s))"
proof -
  assume ty: "ty \<in> {1, 2, 3, 4, 5}"
  have tail: "R s (snd (andthen (in_range pass lo hi v) (\<lambda>_. put_word pass x) (asm_ub b s)))" for lo hi v x b s
    by (rule R_trans [OF R_ub]) (rule R_andthen R_in_range R_put_word)+
  show "R s (snd (pc_target pass instr_addr ty w ts s))"
  proof (cases "extern_ref pass ts s")
    case None
    then show ?thesis unfolding pc_target_def None option.case Let_def
      by (intro R_andthen R_eval_expr) (simp only: prod.case split_beta tail)
  next
    case (Some p)
    then have "fst p < length (as_syms s)"
      by (cases p) (auto simp: extern_ref_def dest: peek_sym_ref_less split: if_splits option.splits)
    then show ?thesis using Some ty by (cases p) (simp add: pc_target_def R_ref_word)
  qed
qed

lemma R_formats:
  "(\<And>rd rs1 ts s. R s (snd (f rd rs1 ts s))) \<Longrightarrow> R s (snd (rd_rs1 ts f s))"
  "(\<And>v s. R s (snd (chk v s))) \<Longrightarrow> R s (snd (rd_rs1_imm pass ts chk enc2 s))"
  "(\<And>v s. R s (snd (chk v s))) \<Longrightarrow> R s (snd (rd_imm pass ts chk enc1 s))"
  "R s (snd (push_pop pass ts e1 e2 s))"
  "R s (snd (indexed pass w ts s))"
  unfolding rd_rs1_def rd_rs1_imm_def rd_imm_def push_pop_def indexed_def
  by (auto intro!: R_andthen R_put_word R_trans [OF R_emit(1) R_emit(1)]
      simp: R_operands R_advance split: list.split token.split)

lemma R_movi32: "R s (snd (movi32 pass ts s))"
proof -
  have "R s (movi32_ref rd i a s)" if i: "i < length (as_syms s)" for i a rd s
  proof -
    let ?t = "emit_word (enc_op 0x0F OR enc_rd rd) (emit_reloc 2 i a s)"
    have "R ?t (movi32_ref rd i a s)"
      unfolding movi32_ref_def using i by (intro R_ref_word) (simp_all add: emit_simps)
    from R_trans [OF R_ref_word [OF i, of 2] this] show ?thesis by simp
  qed
  moreover have "R s (snd (movi32_val pass rd ts s))" for ts rd s
    unfolding movi32_val_def
    by (auto intro!: R_andthen R_trans [OF R_emit(1) R_emit(1)] simp: R_eval_expr R_advance)
  ultimately have "R s (snd (case (if as_obj s \<and> pass = 2 then peek_sym_ref s ts else None) of
      Some (i, a) \<Rightarrow> (Some (), movi32_ref rd i (ucast a) s) | None \<Rightarrow> movi32_val pass rd ts s))" for ts rd s
    by (auto split: option.split dest: peek_sym_ref_less)
  then show ?thesis unfolding movi32_def by (auto intro!: R_andthen simp: R_operands)
qed

lemma R_error_word: "pass = 2 \<Longrightarrow> R s (snd (put_word 2 w (asm_error s)))"
  using R_trans [OF R_error R_put_word] by simp

lemma R_assemble_fmt: "R s (snd (assemble_fmt pass instr_addr op ts s))"
  unfolding assemble_fmt_eqs Let_def
  by (cases "oe_fmt op")
    (auto intro!: R_andthen R_formats R_put_word R_movi32 R_pc_target R_parse_mem_operand R_in_range R_check
      R_error_word simp: R_operands split: list.split)

lemma R_data:
  "R s (dir_word pass ts s)" "R s (dir_byte pass ts s)"
proof -
  have ev: "eval_expr pass ts s = (r, t) \<Longrightarrow> R s t" for pass ts s r t
    using R_eval_expr [of s pass ts] by simp
  show "R s (dir_word pass ts s)"
  proof (cases "if as_obj s \<and> pass = 2 then peek_sym_ref s ts else None")
    case None
    then show ?thesis unfolding dir_word_def None option.case Let_def
      by (auto intro!: R_step [OF R_emit(1)] R_step [OF R_advance] dest: ev split: prod.split)
  next
    case (Some p)
    then have "fst p < length (as_syms s)" by (cases p) (auto dest: peek_sym_ref_less split: if_splits)
    then show ?thesis unfolding dir_word_def Some by (cases p) (simp add: R_ref_word)
  qed
  show "R s (dir_byte pass ts s)"
    unfolding dir_byte_def Let_def
    by (auto intro!: R_step [OF R_emit_byte] R_step [OF R_advance] dest: ev split: option.split prod.split)
qed

end

text \<open>The primitive updates of the passes.\<close>

locale asm_rel = operand_rel +
  assumes R_org: "R s (s\<lparr>as_org := a\<rparr>)"
    and R_pos: "R s (s\<lparr>as_pos := a\<rparr>)"
    and R_base: "R s (s\<lparr>as_base := a, as_hint := a\<rparr>)"
    and R_emit_byte: "R s (emit_byte b s)"
    and R_with_symbol: "name_ok n \<Longrightarrow> f \<in> {set_global, set_extern} \<union> range set_equ \<union> range set_label \<Longrightarrow> R s (with_symbol n f s)"
    and R_reloc: "i < length (as_syms s) \<Longrightarrow> ty \<in> {1, 2, 3, 4, 5} \<Longrightarrow> R s (emit_reloc ty i a s)"

sublocale asm_rel \<subseteq> emit: emit_rel R pass for pass
  by unfold_locales (simp_all add: advance_def R_org R_emit_byte R_reloc)

context asm_rel
begin

lemma R_advance: "R s (advance n s)" by (simp add: advance_def R_org)

lemmas R_emit = emit.R_emit
lemmas R_assemble_fmt = emit.R_assemble_fmt

lemma R_directive_parts:
  "R s (dir_org pass a s)" "R s (dir_word pass ts s)" "R s (dir_byte pass ts s)" "R s (dir_align pass a s)"
  "list_all tok_ok ts \<Longrightarrow> R s (dir_equ pass ts s)" "list_all tok_ok ts \<Longrightarrow> R s (dir_global ts s)"
proof -
  have ev: "eval_expr pass ts s = (r, t) \<Longrightarrow> R s t" for pass ts s r t
    using R_eval_expr [of s pass ts] by simp
  show "R s (dir_org pass a s)"
    unfolding dir_org_def Let_def
    by (auto intro: R_org R_step [OF R_pos] R_step [OF R_org] R_emit R_error R_refl)
  show "R s (dir_word pass ts s)" "R s (dir_byte pass ts s)" by (rule emit.R_data)+
  show "R s (dir_align pass a s)"
    by (auto simp: dir_align_def Let_def intro: R_org R_emit R_refl)
  show "list_all tok_ok ts \<Longrightarrow> R s (dir_equ pass ts s)"
    by (auto simp: dir_equ_def intro!: R_error R_step [OF R_with_symbol] dest: ev
        split: list.split token.split option.split prod.split)
  show "list_all tok_ok ts \<Longrightarrow> R s (dir_global ts s)"
    by (auto simp: dir_global_def intro!: R_refl R_with_symbol split: list.split token.split)
qed

lemma R_case_ident:
  assumes "\<And>n. name_ok n \<Longrightarrow> R s (h n)" "list_all tok_ok ts" "R s e"
  shows "R s (case ts of TIdent n # _ \<Rightarrow> h n | _ \<Rightarrow> e)"
proof (cases ts)
  case (Cons t rest)
  then show ?thesis using assms by (cases t) simp_all
qed (simp add: assms)

lemma R_process_directive:
  assumes "list_all tok_ok ts"
  shows "R s (process_directive pass dir ts s)"
  unfolding process_directive_def
  by (intro R_if R_case_arg R_case_ident R_directive_parts assms R_error R_refl R_emit R_advance)

lemma R_assemble_line:
  assumes "list_all tok_ok toks"
  shows "R s (assemble_line pass toks s)"
proof -
  have "list_all tok_ok (dropWhile is_label toks)"
    using assms by (auto simp: list_all_iff dest: set_dropWhileD)
  moreover
  have "R s (case assemble_fmt pass a op ts s of (Some _, s) \<Rightarrow> s
      | (None, s) \<Rightarrow> if pass = 1 then advance n s else s)" for a op ts n
    using R_assemble_fmt [of s pass a op ts] R_trans [OF _ R_advance]
    by (auto split: prod.split option.split)
  ultimately show ?thesis unfolding assemble_line_def
    by (auto intro!: R_process_directive R_error R_refl split: list.split token.split option.split)
qed

lemma R_count_error: "R s (count_error b s)"
  by (simp add: count_error_def R_error R_refl)

lemma R_collect_labels: "list_all tok_ok ts \<Longrightarrow> R s (snd (collect_labels ts s))"
proof (induction ts s rule: collect_labels.induct)
  case (1 n ts s)
  have "R s (define_label n s)" using 1(2)
    by (auto simp: define_label_def intro!: R_error R_with_symbol split: option.split)
  with 1 show ?case by (auto intro: R_trans)
qed (simp_all add: R_refl)

lemma collect_labels_ok: "list_all tok_ok ts \<Longrightarrow> list_all tok_ok (fst (collect_labels ts s))"
  by (induction ts s rule: collect_labels.induct) simp_all

lemma R_pass1_directive:
  assumes "list_all tok_ok ts"
  shows "R s (pass1_directive toks err dir ts s)"
proof -
  have ev: "eval_expr pass ts s = (r, t) \<Longrightarrow> R s t" for pass ts s r t
    using R_eval_expr [of s pass ts] by simp
  have "R s (pass1_equ ts s)" using assms
    by (auto simp: pass1_equ_def intro!: R_refl R_step [OF R_with_symbol] dest: ev
        split: list.split token.split prod.split)
  moreover have "R s (pass1_org a s)" for a
    by (auto simp: pass1_org_def Let_def intro: R_org R_step [OF R_org R_base])
  moreover have "name_ok n \<Longrightarrow> R s (with_symbol n set_extern s)" for n by (rule R_with_symbol) simp_all
  ultimately show ?thesis unfolding pass1_directive_def
    by (intro R_if R_case_arg R_case_ident assms R_refl R_org R_directive_parts R_step [OF R_advance R_count_error])
qed

lemma R_lines: "R s (pass1_line text s)" "R s (pass2_line text s)"
proof -
  show "R s (pass1_line text s)"
  proof (cases "tokenize_line text")
    case (Pair toks err)
    obtain rest t where c: "collect_labels toks (count_error err s) = (rest, t)" by force
    note ok = tokenize_line_ok [OF Pair]
    have "list_all tok_ok rest" using collect_labels_ok [OF ok, of "count_error err s"] c by simp
    moreover have "R s t" using R_trans [OF R_count_error [of s err] R_collect_labels [OF ok]] c by simp
    ultimately have "R s t" "R t (case rest of TDotIdent dir # ts \<Rightarrow> pass1_directive toks err dir ts t
        | TIdent m # _ \<Rightarrow> advance (instr_size m) t | _ \<Rightarrow> t)"
      by (auto intro!: R_pass1_directive R_advance R_refl split: list.split token.split)
    then show ?thesis by (auto simp: pass1_line_def Pair c intro: R_trans)
  qed
  show "R s (pass2_line text s)"
    unfolding pass2_line_def Let_def
    by (auto intro!: R_count_error R_step [OF R_assemble_line R_count_error] dest: tokenize_line_ok split: prod.split)
qed

lemma R_assemble_lines:
  assumes "\<And>s. R s (s\<lparr>as_org := 0, as_pos := 0, as_max := 0\<rparr>)"
  shows "R s (pass2 ls (pass1 ls s))"
proof -
  have "R s (pass1 ls s)" unfolding pass1_def by (rule R_trans [OF R_org R_fold]) (rule R_lines)
  moreover have "R t (pass2 ls t)" for t unfolding pass2_def
    by (rule R_trans [OF assms R_fold]) (rule R_lines)
  ultimately show ?thesis by (rule R_trans)
qed

end

end
