(* ===== verification/Labels.thy ===== *)
theory Labels
  imports AsmProps
begin

text \<open>
  Labels: the address pass 1 gives a label is kept to the end, it is the address pass 2 has reached
  at the label's line, and that is the place of the output buffer where the line's bytes go.
\<close>

subsection \<open>What emission leaves alone\<close>

interpretation syms: emit_rel "\<lambda>s t. as_syms t = as_syms s" pass for pass
  by unfold_locales (simp_all add: emit_simps advance_def)

text \<open>In pass 2 the address is the position in the buffer, until an error is reported.\<close>

definition stays_placed :: "asm \<Rightarrow> asm \<Rightarrow> bool" where
  "stays_placed s t \<longleftrightarrow>
     as_errs s \<le> as_errs t \<and> (as_errs t = as_errs s \<and> as_pos s = as_org s \<longrightarrow> as_pos t = as_org t)"

interpretation placed: emit_rel stays_placed 2
  by unfold_locales (auto simp: stays_placed_def emit_simps emit_byte_def emit_reloc_def Let_def)

subsection \<open>Updates of the symbol table\<close>

lemma find_set_symbol:
  "(\<And>y. sm_name (f y) = sm_name y) \<Longrightarrow>
     find_symbol (set_symbol f m ys) n = (if n = m then map_option f (find_symbol ys m) else find_symbol ys n)"
  by (induction ys) auto

lemma find_append_some: "find_symbol ys n = Some y \<Longrightarrow> find_symbol (ys @ zs) n = Some y"
  by (induction ys) (auto split: if_splits)

lemma find_append_none: "find_symbol ys n = None \<Longrightarrow> find_symbol (ys @ zs) n = find_symbol zs n"
  by (induction ys) (auto split: if_splits)

text \<open>A definition of \<open>n\<close> stays, with its address.\<close>

definition keeps :: "string \<Rightarrow> asm \<Rightarrow> asm \<Rightarrow> bool" where
  "keeps n s t \<longleftrightarrow> (\<forall>y. find_symbol (as_syms s) n = Some y \<and> sm_defined y \<longrightarrow>
     (\<exists>y'. find_symbol (as_syms t) n = Some y' \<and> sm_defined y' \<and> sm_addr y' = sm_addr y))"

lemma keeps_syms: "as_syms t = as_syms s \<Longrightarrow> keeps n s t"
  by (simp add: keeps_def)

lemma keeps_trans: "keeps n s t \<Longrightarrow> keeps n t u \<Longrightarrow> keeps n s u"
  unfolding keeps_def by metis

interpretation kept: operand_rel "keeps n" for n
  by unfold_locales (auto simp: emit_simps intro: keeps_syms keeps_trans)

lemma keeps_with_symbol:
  assumes "\<And>y. sm_name (f y) = sm_name y" "m = n \<Longrightarrow> f = set_global"
  shows "keeps n s (with_symbol m f s)"
proof -
  let ?s1 = "if find_symbol (as_syms s) m = None then add_symbol m s else s"
  have "keeps n s ?s1"
    by (auto simp: add_symbol_def keeps_def emit_simps intro: find_append_some)
  moreover have "keeps n s1 (s1\<lparr>as_syms := set_symbol f m (as_syms s1)\<rparr>)" for s1
    unfolding keeps_def using assms(2) by (auto simp: find_set_symbol [OF assms(1)] set_global_def)
  ultimately show ?thesis unfolding with_symbol_def Let_def by (rule keeps_trans)
qed

lemma keeps_define_label: "keeps n s (define_label m s)"
proof (cases "m = n \<and> (\<exists>y. find_symbol (as_syms s) n = Some y \<and> sm_defined y)")
  case True
  then show ?thesis by (auto simp: define_label_def intro: keeps_syms simp: emit_simps)
next
  case False
  show ?thesis
  proof (cases "m = n")
    case True
    with False show ?thesis by (auto simp: keeps_def)
  next
    case False
    then have "keeps n s (with_symbol m (set_label a) s)" for a
      by (intro keeps_with_symbol) (simp_all add: set_label_def)
    then show ?thesis
      by (auto simp: define_label_def intro: keeps_syms simp: emit_simps split: option.split)
  qed
qed

lemma keeps_collect_labels: "keeps n s (snd (collect_labels ts s))"
proof (induction ts s rule: collect_labels.induct)
  case (1 m ts s)
  then show ?case using keeps_trans [OF keeps_define_label] by simp
qed (simp_all add: keeps_syms)

text \<open>The lines that may give \<open>n\<close> another value, or make it external.\<close>

definition redefines :: "string \<Rightarrow> string \<Rightarrow> bool" where
  "redefines n line \<longleftrightarrow>
     (case dropWhile is_label (fst (tokenize_line line)) of
        TDotIdent dir # TIdent m # _ \<Rightarrow> m = n \<and> (same_case dir ''.equ'' \<or> same_case dir ''.extern'')
      | _ \<Rightarrow> False)"

lemma keeps_eval: "eval_expr pass ts s = (r, t) \<Longrightarrow> keeps n s t"
  using kept.R_eval_expr [where s = s] by (metis snd_conv)

lemma keeps_equ:
  assumes "\<And>rest. ts \<noteq> TIdent n # rest"
  shows "keeps n s (dir_equ pass ts s)" "keeps n s (pass1_equ ts s)"
proof -
  have *: "keeps n s (with_symbol m (set_equ v) t)" if "m \<noteq> n" "keeps n s t" for m v t
    using that by (intro keeps_trans [OF that(2) keeps_with_symbol]) (simp_all add: set_equ_def)
  show "keeps n s (dir_equ pass ts s)" "keeps n s (pass1_equ ts s)"
    using assms
    by (auto simp: dir_equ_def pass1_equ_def emit_simps intro!: * intro: keeps_syms keeps_eval
        split: list.split token.split prod.split option.split)
qed

lemma keeps_global: "keeps n s (dir_global ts s)"
  by (auto simp: dir_global_def set_global_def intro!: keeps_with_symbol intro: keeps_syms
      split: list.split token.split)

lemma keeps_extern:
  assumes "\<And>rest. ts \<noteq> TIdent n # rest"
  shows "keeps n s (case ts of TIdent m # _ \<Rightarrow> with_symbol m set_extern s | _ \<Rightarrow> s)"
  using assms
  by (auto simp: set_extern_def intro!: keeps_with_symbol intro: keeps_syms split: list.split token.split)

lemma keeps_pass1_directive:
  assumes "same_case dir ''.equ'' \<or> same_case dir ''.extern'' \<Longrightarrow> \<forall>rest. ts \<noteq> TIdent n # rest"
  shows "keeps n s (pass1_directive toks err dir ts s)"
proof -
  have same: "as_syms (pass1_org a s) = as_syms s" "as_syms (advance k (count_error err s)) = as_syms s" for a k
    by (simp_all add: pass1_org_def Let_def advance_def count_error_def emit_simps)
  have no: "ts \<noteq> TIdent n # rest" if "same_case dir ''.equ'' \<or> same_case dir ''.extern''" for rest
    using assms that by blast
  show ?thesis unfolding pass1_directive_def
    by (intro kept.R_if kept.R_case_arg keeps_extern keeps_equ keeps_global no; (rule disjI1 disjI2, assumption)?)
      (auto simp: same emit_simps intro: keeps_syms)
qed

lemma keeps_process_directive:
  assumes "same_case dir ''.equ'' \<Longrightarrow> \<forall>rest. ts \<noteq> TIdent n # rest"
  shows "keeps n s (process_directive 2 dir ts s)"
proof -
  have emit: "as_syms (emit_fill k s) = as_syms s" "as_syms (emit_string x s) = as_syms s"
    "as_syms (dir_word 2 ts s) = as_syms s" "as_syms (dir_byte 2 ts s) = as_syms s" for k x ts s
    using syms.R_emit(2,3) syms.R_data [where pass = 2] by simp_all
  have same: "as_syms (dir_org 2 a s) = as_syms s" "as_syms (dir_align 2 a s) = as_syms s" for a
    by (simp_all add: dir_org_def dir_align_def Let_def emit emit_simps)
  have no: "ts \<noteq> TIdent n # rest" if "same_case dir ''.equ''" for rest
    using assms that by blast
  show ?thesis unfolding process_directive_def
    by (intro kept.R_if kept.R_case_arg keeps_equ keeps_global no; assumption?)
      (auto simp: same emit emit_simps intro: keeps_syms)
qed

text \<open>A line of pass 1 is its labels and then a directive or an instruction.\<close>

lemma pass1_after_labels:
  assumes "tokenize_line line = (toks, err)" "\<not> redefines n line" "t = snd (collect_labels toks (count_error err s))"
  shows "keeps n t (pass1_line line s)" "as_errs t \<le> as_errs (pass1_line line s)"
proof -
  let ?s = "count_error err s" and ?r = "dropWhile is_label toks"
  have c: "collect_labels toks ?s = (?r, t)"
    using collect_labels_spec [of toks ?s] assms(3) by (cases "collect_labels toks ?s") auto
  have ok: "list_all tok_ok ?r"
    using tokenize_line_ok [OF assms(1)] by (auto simp: list_all_iff dest: set_dropWhileD)
  have line: "pass1_line line s = (case ?r of TDotIdent dir # ts \<Rightarrow> pass1_directive toks err dir ts t
      | TIdent m # _ \<Rightarrow> advance (instr_size m) t | _ \<Rightarrow> t)"
    by (simp add: pass1_line_def assms(1) c)
  have "keeps n t (pass1_directive toks err dir ts t)" if "?r = TDotIdent dir # ts" for dir ts
    using assms(1,2) that by (intro keeps_pass1_directive) (auto simp: redefines_def)
  then show "keeps n t (pass1_line line s)" unfolding line
    by (auto simp: advance_def intro: keeps_syms split: list.split token.split)
  have "as_errs t \<le> as_errs (pass1_directive toks err dir ts t)" if "?r = TDotIdent dir # ts" for dir ts
    using ok that by (intro errs.R_pass1_directive) simp
  then show "as_errs t \<le> as_errs (pass1_line line s)" unfolding line
    by (auto simp: advance_def split: list.split token.split)
qed

lemma keeps_pass1_line:
  assumes "\<not> redefines n line"
  shows "keeps n s (pass1_line line s)"
proof -
  obtain toks err where tk: "tokenize_line line = (toks, err)" by force
  have "keeps n s (count_error err s)" by (simp add: count_error_def keeps_syms emit_simps)
  then show ?thesis
    using keeps_trans [OF keeps_trans [OF _ keeps_collect_labels] pass1_after_labels(1) [OF tk assms refl]] by blast
qed

lemma keeps_pass2_line:
  assumes "\<not> redefines n line"
  shows "keeps n s (pass2_line line s)"
proof -
  obtain toks err where tk: "tokenize_line line = (toks, err)" by force
  let ?s = "count_error err s" and ?r = "dropWhile is_label toks"
  have s: "keeps n s ?s" by (simp add: count_error_def keeps_syms emit_simps)
  have dir: "keeps n ?s (process_directive 2 dir ts ?s)" if "?r = TDotIdent dir # ts" for dir ts
    using assms that by (intro keeps_process_directive) (auto simp: redefines_def tk)
  have ins: "keeps n ?s (case assemble_fmt 2 a op ts ?s of
      (Some _, s) \<Rightarrow> s | (None, s) \<Rightarrow> if 2 = (1 :: nat) then advance k s else s)" for a op ts k
  proof (cases "assemble_fmt 2 a op ts ?s")
    case (Pair r u)
    then have "as_syms u = as_syms ?s" using syms.R_assemble_fmt [where pass = 2, of a op ts ?s] by simp
    then show ?thesis using Pair by (cases r) (simp_all add: keeps_syms)
  qed
  have "keeps n ?s (assemble_line 2 toks ?s)"
    using dir ins by (auto simp: assemble_line_def emit_simps intro: keeps_syms split: list.split token.split option.split)
  then show ?thesis using s by (auto simp: pass2_line_def tk Let_def intro: keeps_trans)
qed

subsection \<open>The address of a label\<close>

lemma define_label_errs: "name_ok n \<Longrightarrow> as_errs s \<le> as_errs (define_label n s)"
  using errs.R_collect_labels [of "[TColon n]" s] by (simp add: tok_ok_def)

lemma define_label_defines:
  assumes "name_ok n" "as_errs (define_label n s) = as_errs s"
  shows "\<exists>y. find_symbol (as_syms (define_label n s)) n = Some y \<and> sm_defined y \<and> sm_addr y = as_org s"
proof (cases "find_symbol (as_syms s) n")
  case None
  have "sm_name (new_symbol n) = n" using assms(1) by (simp add: new_symbol_def name_ok_def)
  then show ?thesis using assms(2) None
    by (auto simp: define_label_def with_symbol_def add_symbol_def Let_def emit_simps find_set_symbol set_label_def
        find_append_none split: if_splits)
next
  case (Some y)
  then show ?thesis using assms(2)
    by (auto simp: define_label_def with_symbol_def Let_def emit_simps find_set_symbol set_label_def split: if_splits)
qed

lemma collect_labels_defines:
  assumes "list_all tok_ok ts" "TColon n \<in> set (takeWhile is_label ts)" "as_errs (snd (collect_labels ts s)) = as_errs s"
  shows "\<exists>y. find_symbol (as_syms (snd (collect_labels ts s))) n = Some y \<and> sm_defined y \<and> sm_addr y = as_org s"
  using assms
proof (induction ts s rule: collect_labels.induct)
  case (1 m ts s)
  let ?s = "define_label m s"
  have ok: "name_ok m" "list_all tok_ok ts" using "1.prems"(1) by (simp_all add: tok_ok_def [of "TColon m"])
  have e: "as_errs ?s = as_errs s" "as_errs (snd (collect_labels ts ?s)) = as_errs ?s"
    using define_label_errs [OF ok(1), of s] errs.R_collect_labels [OF ok(2), of ?s] "1.prems"(3) by simp_all
  show ?case
  proof (cases "m = n")
    case True
    then show ?thesis using define_label_defines [OF ok(1) e(1)] keeps_collect_labels [of n ?s ts]
      by (auto simp: keeps_def)
  next
    case False
    then have "TColon n \<in> set (takeWhile is_label ts)" using "1.prems"(2) by (simp add: is_label_def [of "TColon m"])
    then show ?thesis using "1.IH" [OF ok(2) _ e(2)] by (simp add: define_label_org)
  qed
qed (simp_all add: is_label_def)

lemma pass1_line_defines:
  assumes "TColon n \<in> set (takeWhile is_label (fst (tokenize_line line)))" "\<not> redefines n line"
    and "as_errs (pass1_line line s) = as_errs s"
  shows "\<exists>y. find_symbol (as_syms (pass1_line line s)) n = Some y \<and> sm_defined y \<and> sm_addr y = as_org s"
proof -
  obtain toks err where tk: "tokenize_line line = (toks, err)" by force
  let ?s = "count_error err s"
  note ok = tokenize_line_ok [OF tk] and rest = pass1_after_labels [OF tk assms(2) refl, of s]
  have "as_errs s \<le> as_errs ?s" "as_errs ?s \<le> as_errs (snd (collect_labels toks ?s))" "as_org ?s = as_org s"
    using errs.R_collect_labels [OF ok, of ?s] by (simp_all add: count_error_def emit_simps)
  then obtain y where "find_symbol (as_syms (snd (collect_labels toks ?s))) n = Some y" "sm_defined y" "sm_addr y = as_org s"
    using collect_labels_defines [OF ok, of n ?s] rest(2) assms(1,3) tk by auto
  then show ?thesis using rest(1) by (auto simp: keeps_def)
qed

subsection \<open>The place of the bytes\<close>

lemma placed_with_symbol: "stays_placed s (with_symbol n f s)"
  by (auto simp: stays_placed_def with_symbol_def add_symbol_def Let_def emit_simps)

lemma placed_directive_parts:
  "stays_placed s (dir_org 2 a s)" "stays_placed s (dir_align 2 a s)"
  "stays_placed s (dir_equ 2 ts s)" "stays_placed s (dir_global ts s)"
proof -
  have "as_errs s \<le> as_errs (dir_org 2 a s)" by (rule errs.R_directive_parts)
  moreover have "as_pos (dir_org 2 a s) = as_org (dir_org 2 a s)" by (simp add: dir_org_def Let_def)
  ultimately show "stays_placed s (dir_org 2 a s)" by (simp add: stays_placed_def)
  show "stays_placed s (dir_align 2 a s)"
    by (simp add: dir_align_def Let_def placed.R_emit placed.R_refl)
  have ev: "eval_expr pass ts s = (r, t) \<Longrightarrow> stays_placed s t" for pass ts r t
    using placed.R_eval_expr [where s = s] by (metis snd_conv)
  show "stays_placed s (dir_equ 2 ts s)"
    by (auto simp: dir_equ_def intro: placed.R_error placed.R_step [OF placed_with_symbol] dest: ev
        split: list.split token.split option.split prod.split)
  show "stays_placed s (dir_global ts s)"
    by (auto simp: dir_global_def intro: placed_with_symbol placed.R_refl split: list.split token.split)
qed

lemma placed_process_directive: "stays_placed s (process_directive 2 dir ts s)"
  unfolding process_directive_def if_P [OF refl]
  by (intro placed.R_if placed.R_case_arg placed_directive_parts placed.R_data placed.R_error placed.R_refl placed.R_emit placed.R_advance)

lemma placed_pass2_line: "stays_placed s (pass2_line line s)"
proof -
  obtain toks err where tk: "tokenize_line line = (toks, err)" by force
  have s: "stays_placed s (count_error err s)"
    by (simp add: count_error_def placed.R_error placed.R_refl)
  have "stays_placed s (case assemble_fmt 2 a op ts s of
      (Some _, s) \<Rightarrow> s | (None, s) \<Rightarrow> if 2 = (1 :: nat) then advance k s else s)" for s a op ts k
  proof (cases "assemble_fmt 2 a op ts s")
    case (Pair r u)
    then have "stays_placed s u" using placed.R_assemble_fmt [of s a op ts] by simp
    then show ?thesis using Pair by (cases r) simp_all
  qed
  then have "stays_placed s (assemble_line 2 toks s)" for s
    by (auto simp: assemble_line_def placed_process_directive placed.R_error placed.R_refl
        split: list.split token.split option.split)
  then show ?thesis using placed.R_trans [OF s] s by (simp add: pass2_line_def tk Let_def)
qed

subsection \<open>Labels\<close>

lemma pass1_fold_errs: "as_errs s \<le> as_errs (foldl (\<lambda>s line. pass1_line line s) s ls)"
  by (rule errs.R_fold) (rule errs.R_lines)

lemma pass1_defines:
  assumes "k < length ls" "TColon n \<in> set (takeWhile is_label (fst (tokenize_line (ls ! k))))"
    and "list_all (\<lambda>line. \<not> redefines n line) ls" "as_errs (pass1 ls s) = 0"
  shows "\<exists>y. find_symbol (as_syms (pass1 ls s)) n = Some y \<and> sm_defined y \<and> sm_addr y = as_org (pass1 (take k ls) s)"
proof -
  let ?f = "foldl (\<lambda>s line. pass1_line line s)" and ?x = "ls ! k" and ?b = "drop (Suc k) ls"
  let ?s1 = "?f (s\<lparr>as_org := 0\<rparr>) (take k ls)"
  have "ls = take k ls @ ?x # ?b" using assms(1) by (rule id_take_nth_drop)
  then have whole: "pass1 ls s = ?f (pass1_line ?x ?s1) ?b"
    unfolding pass1_def by (metis foldl_append foldl.simps(2))
  have "as_errs ?s1 \<le> as_errs (pass1_line ?x ?s1)" by (rule errs.R_lines)
  moreover have "as_errs (pass1_line ?x ?s1) \<le> 0" using pass1_fold_errs [of "pass1_line ?x ?s1" ?b] assms(4) whole by simp
  ultimately have e: "as_errs (pass1_line ?x ?s1) = as_errs ?s1" by simp
  have "\<not> redefines n ?x" using assms(1,3) by (simp add: list_all_length)
  from pass1_line_defines [OF assms(2) this e] obtain y
    where "find_symbol (as_syms (pass1_line ?x ?s1)) n = Some y" "sm_defined y" "sm_addr y = as_org ?s1" by blast
  moreover have "keeps n (pass1_line ?x ?s1) (?f (pass1_line ?x ?s1) ?b)"
    using assms(3) by (intro kept.R_fold keeps_pass1_line) (auto simp: list_all_iff dest: in_set_dropD)
  ultimately show ?thesis unfolding whole by (auto simp: keeps_def pass1_def)
qed

lemma pass2_placed: "as_errs (pass2 ls s) = as_errs s \<Longrightarrow> as_pos (pass2 ls s) = as_org (pass2 ls s)"
  using placed.R_fold [where f = "\<lambda>s line. pass2_line line s" and s = "s\<lparr>as_org := 0, as_pos := 0, as_max := 0\<rparr>" and ls = ls] placed_pass2_line
  by (simp add: stays_placed_def pass2_def)

text \<open>C7: In an error-free assembly a label is the place of the code behind it: its entry in the final
  symbol table holds the address that pass 2 has reached at the label's line, and the bytes of
  that line go to the output buffer at exactly that offset. The label must not also be the name
  of an .equ or .extern, which would override it, and no directive may have two labels.\<close>

theorem label_addresses:
  assumes "as_errs (assemble_lines obj ls) = 0" "list_all one_label (fst ls)"
    and "list_all (\<lambda>line. \<not> redefines n line) (fst ls)" "k < length (fst ls)"
    and "TColon n \<in> set (takeWhile is_label (fst (tokenize_line (fst ls ! k))))"
    and "s = (asm0 obj)\<lparr>as_errs := snd ls\<rparr>" "t = pass2 (take k (fst ls)) (pass1 (fst ls) s)"
  shows "\<exists>y. find_symbol (as_syms (assemble_lines obj ls)) n = Some y \<and> sm_addr y = as_org t \<and> as_pos t = as_org t"
proof -
  let ?f = "foldl (\<lambda>s line. pass2_line line s)" and ?p1 = "pass1 (fst ls) s"
  let ?b = "?p1\<lparr>as_org := 0, as_pos := 0, as_max := 0\<rparr>"
  have whole: "assemble_lines obj ls = ?f ?b (fst ls)" by (simp add: assemble_lines_def pass2_def assms(6))
  have e1: "as_errs ?p1 = 0" using pass2_fold_errs [of ?b "fst ls"] assms(1) whole by simp
  have "?f ?b (fst ls) = ?f t (drop k (fst ls))"
    unfolding assms(7) pass2_def by (metis append_take_drop_id foldl_append)
  then have "as_errs t = 0" using pass2_fold_errs [of t "drop k (fst ls)"] assms(1) whole by simp
  then have pos: "as_pos t = as_org t" using pass2_placed [of "take k (fst ls)" ?p1] e1 assms(7) by simp
  have agree: "as_org (pass1 (take k (fst ls)) s) = as_org t"
    using address_agrees [OF assms(1,2) _ assms(6), of k] assms(4,7) by simp
  obtain y where "find_symbol (as_syms ?p1) n = Some y" "sm_defined y" "sm_addr y = as_org t"
    using pass1_defines [OF assms(4,5,3) e1] agree by auto
  moreover have "keeps n ?b (?f ?b (fst ls))"
    using assms(3) by (intro kept.R_fold keeps_pass2_line) (auto simp: list_all_iff)
  ultimately show ?thesis using pos by (auto simp: whole keeps_def)
qed

definition label_lines :: "string list" where
  "label_lines = [''.word 9'', ''x: .byte 7'']"

lemma label_lines_tokens:
  "tokenize_line ''.word 9'' = ([TDotIdent ''.word'', TInt 9], False)"
  "tokenize_line ''x: .byte 7'' = ([TColon ''x'', TDotIdent ''.byte'', TInt 7], False)"
  by code_simp+

lemma label_addresses_witness:
  "map_option sm_addr (find_symbol (as_syms (assemble_lines False (label_lines, 0))) ''x'') = Some 4"
proof -
  let ?s = "asm0 False"
  have "as_errs (assemble_lines False (label_lines, 0)) = 0"
    by (simp add: assemble_lines_def label_lines_def label_lines_tokens asm_eval emit_byte_eval)
  moreover have "list_all one_label label_lines" "list_all (\<lambda>line. \<not> redefines ''x'' line) label_lines"
    by (simp_all add: one_label_def redefines_def label_lines_def label_lines_tokens is_label_def)
  moreover have "as_org (pass2 (take 1 label_lines) (pass1 label_lines ?s)) = 4"
    by (simp add: label_lines_def label_lines_tokens asm_eval emit_byte_eval)
  ultimately show ?thesis
    using label_addresses [of False "(label_lines, 0)" "''x''" 1 ?s]
    by (auto simp: label_lines_def label_lines_tokens is_label_def asm0_def)
qed

end
