(* ===== verification/Includes.thy ===== *)
theory Includes
  imports Passes
begin

text \<open>
  When \<open>.include\<close> comes to an end. \<open>collect_lines\<close> follows every include line into the named file
  before it goes on, with no check for a file that is already open: whether it returns depends on
  the files alone, unless the table of 65536 lines fills up first.
\<close>

subsection \<open>The include relation\<close>

text \<open>\<open>includes_file fs dir src inc\<close>: some line of the text \<open>src\<close> includes_file a file whose text is \<open>inc\<close>.\<close>

inductive includes_file :: "(string \<Rightarrow> string option) \<Rightarrow> string \<Rightarrow> string \<Rightarrow> string \<Rightarrow> bool"
  for fs dir where
  here: "src \<noteq> [] \<Longrightarrow> include_name (takeWhile (\<lambda>c. c \<noteq> NL) src) = Some name \<Longrightarrow>
    fs (include_path dir name) = Some inc \<Longrightarrow> includes_file fs dir src (c_str inc)"
| later: "src \<noteq> [] \<Longrightarrow> includes_file fs dir (drop 1 (dropWhile (\<lambda>c. c \<noteq> NL) src)) inc \<Longrightarrow>
    includes_file fs dir src inc"

inductive_cases includes_file_cases [elim]: "includes_file fs dir src inc"

lemma includes_file_Nil [simp]: "\<not> includes_file fs dir [] inc"
  by auto

text \<open>No endless chain of includes_file starts at the text.\<close>

abbreviation includes_end :: "(string \<Rightarrow> string option) \<Rightarrow> string \<Rightarrow> string \<Rightarrow> bool" where
  "includes_end fs dir \<equiv> Wellfounded.accp (\<lambda>inc src. includes_file fs dir src inc)"

lemma includes_end_cyclic:
  assumes "includes_end fs dir t"
  shows "\<not> (includes_file fs dir)\<^sup>+\<^sup>+ t t"
  using assms
proof (induction rule: accp_induct [consumes 1])
  case (1 t)
  show ?case
  proof
    assume "(includes_file fs dir)\<^sup>+\<^sup>+ t t"
    then obtain z where z: "includes_file fs dir t z" "(includes_file fs dir)\<^sup>*\<^sup>* z t" by (meson tranclpD)
    then show False using 1(2) by (meson rtranclp_into_tranclp1)
  qed
qed

subsection \<open>Returning\<close>






subsection \<open>What a return shows\<close>







subsection \<open>The assembler returns\<close>

lemma include_name_Nil [simp]: "include_name [] = None"
  by (simp add: include_name_def Let_def)



end
