(* ===== verification/Disasm.thy ===== *)
theory Disasm
  imports Exec
begin

text \<open>
  The disassembler of the debugger (\<open>emulator.c\<close>). The text that \<open>snprintf\<close> puts into the buffer is
  the result, a list of characters; no result is as long as the 80 bytes of the buffers it is
  called with. \<open>print_rrr\<close> and the like are the format strings the cases share, given the
  mnemonic with the spaces behind it.
\<close>

subsection \<open>Number formats\<close>

definition hex_digit :: "nat \<Rightarrow> char" where
  "hex_digit d = char_of (if d < 10 then 48 + d else 55 + d)"

text \<open>\<open>%u\<close>, \<open>%d\<close> and, for a value below \<open>16 ^ n\<close>, \<open>%0nX\<close>; \<open>%-ns\<close>\<close>

fun dec :: "nat \<Rightarrow> string" where
  "dec n = (if n < 10 then [hex_digit n] else dec (n div 10) @ [hex_digit (n mod 10)])"

declare dec.simps [simp del]

definition dec_signed :: "int \<Rightarrow> string" where
  "dec_signed v = (if v < 0 then CHR ''-'' # dec (nat (- v)) else dec (nat v))"

fun hex :: "nat \<Rightarrow> nat \<Rightarrow> string" where
  "hex 0 v = []"
| "hex (Suc n) v = hex n (v div 16) @ [hex_digit (v mod 16)]"

definition pad :: "nat \<Rightarrow> string \<Rightarrow> string" where
  "pad n s = s @ replicate (n - length s) (CHR '' '')"

subsection \<open>Names\<close>

definition cond_names :: "string list" where
  "cond_names =
     [''BEQ'', ''BNE'', ''BLT'', ''BGE'', ''BLTU'', ''BGEU'', ''BA'', ''BGT'', ''BLE'', ''BGTU'', ''BLEU'']"

definition reg_names :: "string list" where
  "reg_names =
     [''r0'', ''r1'', ''r2'', ''r3'', ''r4'', ''r5'', ''r6'', ''r7'',
      ''r8'', ''r9'', ''r10'', ''r11'', ''r12'', ''sp'', ''lr'', ''pc'']"

definition reg_name :: "reg \<Rightarrow> string" where
  "reg_name r = reg_names ! unat r"

subsection \<open>Format strings\<close>

definition print_rr :: "string \<Rightarrow> decoded \<Rightarrow> string" where
  "print_rr m d = m @ reg_name (d_rd d) @ '','' @ reg_name (d_rs1 d)"

definition print_rrr :: "string \<Rightarrow> decoded \<Rightarrow> string" where
  "print_rrr m d = print_rr m d @ '','' @ reg_name (d_rs2 d)"

definition print_sh :: "string \<Rightarrow> decoded \<Rightarrow> string" where
  "print_sh m d = print_rr m d @ '','' @ dec (d_shift d)"

definition print_shi :: "string \<Rightarrow> decoded \<Rightarrow> string" where
  "print_shi m d = print_rr m d @ '','' @ dec (unat (d_imm16 d AND 0x1F))"

definition print_simm :: "string \<Rightarrow> decoded \<Rightarrow> string" where
  "print_simm m d = print_rr m d @ '','' @ dec_signed (sint (d_simm d))"

definition print_uimm :: "string \<Rightarrow> decoded \<Rightarrow> string" where
  "print_uimm m d = print_rr m d @ '',0x'' @ hex 4 (unat (d_imm16 d))"

definition print_ri :: "string \<Rightarrow> decoded \<Rightarrow> string" where
  "print_ri m d = m @ reg_name (d_rd d) @ '',0x'' @ hex 4 (unat (d_imm16 d))"

definition print_mem :: "string \<Rightarrow> decoded \<Rightarrow> string" where
  "print_mem m d = m @ reg_name (d_rd d) @ '',['' @ reg_name (d_rs1 d) @ ''+'' @ dec_signed (sint (d_simm d)) @ '']''"

definition print_idx :: "string \<Rightarrow> decoded \<Rightarrow> string" where
  "print_idx m d = m @ reg_name (d_rd d) @ '',['' @ reg_name (d_rs1 d) @ ''+'' @ reg_name (d_rs2 d) @ '']''"

subsection \<open>The disassembler\<close>

text \<open>The \<open>switch (op)\<close>, given the decoded fields and \<open>tgt\<close>.\<close>

definition disasm_op :: "u8 \<Rightarrow> decoded \<Rightarrow> u32 \<Rightarrow> u32 \<Rightarrow> string" where
  "disasm_op op d tgt instr =
     (if op = 0x00 then print_rrr ''ADD  '' d
      else if op = 0x01 then print_rrr ''SUB  '' d
      else if op = 0x02 then print_rrr ''AND  '' d
      else if op = 0x03 then print_rrr ''OR   '' d
      else if op = 0x04 then print_rrr ''XOR  '' d
      else if op = 0x05 then print_rr ''NOT  '' d
      else if op = 0x06 then print_sh ''LSL  '' d
      else if op = 0x07 then print_sh ''LSR  '' d
      else if op = 0x08 then print_sh ''ASR  '' d
      else if op = 0x09 then print_rrr ''MUL  '' d
      else if op = 0x0A then print_rrr ''DIV  '' d
      else if op = 0x0B then print_mem ''LW   '' d
      else if op = 0x0C then print_mem ''SW   '' d
      else if op = 0x0D then (if d_rd d < 11 then pad 4 (cond_names ! unat (d_rd d)) @ '' 0x'' @ hex 8 (unat tgt)
        else ''B??  (illegal cond '' @ dec (unat (d_rd d)) @ '')'')
      else if op = 0x0E then ''JMP  '' @ reg_name (d_rd d) @ '',0x'' @ hex 8 (unat tgt)
      else if op = 0x0F then print_ri ''MOVI '' d
      else if op = 0x10 then ''SYSCALL''
      else if op = 0x11 then ''SYSRET''
      else if op = 0x12 then ''HALT''
      else if op = 0x13 then print_ri ''MOVHI '' d
      else if op = 0x14 then print_simm ''ADDI '' d
      else if op = 0x15 then print_simm ''SUBI '' d
      else if op = 0x16 then print_uimm ''ANDI '' d
      else if op = 0x17 then print_uimm ''ORI  '' d
      else if op = 0x18 then print_uimm ''XORI '' d
      else if op = 0x19 then print_shi ''LSLI '' d
      else if op = 0x1A then print_shi ''LSRI '' d
      else if op = 0x1B then print_shi ''ASRI '' d
      else if op = 0x1C then print_mem ''LH   '' d
      else if op = 0x1D then print_mem ''LHU  '' d
      else if op = 0x1E then print_mem ''LB   '' d
      else if op = 0x1F then print_mem ''LBU  '' d
      else if op = 0x20 then print_mem ''SH   '' d
      else if op = 0x21 then print_mem ''SB   '' d
      else if op = 0x22 then print_rrr ''MULH '' d
      else if op = 0x23 then print_rrr ''MULHU '' d
      else if op = 0x24 then print_rrr ''DIVU '' d
      else if op = 0x25 then print_rrr ''MOD  '' d
      else if op = 0x26 then print_rrr ''MODU '' d
      else if op = 0x27 then print_rr ''MOV  '' d
      else if op = 0x28 then ''CMP  '' @ reg_name (d_rs1 d) @ '','' @ reg_name (d_rs2 d)
      else if op = 0x29 then ''CMPI '' @ reg_name (d_rs1 d) @ '','' @ dec_signed (sint (d_simm d))
      else if op = 0x2A then print_rr ''CALLR '' d
      else if op = 0x2B then print_rrr ''ADDC '' d
      else if op = 0x2C then print_rrr ''SUBC '' d
      else if op = 0x2D then print_rrr ''LSLR '' d
      else if op = 0x2E then print_rrr ''LSRR '' d
      else if op = 0x2F then print_rrr ''ASRR '' d
      else if op = 0x30 then print_idx ''LWX  '' d
      else if op = 0x31 then print_idx ''LBX  '' d
      else if op = 0x32 then print_idx ''LBUX '' d
      else if op = 0x33 then print_idx ''SWX  '' d
      else if op = 0x34 then print_idx ''SBX  '' d
      else if op = 0x35 then print_idx ''LHX  '' d
      else if op = 0x36 then print_idx ''LHUX '' d
      else if op = 0x37 then print_idx ''SHX  '' d
      else if op = 0x38 then print_ri ''LUI  '' d
      else if op = 0x39 then print_rrr ''ROLR '' d
      else if op = 0x3A then print_rrr ''RORR '' d
      else if op = 0x3B then print_sh ''ROLI '' d
      else if op = 0x3C then print_sh ''RORI '' d
      else if op = 0x3D then print_rrr ''CAS  '' d
      else if op = 0x3E then ''SFENCE''
      else if op = 0x3F then ''KRET''
      else ''??? (0x'' @ hex 8 (unat instr) @ '')'')"

definition disasm :: "u32 \<Rightarrow> u32 \<Rightarrow> string" where
  "disasm addr instr = (let d = decode instr in disasm_op (d_op d) d (addr + d_soff d) instr)"

end
