(* ===== verification/Linker.thy ===== *)
theory Linker
  imports Prelude
begin

text \<open>
  The linker (\<open>linker.c\<close>, \<open>dobj.h\<close>): reading object files, assigning section addresses, the table
  of global symbols, relocation, and the output image. The static variables of the program are
  the record \<open>linker\<close>; \<open>link_errors\<close>, which the program only counts and reports, is the list of
  the errors in the order they are found. Files and section contents are lists of bytes, names
  are the bytes before the terminating NUL. \<open>lk_ub\<close> records that the program has left its
  arrays (a symbol's name without a NUL included) or overflowed a signed integer: undefined
  behaviour in C. Allocation is taken to
  succeed.
\<close>

subsection \<open>Data\<close>

type_synonym name = "u8 list"

record LSym =
  sy_name :: name
  sy_value :: u32
  sy_sec :: u16
  sy_global :: u8

record LRel =
  rl_offset :: u32
  rl_sym :: u32
  rl_type :: u8
  rl_sec :: u8
  rl_addend :: u32

record LSec =
  se_hint :: u32
  se_size :: u32
  se_base :: u32
  se_data :: "u8 list"

record ObjFile =
  ob_secs :: "LSec list"
  ob_syms :: "LSym list"
  ob_rels :: "LRel list"

record GlobSym =
  gl_name :: name
  gl_addr :: u32
  gl_obj :: nat

text \<open>The arguments are the indices of the object and of the relocation, or a symbol's name.\<close>

datatype link_error =
    Duplicate nat name
  | TooManyGlobals
  | BadSection nat nat
  | Undefined nat name
  | OutOfBounds nat nat
  | OutOfRange nat nat
  | UnknownType nat nat

record linker =
  lk_objs :: "ObjFile list"
  lk_globs :: "GlobSym list"
  lk_errors :: "link_error list"
  lk_ub :: bool

abbreviation MAX_OBJS :: nat where "MAX_OBJS \<equiv> 256"
abbreviation MAX_GLOB_SYMS :: nat where "MAX_GLOB_SYMS \<equiv> 8192"
abbreviation SEC_UNDEF :: u16 where "SEC_UNDEF \<equiv> 0xFFFF"

abbreviation RELOC_ABS32 :: u8 where "RELOC_ABS32 \<equiv> 1"
abbreviation RELOC_MOVI32_LO :: u8 where "RELOC_MOVI32_LO \<equiv> 2"
abbreviation RELOC_MOVI32_HI :: u8 where "RELOC_MOVI32_HI \<equiv> 3"
abbreviation RELOC_BRANCH20 :: u8 where "RELOC_BRANCH20 \<equiv> 4"
abbreviation RELOC_JUMP20 :: u8 where "RELOC_JUMP20 \<equiv> 5"

definition linker0 :: linker where
  "linker0 = \<lparr>lk_objs = [], lk_globs = [], lk_errors = [], lk_ub = False\<rparr>"

definition error :: "link_error \<Rightarrow> linker \<Rightarrow> linker" where
  "error e l = l\<lparr>lk_errors := lk_errors l @ [e]\<rparr>"

definition link_ub :: "bool \<Rightarrow> linker \<Rightarrow> linker" where
  "link_ub b l = l\<lparr>lk_ub := (lk_ub l \<or> b)\<rparr>"

subsection \<open>Little-endian words in a buffer and in a file\<close>

definition get32 :: "u8 list \<Rightarrow> nat \<Rightarrow> u32" where
  "get32 p i = le32 (p ! i) (p ! (i + 1)) (p ! (i + 2)) (p ! (i + 3))"

definition put32 :: "u8 list \<Rightarrow> nat \<Rightarrow> u32 \<Rightarrow> u8 list" where
  "put32 p i v = p[i := byte_at 0 v, i + 1 := byte_at 1 v, i + 2 := byte_at 2 v, i + 3 := byte_at 3 v]"

text \<open>A file being read is what is left of it; \<open>(uint8_t)EOF\<close> is 0xFF.\<close>

fun fgetc :: "u8 list \<Rightarrow> u8 \<times> u8 list" where
  "fgetc [] = (0xFF, [])"
| "fgetc (b # r) = (b, r)"

definition rd32 :: "u8 list \<Rightarrow> u32 \<times> u8 list" where
  "rd32 f = (case fgetc f of (a, f) \<Rightarrow> case fgetc f of (b, f) \<Rightarrow> case fgetc f of (c, f) \<Rightarrow>
     case fgetc f of (d, f) \<Rightarrow> (le32 a b c d, f))"

definition rd16 :: "u8 list \<Rightarrow> u16 \<times> u8 list" where
  "rd16 f = (case fgetc f of (a, f) \<Rightarrow> case fgetc f of (b, f) \<Rightarrow> (le16 a b, f))"

fun read_n :: "(u8 list \<Rightarrow> 'a \<times> u8 list) \<Rightarrow> nat \<Rightarrow> u8 list \<Rightarrow> 'a list \<times> u8 list" where
  "read_n rd 0 f = ([], f)"
| "read_n rd (Suc n) f = (case rd f of (x, f) \<Rightarrow> case read_n rd n f of (xs, f) \<Rightarrow> (x # xs, f))"

subsection \<open>Loading an object file\<close>

definition c_string :: "u8 list \<Rightarrow> name" where
  "c_string bs = takeWhile (\<lambda>b. b \<noteq> 0) bs"

text \<open>As in the C code, a section's offset into the data blob is first kept in \<open>base\<close>.\<close>

definition load_sec :: "u8 list \<Rightarrow> LSec \<times> u8 list" where
  "load_sec f = (let f = drop 8 f in
     case rd32 f of (off, f) \<Rightarrow> case rd32 f of (sz, f) \<Rightarrow> case rd32 f of (hint, f) \<Rightarrow>
     case rd32 f of (flags, f) \<Rightarrow> (\<lparr>se_hint = hint, se_size = sz, se_base = off, se_data = []\<rparr>, f))"

definition load_sym :: "u8 list \<Rightarrow> LSym \<times> u8 list" where
  "load_sym f = (let nm = c_string (take 28 f); f = drop 28 f in
     case rd32 f of (v, f) \<Rightarrow> case rd16 f of (si, f) \<Rightarrow> case fgetc f of (g, f) \<Rightarrow>
     case fgetc f of (pad, f) \<Rightarrow> (\<lparr>sy_name = nm, sy_value = v, sy_sec = si, sy_global = g\<rparr>, f))"

definition load_rel :: "u8 list \<Rightarrow> LRel \<times> u8 list" where
  "load_rel f =
     (case rd32 f of (off, f) \<Rightarrow> case rd32 f of (yi, f) \<Rightarrow> case fgetc f of (ty, f) \<Rightarrow>
      case fgetc f of (si, f) \<Rightarrow> case fgetc f of (pad, f) \<Rightarrow> case fgetc f of (pad, f) \<Rightarrow>
      case rd32 f of (ad, f) \<Rightarrow>
        (\<lparr>rl_offset = off, rl_sym = yi, rl_type = ty, rl_sec = si, rl_addend = ad\<rparr>, f))"

text \<open>
  The blob is the rest of the file from \<open>data_off\<close>. Its size is computed in 32 bits, so a
  \<open>data_off\<close> beyond the file gives a huge zero-filled blob.
\<close>

definition blob_size :: "u8 list \<Rightarrow> u32 \<Rightarrow> u32" where
  "blob_size file data_off = word_of_int (int (length file) - uint data_off)"

definition blob_byte :: "u8 list \<Rightarrow> u32 \<Rightarrow> nat \<Rightarrow> u8" where
  "blob_byte file data_off i = (let j = unat data_off + i in if j < length file then file ! j else 0)"

definition load_data :: "u8 list \<Rightarrow> u32 \<Rightarrow> LSec \<Rightarrow> LSec \<times> bool" where
  "load_data file data_off sec =
     (let off = se_base sec; sz = se_size sec; blob = blob_size file data_off;
          copy = (if off < blob \<and> sz > 0 then if off + sz > blob then blob - off else sz else 0)
      in (sec\<lparr>se_base := 0,
              se_data := map (\<lambda>i. blob_byte file data_off (unat off + i)) [0..<unat copy]
                         @ replicate (unat sz - unat copy) 0\<rparr>,
          unat off + unat copy > unat blob \<and> copy > 0))"

definition load_dobj :: "u8 list \<Rightarrow> linker \<Rightarrow> linker option" where
  "load_dobj file l =
     (if take 4 file \<noteq> [0x44, 0x4F, 0x42, 0x4A] then None
      else if length (lk_objs l) \<ge> MAX_OBJS then None
      else
        case rd32 (drop 8 file) of (nsec, f) \<Rightarrow> case rd32 f of (nsym, f) \<Rightarrow>
        case rd32 f of (nrel, f) \<Rightarrow> case rd32 f of (data_off, f) \<Rightarrow>
        case read_n load_sec (unat nsec) f of (secs, f) \<Rightarrow>
        case read_n load_sym (unat nsym) f of (syms, f) \<Rightarrow>
        case read_n load_rel (unat nrel) f of (rels, f) \<Rightarrow>
          let loaded = map (load_data file data_off) secs;
              obj = \<lparr>ob_secs = map fst loaded, ob_syms = syms, ob_rels = rels\<rparr>
          in Some (link_ub (list_ex snd loaded \<or> list_ex (\<lambda>s. length (sy_name s) = 28) syms) (l\<lparr>lk_objs := lk_objs l @ [obj]\<rparr>)))"

fun load_all :: "u8 list list \<Rightarrow> linker \<Rightarrow> linker option" where
  "load_all [] l = Some l"
| "load_all (file # fs) l = (case load_dobj file l of None \<Rightarrow> None | Some l \<Rightarrow> load_all fs l)"

subsection \<open>Addresses\<close>

definition align4 :: "u32 \<Rightarrow> u32" where
  "align4 a = (a + 3) AND NOT 3"

definition assign_section :: "u32 \<Rightarrow> LSec \<Rightarrow> u32 \<times> LSec" where
  "assign_section nxt sec =
     (let base = (if se_hint sec \<noteq> 0 then se_hint sec else align4 nxt); end' = base + se_size sec
      in (if end' > nxt then align4 end' else nxt, sec\<lparr>se_base := base\<rparr>))"

fun assign_sections :: "u32 \<Rightarrow> LSec list \<Rightarrow> u32 \<times> LSec list" where
  "assign_sections nxt [] = (nxt, [])"
| "assign_sections nxt (s # ss) =
     (case assign_section nxt s of (nxt, s) \<Rightarrow> case assign_sections nxt ss of (nxt, ss) \<Rightarrow> (nxt, s # ss))"

fun assign_objs :: "u32 \<Rightarrow> ObjFile list \<Rightarrow> ObjFile list" where
  "assign_objs nxt [] = []"
| "assign_objs nxt (ob # obs) =
     (case assign_sections nxt (ob_secs ob) of (nxt, ss) \<Rightarrow> ob\<lparr>ob_secs := ss\<rparr> # assign_objs nxt obs)"

definition assign_addresses :: "u32 \<Rightarrow> linker \<Rightarrow> linker" where
  "assign_addresses text_base l = l\<lparr>lk_objs := assign_objs text_base (lk_objs l)\<rparr>"

subsection \<open>Global symbols\<close>

fun find_global :: "GlobSym list \<Rightarrow> name \<Rightarrow> GlobSym option" where
  "find_global [] n = None"
| "find_global (g # gs) n = (if gl_name g = n then Some g else find_global gs n)"

text \<open>\<open>obj->secs[sym->sec_idx].base + sym->value\<close>; the index is not checked by the code.\<close>

definition sym_addr :: "ObjFile \<Rightarrow> LSym \<Rightarrow> u32" where
  "sym_addr ob sy =
     (if unat (sy_sec sy) < length (ob_secs ob) then se_base (ob_secs ob ! unat (sy_sec sy)) else 0) + sy_value sy"

definition sym_ub :: "ObjFile \<Rightarrow> LSym \<Rightarrow> bool" where
  "sym_ub ob sy \<longleftrightarrow> \<not> unat (sy_sec sy) < length (ob_secs ob)"

text \<open>The symbols in the order of the two loops; the \<open>return\<close> for a full table ends both.\<close>

definition all_syms :: "ObjFile list \<Rightarrow> (nat \<times> ObjFile \<times> LSym) list" where
  "all_syms obs = concat (map (\<lambda>(oi, ob). map (\<lambda>s. (oi, ob, s)) (ob_syms ob)) (zip [0..<length obs] obs))"

fun build_from :: "(nat \<times> ObjFile \<times> LSym) list \<Rightarrow> linker \<Rightarrow> linker" where
  "build_from [] l = l"
| "build_from ((oi, ob, sy) # ss) l =
     (if sy_global sy = 0 \<or> sy_sec sy = SEC_UNDEF then build_from ss l
      else
        let l = link_ub (sym_ub ob sy) l
        in if find_global (lk_globs l) (sy_name sy) \<noteq> None then build_from ss (error (Duplicate oi (sy_name sy)) l)
           else if length (lk_globs l) \<ge> MAX_GLOB_SYMS then error TooManyGlobals l
           else build_from ss
                  (l\<lparr>lk_globs := lk_globs l @ [\<lparr>gl_name = take 27 (sy_name sy), gl_addr = sym_addr ob sy, gl_obj = oi\<rparr>]\<rparr>))"

definition build_globals :: "linker \<Rightarrow> linker" where
  "build_globals l = build_from (all_syms (lk_objs l)) l"

subsection \<open>Relocation\<close>

definition reloc_fits :: "u8 \<Rightarrow> u32 \<Rightarrow> u32 \<Rightarrow> bool" where
  "reloc_fits ty S site \<longleftrightarrow>
     (ty = RELOC_BRANCH20 \<or> ty = RELOC_JUMP20 \<longrightarrow> - 524288 \<le> uint S - uint site \<and> uint S - uint site \<le> 524287)"

text \<open>The new contents of the word at the site.\<close>

definition patch :: "u8 \<Rightarrow> u32 \<Rightarrow> u32 \<Rightarrow> u32 \<Rightarrow> u32" where
  "patch ty S site instr =
     (if ty = RELOC_ABS32 then S
      else if ty = RELOC_MOVI32_LO then (instr AND 0xFFFF0000) OR (S AND 0xFFFF)
      else if ty = RELOC_MOVI32_HI then (instr AND 0xFFFF0000) OR (drop_bit 16 S AND 0xFFFF)
      else (instr AND 0xFFF00000) OR (word_of_int (uint S - uint site) AND 0xFFFFF))"

text \<open>The address a relocation refers to, before the addend; \<open>None\<close> for an undefined symbol.\<close>

definition reloc_symbol :: "linker \<Rightarrow> ObjFile \<Rightarrow> LRel \<Rightarrow> u32 option" where
  "reloc_symbol l ob r =
     (let sy = ob_syms ob ! unat (rl_sym r)
      in if sy_sec sy = SEC_UNDEF then map_option gl_addr (find_global (lk_globs l) (sy_name sy))
         else Some (sym_addr ob sy))"

definition reloc_ub :: "linker \<Rightarrow> ObjFile \<Rightarrow> LRel \<Rightarrow> bool" where
  "reloc_ub l ob r \<longleftrightarrow>
     \<not> unat (rl_sym r) < length (ob_syms ob) \<or>
     (let sy = ob_syms ob ! unat (rl_sym r) in sy_sec sy \<noteq> SEC_UNDEF \<and> sym_ub ob sy) \<or>
     (case reloc_symbol l ob r of None \<Rightarrow> False
      | Some a \<Rightarrow> sint a + sint (rl_addend r) \<noteq> sint (a + rl_addend r))"

text \<open>The data of section \<open>si\<close> of object \<open>oi\<close>.\<close>

definition sec_data :: "linker \<Rightarrow> nat \<Rightarrow> nat \<Rightarrow> u8 list" where
  "sec_data l oi si = se_data (ob_secs (lk_objs l ! oi) ! si)"

definition set_sec_data :: "nat \<Rightarrow> nat \<Rightarrow> u8 list \<Rightarrow> linker \<Rightarrow> linker" where
  "set_sec_data oi si d l =
     (let ob = lk_objs l ! oi
      in l\<lparr>lk_objs := (lk_objs l)[oi := ob\<lparr>ob_secs := (ob_secs ob)[si := (ob_secs ob ! si)\<lparr>se_data := d\<rparr>]\<rparr>]\<rparr>)"

definition resolve_reloc :: "nat \<Rightarrow> nat \<Rightarrow> linker \<Rightarrow> linker" where
  "resolve_reloc oi ri l =
     (let ob = lk_objs l ! oi; r = ob_rels ob ! ri; si = unat (rl_sec r)
      in if si \<ge> length (ob_secs ob) then error (BadSection oi ri) l
         else
           let l = link_ub (reloc_ub l ob r) l
           in case reloc_symbol l ob r of
                None \<Rightarrow> error (Undefined oi (sy_name (ob_syms ob ! unat (rl_sym r)))) l
              | Some a \<Rightarrow>
                  let S = a + rl_addend r; sec = ob_secs ob ! si; site = se_base sec + rl_offset r
                  in if rl_offset r + 4 > se_size sec then error (OutOfBounds oi ri) l
                     else if rl_type r \<notin> {1, 2, 3, 4, 5} then error (UnknownType oi ri) l
                     else if \<not> reloc_fits (rl_type r) S site then error (OutOfRange oi ri) l
                     else
                       let d = se_data sec; off = unat (rl_offset r)
                       in set_sec_data oi si (put32 d off (patch (rl_type r) S site (get32 d off)))
                            (link_ub (off + 4 > length d) l))"

definition reloc_indices :: "ObjFile list \<Rightarrow> (nat \<times> nat) list" where
  "reloc_indices obs = concat (map (\<lambda>oi. map (Pair oi) [0..<length (ob_rels (obs ! oi))]) [0..<length obs])"

definition resolve_relocs :: "linker \<Rightarrow> linker" where
  "resolve_relocs l = foldl (\<lambda>l (oi, ri). resolve_reloc oi ri l) l (reloc_indices (lk_objs l))"

subsection \<open>Output\<close>

definition all_secs :: "linker \<Rightarrow> LSec list" where
  "all_secs l = concat (map ob_secs (lk_objs l))"

definition out_size :: "linker \<Rightarrow> u32" where
  "out_size l = foldl (\<lambda>m s. let e = se_base s + se_size s in if e > m then e else m) 0 (all_secs l)"

text \<open>\<open>memcpy(buf + base, data, size)\<close>; the result is undefined past the end of the buffer.\<close>

definition copy_sec :: "u8 list \<times> bool \<Rightarrow> LSec \<Rightarrow> u8 list \<times> bool" where
  "copy_sec b s =
     (let n = unat (se_base s); d = take (unat (se_size s)) (se_data s)
      in if se_size s > 0 then
           (take (length (fst b)) (take n (fst b) @ d @ drop (n + length d) (fst b)),
            snd b \<or> n + unat (se_size s) > length (fst b))
         else b)"

definition emit_output :: "linker \<Rightarrow> u8 list \<times> bool" where
  "emit_output l = foldl copy_sec (replicate (unat (out_size l)) 0, lk_ub l) (all_secs l)"

text \<open>
  \<open>main\<close> after option parsing: the contents of the output file, or \<open>None\<close> when the program
  returns 1, and the final state.
\<close>

definition link :: "u32 \<Rightarrow> u8 list list \<Rightarrow> u8 list option \<times> linker" where
  "link text_base files =
     (case (if files = [] then None else load_all (take MAX_OBJS files) linker0) of
        None \<Rightarrow> (None, linker0)
      | Some l \<Rightarrow>
          let l = build_globals (assign_addresses text_base l)
          in if lk_errors l \<noteq> [] then (None, l)
             else let l = resolve_relocs l
                  in if lk_errors l \<noteq> [] then (None, l)
                     else case emit_output l of (out, ub) \<Rightarrow> (Some out, l\<lparr>lk_ub := ub\<rparr>))"

text \<open>The lines of the map file: address and name, globals first, then the local symbols.\<close>

definition write_map :: "linker \<Rightarrow> (u32 \<times> name) list" where
  "write_map l =
     map (\<lambda>g. (gl_addr g, gl_name g)) (lk_globs l) @
     concat (map (\<lambda>ob. map (\<lambda>s. (sym_addr ob s, sy_name s))
       (filter (\<lambda>s. sy_global s = 0 \<and> sy_sec s \<noteq> SEC_UNDEF) (ob_syms ob))) (lk_objs l))"

subsection \<open>The symbol table is a first-match table\<close>

interpretation globs: name_table gl_name find_global
  by unfold_locales simp_all

subsection \<open>Section contents are a store of words\<close>

text \<open>A relocation site is an object, a section of it and an offset in the section's data.\<close>

type_synonym site = "nat \<times> nat \<times> nat"

fun site_get :: "linker \<Rightarrow> site \<Rightarrow> u32" where
  "site_get l (oi, si, off) = get32 (sec_data l oi si) off"

fun site_put :: "linker \<Rightarrow> site \<Rightarrow> u32 \<Rightarrow> linker" where
  "site_put l (oi, si, off) v = set_sec_data oi si (put32 (sec_data l oi si) off v) l"

fun site_valid :: "linker \<Rightarrow> site \<Rightarrow> bool" where
  "site_valid l (oi, si, off) \<longleftrightarrow>
     oi < length (lk_objs l) \<and> si < length (ob_secs (lk_objs l ! oi)) \<and> off + 4 \<le> length (sec_data l oi si)"

fun site_apart :: "site \<Rightarrow> site \<Rightarrow> bool" where
  "site_apart (oi, si, off) (oj, sj, off') \<longleftrightarrow> oi \<noteq> oj \<or> si \<noteq> sj \<or> off + 4 \<le> off' \<or> off' + 4 \<le> off"

lemma length_put32 [simp]: "length (put32 p i v) = length p"
  by (simp add: put32_def)

lemma nth_put32_other: "k < i \<or> i + 4 \<le> k \<Longrightarrow> put32 p i v ! k = p ! k"
  by (auto simp: put32_def nth_list_update)

lemma get32_put32 [simp]: "i + 4 \<le> length p \<Longrightarrow> get32 (put32 p i v) i = v"
  by (simp add: get32_def put32_def bytes_simps)

lemma get32_put32_other: "i + 4 \<le> j \<or> j + 4 \<le> i \<Longrightarrow> get32 (put32 p i v) j = get32 p j"
  by (auto simp: get32_def nth_put32_other)

lemma put32_put32: "i + 4 \<le> length p \<Longrightarrow> put32 (put32 p i v) i w = put32 p i w"
  by (simp add: put32_def list_update_swap)

lemma sec_data_set [simp]:
  "oi < length (lk_objs l) \<Longrightarrow> si < length (ob_secs (lk_objs l ! oi)) \<Longrightarrow>
     sec_data (set_sec_data oi si d l) oj sj = (if oi = oj \<and> si = sj then d else sec_data l oj sj)"
  by (auto simp: sec_data_def set_sec_data_def Let_def nth_list_update)

lemma set_sec_data_objs [simp]:
  "length (lk_objs (set_sec_data oi si d l)) = length (lk_objs l)"
  "oi < length (lk_objs l) \<Longrightarrow>
     length (ob_secs (lk_objs (set_sec_data oi si d l) ! oj)) = length (ob_secs (lk_objs l ! oj))"
  by (auto simp: set_sec_data_def Let_def nth_list_update)

lemma set_sec_data_outside:
  "\<not> (oi < length (lk_objs l) \<and> si < length (ob_secs (lk_objs l ! oi))) \<Longrightarrow> set_sec_data oi si d l = l"
proof (cases "oi < length (lk_objs l)")
  case False
  then have "(lk_objs l)[oi := ob] = lk_objs l" for ob by (simp add: list_update_beyond)
  then show ?thesis by (simp add: set_sec_data_def Let_def)
next
  case True
  assume "\<not> (oi < length (lk_objs l) \<and> si < length (ob_secs (lk_objs l ! oi)))"
  with True have "(ob_secs (lk_objs l ! oi))[si := s] = ob_secs (lk_objs l ! oi)" for s
    by (simp add: list_update_beyond)
  then show ?thesis by (simp add: set_sec_data_def Let_def)
qed

lemma set_sec_data_twice: "set_sec_data oi si d (set_sec_data oi si d' l) = set_sec_data oi si d l"
proof (cases "oi < length (lk_objs l) \<and> si < length (ob_secs (lk_objs l ! oi))")
  case True
  then show ?thesis by (auto simp: set_sec_data_def Let_def)
qed (simp add: set_sec_data_outside)

lemma site_valid_put: "site_valid (site_put l a v) b = site_valid l b"
proof (cases a)
  case (fields oi si off)
  show ?thesis
  proof (cases "oi < length (lk_objs l) \<and> si < length (ob_secs (lk_objs l ! oi))")
    case True
    then show ?thesis by (cases b) (simp add: fields)
  qed (simp add: fields set_sec_data_outside)
qed

interpretation sitew: word_store site_get site_put site_valid site_apart
proof unfold_locales
  fix l a v w assume "site_valid l a"
  then show "site_get (site_put l a v) a = v" "site_put (site_put l a v) a w = site_put l a w"
    by (cases a; simp add: put32_put32 set_sec_data_twice)+
next
  fix l a b v assume "site_valid l a" "site_valid l b" "site_apart a b"
  then show "site_get (site_put l a v) b = site_get l b"
    by (cases a; cases b) (auto simp: get32_put32_other)
next
  fix l a b v show "site_valid (site_put l a v) b = site_valid l b"
    by (rule site_valid_put)
next
  fix a b assume "site_apart a b" then show "site_apart b a" by (cases a; cases b) auto
qed

end
