(* ===== verification/Linking.thy ===== *)
theory Linking
  imports Linker
begin

text \<open>
  What the linker (\<open>Linker\<close>) guarantees: sections without a requested address do not overlap
  anything placed before them, the global symbol table is a function from names to addresses,
  an error-free relocation pass applies every relocation exactly once to the bytes the assembler
  wrote, and the image holds each section at its address.
\<close>

subsection \<open>Address assignment\<close>

text \<open>
  The reference placement computes with unbounded integers: \<open>place nxt ss\<close> gives the base
  addresses and the first free address after them.
\<close>

definition ceil4 :: "int \<Rightarrow> int" where
  "ceil4 a = (a + 3) div 4 * 4"

definition place_next :: "int \<Rightarrow> LSec \<Rightarrow> int \<times> int" where
  "place_next nxt s =
     (let base = (if se_hint s \<noteq> 0 then uint (se_hint s) else ceil4 nxt); end' = base + uint (se_size s)
      in (base, if end' > nxt then ceil4 end' else nxt))"

fun place :: "int \<Rightarrow> LSec list \<Rightarrow> int list \<times> int" where
  "place nxt [] = ([], nxt)"
| "place nxt (s # ss) =
     (case place_next nxt s of (base, nxt) \<Rightarrow> case place nxt ss of (bs, n) \<Rightarrow> (base # bs, n))"

lemma ceil4_ge: "a \<le> ceil4 a" and ceil4_less: "ceil4 a < a + 4" and ceil4_dvd: "4 dvd ceil4 a"
  unfolding ceil4_def by presburger+

lemma ceil4_least: "a \<le> b \<Longrightarrow> 4 dvd b \<Longrightarrow> ceil4 a \<le> b"
  unfolding ceil4_def by presburger

lemma uint_align4:
  assumes "uint a \<le> 4294967292"
  shows "uint (align4 a) = ceil4 (uint a)"
proof -
  obtain x where x: "uint a = x" "0 \<le> x" "x < 4294967296" by (rule uint_u32_cases)
  have three: "(NOT 3 :: u32) = NOT (mask 2)" by (simp add: mask_eq_exp_minus_1)
  have two: "2 \<le> n \<Longrightarrow> Suc (Suc (n - 2)) = n" for n by simp
  have "align4 a = push_bit 2 (drop_bit 2 (a + 3))"
    unfolding align4_def three by (rule bit_word_eqI) (auto simp: bit_simps two)
  moreover have "uint (a + 3) = x + 3" using assms x by (simp add: uint_add_u32)
  ultimately have "uint (align4 a) = take_bit LENGTH(32) (push_bit 2 (drop_bit 2 (take_bit LENGTH(32) (x + 3))))"
    by (simp only: unsigned_push_bit_eq unsigned_drop_bit_eq)
  also have "take_bit LENGTH(32) (x + 3) = x + 3" using assms x by (simp add: take_bit_int_eq_self)
  also have "take_bit LENGTH(32) (push_bit 2 (drop_bit 2 (x + 3))) = take_bit 32 ((x + 3) div 4 * 4)"
    by (simp add: push_bit_eq_mult drop_bit_eq_div)
  also have "\<dots> = (x + 3) div 4 * 4"
    using assms x by (intro take_bit_int_eq_self) (simp_all, presburger?)
  finally show ?thesis by (simp add: ceil4_def x)
qed

lemma place_Cons:
  "fst (place nxt (s # ss)) = fst (place_next nxt s) # fst (place (snd (place_next nxt s)) ss)"
  "snd (place nxt (s # ss)) = snd (place (snd (place_next nxt s)) ss)"
  by (simp_all split: prod.split)

lemma place_next_ge:
  "nxt \<le> snd (place_next nxt s)" "fst (place_next nxt s) + uint (se_size s) \<le> snd (place_next nxt s)"
  using ceil4_ge [of "fst (place_next nxt s) + uint (se_size s)"] by (auto simp: place_next_def Let_def)

lemma place_mono: "nxt \<le> snd (place nxt ss)"
proof (induction ss arbitrary: nxt)
  case (Cons s ss)
  then show ?case using place_next_ge(1) [of nxt s] order_trans by (simp only: place_Cons) blast
qed simp

lemma length_place [simp]: "length (fst (place nxt ss)) = length ss"
proof (induction ss arbitrary: nxt)
  case (Cons s ss)
  then show ?case by (simp only: place_Cons length_Cons)
qed simp

lemma place_bases_ge:
  "j < length ss \<Longrightarrow> se_hint (ss ! j) = 0 \<Longrightarrow> nxt \<le> fst (place nxt ss) ! j \<and> 4 dvd fst (place nxt ss) ! j"
proof (induction ss arbitrary: nxt j)
  case (Cons s ss)
  show ?case
  proof (cases j)
    case 0
    with Cons.prems show ?thesis using ceil4_ge [of nxt] ceil4_dvd [of nxt]
      by (simp only: place_Cons nth_Cons_0) (simp add: place_next_def Let_def)
  next
    case (Suc k)
    with Cons show ?thesis using place_next_ge(1) [of nxt s] order_trans
      by (simp only: place_Cons nth_Cons_Suc) fastforce
  qed
qed simp

text \<open>An unhinted section starts after the end of every section placed before it.\<close>

lemma place_after:
  "i < j \<Longrightarrow> j < length ss \<Longrightarrow> se_hint (ss ! j) = 0 \<Longrightarrow>
     fst (place nxt ss) ! i + uint (se_size (ss ! i)) \<le> fst (place nxt ss) ! j"
proof (induction ss arbitrary: nxt i j)
  case (Cons s ss)
  then obtain k where j: "j = Suc k" by (cases j) auto
  show ?case
  proof (cases i)
    case 0
    have "snd (place_next nxt s) \<le> fst (place (snd (place_next nxt s)) ss) ! k"
      using place_bases_ge [of k ss] Cons.prems j by simp
    then show ?thesis using place_next_ge(2) [of nxt s] by (simp only: place_Cons j 0 nth_Cons_0 nth_Cons_Suc)
  next
    case (Suc i')
    with Cons j show ?thesis by (simp only: place_Cons nth_Cons_Suc) simp
  qed
qed simp

text \<open>The program's 32-bit computation agrees with the reference as long as that stays below 2^32.\<close>

lemma assign_section_place:
  assumes "snd (place_next (uint nxt) s) \<le> 4294967292"
  shows "uint (fst (assign_section nxt s)) = snd (place_next (uint nxt) s)"
    and "snd (assign_section nxt s) = s\<lparr>se_base := word_of_int (fst (place_next (uint nxt) s))\<rparr>"
    and "uint (se_base (snd (assign_section nxt s))) = fst (place_next (uint nxt) s)"
proof -
  let ?b = "fst (place_next (uint nxt) s)" and ?base = "if se_hint s \<noteq> 0 then se_hint s else align4 nxt"
  have n: "uint nxt \<le> 4294967292" "?b + uint (se_size s) \<le> 4294967292"
    using assms place_next_ge [of "uint nxt" s] by simp_all
  have base: "uint ?base = ?b" using uint_align4 [OF n(1)] by (simp add: place_next_def Let_def)
  have sum: "uint (?base + se_size s) = ?b + uint (se_size s)"
    using n(2) unfolding uint_add_u32 base by simp
  show "uint (fst (assign_section nxt s)) = snd (place_next (uint nxt) s)"
    using uint_align4 [of "?base + se_size s"] n(2) sum
    by (simp add: assign_section_def Let_def word_less_def) (simp add: place_next_def Let_def)
  show "snd (assign_section nxt s) = s\<lparr>se_base := word_of_int ?b\<rparr>"
    by (simp add: assign_section_def Let_def flip: base)
  show "uint (se_base (snd (assign_section nxt s))) = ?b"
    using base by (simp add: assign_section_def Let_def)
qed

lemma assign_sections_Cons:
  "assign_sections nxt (s # ss) =
     (fst (assign_sections (fst (assign_section nxt s)) ss),
      snd (assign_section nxt s) # snd (assign_sections (fst (assign_section nxt s)) ss))"
  by (simp split: prod.split)

lemma assign_sections_place:
  "snd (place (uint nxt) ss) \<le> 4294967292 \<Longrightarrow>
     snd (assign_sections nxt ss) = map2 (\<lambda>s b. s\<lparr>se_base := word_of_int b\<rparr>) ss (fst (place (uint nxt) ss)) \<and>
     map (\<lambda>s. uint (se_base s)) (snd (assign_sections nxt ss)) = fst (place (uint nxt) ss)"
proof (induction ss arbitrary: nxt)
  case (Cons s ss)
  let ?n = "snd (place_next (uint nxt) s)"
  have le: "?n \<le> 4294967292" "snd (place ?n ss) \<le> 4294967292"
    using Cons.prems place_mono [of ?n ss] by (simp_all only: place_Cons)
  note sec = assign_section_place [OF le(1)]
  note ih = Cons.IH [of "fst (assign_section nxt s)", unfolded sec(1), OF le(2)]
  show ?case unfolding assign_sections_Cons place_Cons
    by (simp only: list.map zip_Cons_Cons prod.case snd_conv sec(3) ih [THEN conjunct2])
      (simp only: sec(2) ih [THEN conjunct1] simp_thms)
qed simp

lemma assign_sections_append:
  "snd (assign_sections nxt (ss @ ts)) =
     snd (assign_sections nxt ss) @ snd (assign_sections (fst (assign_sections nxt ss)) ts)"
proof (induction ss arbitrary: nxt)
  case (Cons s ss)
  then show ?case by (simp only: append_Cons assign_sections_Cons fst_conv snd_conv)
qed simp

lemma concat_assign_objs:
  "concat (map ob_secs (assign_objs nxt obs)) = snd (assign_sections nxt (concat (map ob_secs obs)))"
proof (induction obs arbitrary: nxt)
  case (Cons ob obs)
  then show ?case by (simp add: assign_sections_append split: prod.split)
qed simp

lemma all_secs_assign:
  "all_secs (assign_addresses text_base l) = snd (assign_sections text_base (all_secs l))"
  by (simp add: all_secs_def assign_addresses_def concat_assign_objs)

lemma place_all_secs:
  assumes "snd (place (uint text_base) (all_secs l)) \<le> 4294967292" "i < length (all_secs l)"
  shows "uint (se_base (all_secs (assign_addresses text_base l) ! i)) = fst (place (uint text_base) (all_secs l)) ! i"
    and "se_size (all_secs (assign_addresses text_base l) ! i) = se_size (all_secs l ! i)"
    and "se_data (all_secs (assign_addresses text_base l) ! i) = se_data (all_secs l ! i)"
proof -
  note a = assign_sections_place [OF assms(1)]
  then have "length (snd (assign_sections text_base (all_secs l))) = length (all_secs l)" by simp
  then have "map (\<lambda>s. uint (se_base s)) (snd (assign_sections text_base (all_secs l))) ! i =
      uint (se_base (snd (assign_sections text_base (all_secs l)) ! i))"
    using assms(2) by (intro nth_map) simp
  then show "uint (se_base (all_secs (assign_addresses text_base l) ! i)) = fst (place (uint text_base) (all_secs l)) ! i"
    unfolding all_secs_assign a [THEN conjunct2] by (rule sym)
  show "se_size (all_secs (assign_addresses text_base l) ! i) = se_size (all_secs l ! i)"
    "se_data (all_secs (assign_addresses text_base l) ! i) = se_data (all_secs l ! i)"
    using a assms(2) by (simp_all add: all_secs_assign)
qed

text \<open>C37: As long as the address space is not exhausted, a section that does not ask for an address
  is placed at a multiple of 4, not below the base address, and behind the last byte of every
  section of this and all earlier object files. So sections can only overlap when a requested
  address makes them.
\<close>

theorem addresses_disjoint:
  assumes "snd (place (uint text_base) (all_secs l)) \<le> 4294967292"
    and "i < j" "j < length (all_secs l)" "se_hint (all_secs l ! j) = 0"
  shows "uint (se_base (all_secs (assign_addresses text_base l) ! i)) +
           uint (se_size (all_secs (assign_addresses text_base l) ! i))
         \<le> uint (se_base (all_secs (assign_addresses text_base l) ! j)) \<and>
         text_base \<le> se_base (all_secs (assign_addresses text_base l) ! j) \<and>
         4 dvd uint (se_base (all_secs (assign_addresses text_base l) ! j))"
  using place_after [OF assms(2-4), of "uint text_base"] place_bases_ge [OF assms(3,4), of "uint text_base"]
    place_all_secs [OF assms(1), of i] place_all_secs [OF assms(1), of j] assms(2,3)
  by (simp add: word_le_def)

definition two_sections :: linker where
  "two_sections = linker0\<lparr>lk_objs :=
     [\<lparr>ob_secs = [\<lparr>se_hint = 0x2000, se_size = 5, se_base = 0, se_data = [1, 2, 3, 4, 5]\<rparr>], ob_syms = [], ob_rels = []\<rparr>,
      \<lparr>ob_secs = [\<lparr>se_hint = 0, se_size = 2, se_base = 0, se_data = [6, 7]\<rparr>], ob_syms = [], ob_rels = []\<rparr>]\<rparr>"

lemma addresses_disjoint_witness:
  "0x2005 \<le> uint (se_base (all_secs (assign_addresses 0x1000 two_sections) ! 1))"
  using addresses_disjoint [of "0x1000" two_sections 0 1]
  by (simp add: two_sections_def linker0_def all_secs_def place_next_def ceil4_def assign_addresses_def
      assign_section_def Let_def)

subsection \<open>The global symbol table\<close>

text \<open>The entry a global definition makes, and which symbols are global definitions.\<close>

fun glob_entry :: "nat \<times> ObjFile \<times> LSym \<Rightarrow> GlobSym" where
  "glob_entry (oi, ob, sy) = \<lparr>gl_name = sy_name sy, gl_addr = sym_addr ob sy, gl_obj = oi\<rparr>"

fun defines_global :: "nat \<times> ObjFile \<times> LSym \<Rightarrow> bool" where
  "defines_global (oi, ob, sy) \<longleftrightarrow> sy_global sy \<noteq> 0 \<and> sy_sec sy \<noteq> SEC_UNDEF"

definition global_entries :: "(nat \<times> ObjFile \<times> LSym) list \<Rightarrow> GlobSym list" where
  "global_entries ss = map glob_entry (filter defines_global ss)"

lemma global_entries_simps [simp]:
  "global_entries [] = []"
  "global_entries (s # ss) = (if defines_global s then [glob_entry s] else []) @ global_entries ss"
  by (simp_all add: global_entries_def)

lemma errors_simps [simp]:
  "lk_errors (error e l) = lk_errors l @ [e]" "lk_errors (link_ub b l) = lk_errors l"
  "lk_globs (error e l) = lk_globs l" "lk_globs (link_ub b l) = lk_globs l"
  "lk_objs (error e l) = lk_objs l" "lk_objs (link_ub b l) = lk_objs l"
  "lk_ub (error e l) = lk_ub l" "lk_ub (link_ub b l) = (lk_ub l \<or> b)"
  by (simp_all add: error_def link_ub_def)

lemma build_from_errors: "lk_errors l \<noteq> [] \<Longrightarrow> lk_errors (build_from ss l) \<noteq> []"
  by (induction ss l rule: build_from.induct) (simp_all add: Let_def)

lemma build_from_objs [simp]: "lk_objs (build_from ss l) = lk_objs l"
  by (induction ss l rule: build_from.induct) (simp_all add: Let_def)

lemma build_from_spec:
  "distinct (map gl_name (lk_globs l)) \<Longrightarrow> length (lk_globs l) \<le> MAX_GLOB_SYMS \<Longrightarrow>
   list_all (\<lambda>(oi, ob, sy). length (sy_name sy) \<le> 27) ss \<Longrightarrow>
   let gs = lk_globs l @ global_entries ss
   in (lk_errors (build_from ss l) = [] \<longleftrightarrow>
         lk_errors l = [] \<and> distinct (map gl_name gs) \<and> length gs \<le> MAX_GLOB_SYMS) \<and>
      (lk_errors (build_from ss l) = [] \<longrightarrow> lk_globs (build_from ss l) = gs)"
proof (induction ss l rule: build_from.induct)
  case (1 l)
  then show ?case by simp
next
  case (2 oi ob sy ss l)
  let ?l = "link_ub (sym_ub ob sy) l" and ?e = "glob_entry (oi, ob, sy)"
  consider "\<not> defines_global (oi, ob, sy)"
    | "defines_global (oi, ob, sy)" "find_global (lk_globs l) (sy_name sy) \<noteq> None"
    | "defines_global (oi, ob, sy)" "find_global (lk_globs l) (sy_name sy) = None" "length (lk_globs l) = MAX_GLOB_SYMS"
    | "defines_global (oi, ob, sy)" "find_global (lk_globs l) (sy_name sy) = None" "length (lk_globs l) < MAX_GLOB_SYMS"
    using "2.prems"(2) by linarith
  then show ?case
  proof cases
    case 1
    then have "sy_global sy = 0 \<or> sy_sec sy = SEC_UNDEF" by simp
    then show ?thesis using 1 "2.IH"(1) "2.prems" by (simp add: Let_def del: defines_global.simps)
  next
    case 2
    then have "sy_name sy \<in> gl_name ` set (lk_globs l)" by (simp add: globs.find_None_iff)
    moreover have "lk_errors (build_from ((oi, ob, sy) # ss) l) \<noteq> []"
      using 2 build_from_errors [of "error (Duplicate oi (sy_name sy)) ?l" ss] by (simp add: Let_def)
    ultimately show ?thesis using 2 by (auto simp: Let_def)
  next
    case 3
    then show ?thesis by (simp add: Let_def)
  next
    case 4
    have e: "?e = \<lparr>gl_name = take 27 (sy_name sy), gl_addr = sym_addr ob sy, gl_obj = oi\<rparr>"
      using "2.prems"(3) by simp
    have step: "build_from ((oi, ob, sy) # ss) l = build_from ss (?l\<lparr>lk_globs := lk_globs l @ [?e]\<rparr>)"
      using 4 unfolding e by (simp add: Let_def)
    have "distinct (map gl_name (lk_globs l @ [?e]))"
      using "2.prems"(1) 4(2) by (intro globs.distinct_add_fresh) simp_all
    then show ?thesis
      using "2.IH"(3) [of ?l] "2.prems" 4 unfolding step by (simp add: Let_def e [symmetric])
  qed
qed

text \<open>C17: The pass over all symbols succeeds exactly when no two objects define the same global name
  and the table has room; the table then holds one entry for each global definition, in order,
  with the section's base plus the symbol's value as its address; and looking up a name finds the
  one definition of it.\<close>

theorem build_globals_correct:
  assumes "lk_globs l = []" "lk_errors l = []"
    and "list_all (\<lambda>(oi, ob, sy). length (sy_name sy) \<le> 27) (all_syms (lk_objs l))"
    and "gs = global_entries (all_syms (lk_objs l))"
  shows "(lk_errors (build_globals l) = [] \<longleftrightarrow> distinct (map gl_name gs) \<and> length gs \<le> MAX_GLOB_SYMS) \<and>
    (lk_errors (build_globals l) = [] \<longrightarrow>
       lk_globs (build_globals l) = gs \<and>
       (\<forall>n g. find_global (lk_globs (build_globals l)) n = Some g \<longleftrightarrow> g \<in> set gs \<and> gl_name g = n))"
proof -
  have spec: "(lk_errors (build_globals l) = [] \<longleftrightarrow> distinct (map gl_name gs) \<and> length gs \<le> MAX_GLOB_SYMS) \<and>
    (lk_errors (build_globals l) = [] \<longrightarrow> lk_globs (build_globals l) = gs)"
    using build_from_spec [of l "all_syms (lk_objs l)"] assms
    by (simp add: build_globals_def Let_def)
  have "find_global gs n = Some g \<longleftrightarrow> g \<in> set gs \<and> gl_name g = n" if "distinct (map gl_name gs)" for n g
    using globs.find_Some_key [of gs n g] globs.find_distinct [OF that, of g] by auto
  with spec show ?thesis by simp
qed

definition two_symbols :: linker where
  "two_symbols = linker0\<lparr>lk_objs :=
     [\<lparr>ob_secs = [\<lparr>se_hint = 0, se_size = 8, se_base = 0x1000, se_data = replicate 8 0\<rparr>],
       ob_syms = [\<lparr>sy_name = [0x61], sy_value = 0, sy_sec = 0, sy_global = 1\<rparr>,
                  \<lparr>sy_name = [0x62], sy_value = 4, sy_sec = 0, sy_global = 1\<rparr>], ob_rels = []\<rparr>]\<rparr>"

lemma build_globals_correct_witness:
  "lk_errors (build_globals two_symbols) = [] \<and>
   (\<exists>g. find_global (lk_globs (build_globals two_symbols)) [0x62] = Some g \<and> gl_addr g = 0x1004)"
proof -
  let ?gs = "global_entries (all_syms (lk_objs two_symbols))"
  let ?b = "\<lparr>gl_name = [0x62], gl_addr = 0x1004, gl_obj = 0\<rparr>"
  have "distinct (map gl_name ?gs)" "length ?gs \<le> MAX_GLOB_SYMS" "?b \<in> set ?gs"
    by (simp_all add: two_symbols_def all_syms_def sym_addr_def)
  then show ?thesis using build_globals_correct [of two_symbols ?gs]
    by (auto simp: two_symbols_def linker0_def all_syms_def)
qed

end
