(* ===== verification/Relocation.thy ===== *)
theory Relocation
  imports Linking
begin

text \<open>
  The relocation pass of the linker (\<open>resolve_relocs\<close>) as a batch of read-modify-writes on the
  section contents: an error-free pass applies each relocation exactly once, to the word the
  assembler wrote, with the addresses that were fixed before the pass.
\<close>

subsection \<open>What the pass does not change\<close>

definition blank_obj :: "ObjFile \<Rightarrow> ObjFile" where
  "blank_obj ob = ob\<lparr>ob_secs := map (\<lambda>s. s\<lparr>se_data := []\<rparr>) (ob_secs ob)\<rparr>"

text \<open>Everything but the contents of the sections.\<close>

definition layout :: "linker \<Rightarrow> ObjFile list \<times> GlobSym list" where
  "layout l = (map blank_obj (lk_objs l), lk_globs l)"

lemma blank_obj_simps [simp]:
  "ob_syms (blank_obj ob) = ob_syms ob" "ob_rels (blank_obj ob) = ob_rels ob"
  "length (ob_secs (blank_obj ob)) = length (ob_secs ob)"
  "sym_addr (blank_obj ob) sy = sym_addr ob sy"
  "i < length (ob_secs ob) \<Longrightarrow> se_base (ob_secs (blank_obj ob) ! i) = se_base (ob_secs ob ! i)"
  "i < length (ob_secs ob) \<Longrightarrow> se_size (ob_secs (blank_obj ob) ! i) = se_size (ob_secs ob ! i)"
  by (simp_all add: blank_obj_def sym_addr_def)

lemma layout_set_sec_data [simp]: "layout (set_sec_data oi si d l) = layout l"
proof (cases "oi < length (lk_objs l) \<and> si < length (ob_secs (lk_objs l ! oi))")
  case True
  then have "blank_obj ((lk_objs l ! oi)\<lparr>ob_secs := (ob_secs (lk_objs l ! oi))
      [si := (ob_secs (lk_objs l ! oi) ! si)\<lparr>se_data := d\<rparr>]\<rparr>) = blank_obj (lk_objs l ! oi)"
    by (simp add: blank_obj_def map_update list_update_same_conv)
  with True show ?thesis
    by (simp add: layout_def set_sec_data_def Let_def map_update list_update_same_conv)
qed (simp add: set_sec_data_outside)

lemma layout_site_put [simp]: "layout (site_put l a v) = layout l"
  by (cases a) simp

lemma layout_rmw [simp]: "layout (rmw site_get site_put f l a) = layout l"
  by (simp add: rmw_def)

lemma layout_simps [simp]: "layout (link_ub b l) = layout l" "layout (error e l) = layout l"
  by (simp_all add: layout_def)

subsection \<open>What a relocation does to a word\<close>

text \<open>
  The five relocation types by their effect: an absolute word becomes the address; the immediate
  field of a MOVI or MOVHI becomes one half of it; the offset field of a branch or a jump becomes
  its signed distance from the site; the rest of the word stays.
\<close>

definition relocated :: "u8 \<Rightarrow> u32 \<Rightarrow> u32 \<Rightarrow> u32 \<Rightarrow> u32 \<Rightarrow> bool" where
  "relocated ty S site w w' \<longleftrightarrow>
     (if ty = RELOC_ABS32 then w' = S
      else if ty = RELOC_MOVI32_LO then ucast w' = (ucast S :: u16) \<and> drop_bit 16 w' = drop_bit 16 w
      else if ty = RELOC_MOVI32_HI then ucast w' = (ucast (drop_bit 16 S) :: u16) \<and> drop_bit 16 w' = drop_bit 16 w
      else sint (ucast w' :: 20 word) = uint S - uint site \<and> drop_bit 20 w' = drop_bit 20 w)"

lemma bit_patch:
  "ty \<in> {4, 5} \<Longrightarrow> bit (patch ty S site instr) n \<longleftrightarrow>
     n < 32 \<and> (if n < 20 then bit (uint S - uint site) n else bit instr n)"
  "bit (patch 2 S site instr) n \<longleftrightarrow> n < 32 \<and> (if n < 16 then bit S n else bit instr n)"
  "bit (patch 3 S site instr) n \<longleftrightarrow> n < 32 \<and> (if n < 16 then bit S (16 + n) else bit instr n)"
proof -
  have m: "(0xFFFFF :: u32) = mask 20" "(0xFFF00000 :: u32) = push_bit 20 (mask 12)"
    "(0xFFFF0000 :: u32) = push_bit 16 (mask 16)"
    by (simp_all add: mask_eq_exp_minus_1 push_bit_eq_mult)
  define x where "x = uint S - uint site"
  have p: "patch ty S site instr =
      (if ty = 2 then (instr AND push_bit 16 (mask 16)) OR (S AND mask 16)
       else if ty = 3 then (instr AND push_bit 16 (mask 16)) OR (drop_bit 16 S AND mask 16)
       else (instr AND push_bit 20 (mask 12)) OR (word_of_int x AND mask 20))"
    if "ty \<noteq> 1" for ty using that unfolding patch_def m mask16_u32 x_def by simp
  show "ty \<in> {4, 5} \<Longrightarrow> bit (patch ty S site instr) n \<longleftrightarrow>
     n < 32 \<and> (if n < 20 then bit (uint S - uint site) n else bit instr n)"
    unfolding x_def [symmetric] by (auto simp: p bit_simps dest: bit_imp_le_length)
  show "bit (patch 2 S site instr) n \<longleftrightarrow> n < 32 \<and> (if n < 16 then bit S n else bit instr n)"
    "bit (patch 3 S site instr) n \<longleftrightarrow> n < 32 \<and> (if n < 16 then bit S (16 + n) else bit instr n)"
    by (auto simp: p bit_simps dest: bit_imp_le_length)
qed

lemma patch_relocated:
  assumes "ty \<in> {1, 2, 3, 4, 5}" "reloc_fits ty S site"
  shows "relocated ty S site w (patch ty S site w)"
proof -
  consider "ty = 1" | "ty = 2" | "ty = 3" | "ty \<in> {4, 5}" using assms(1) by auto
  then show ?thesis
  proof cases
    case 2
    have "ucast (patch 2 S site w) = (ucast S :: u16)" "drop_bit 16 (patch 2 S site w) = drop_bit 16 w"
      by (rule bit_word_eqI; auto simp: bit_patch bit_ucast_iff bit_drop_bit_eq dest: bit_imp_le_length)+
    then show ?thesis using 2 by (simp add: relocated_def)
  next
    case 3
    have "ucast (patch 3 S site w) = (ucast (drop_bit 16 S) :: u16)" "drop_bit 16 (patch 3 S site w) = drop_bit 16 w"
      by (rule bit_word_eqI; auto simp: bit_patch bit_ucast_iff bit_drop_bit_eq dest: bit_imp_le_length)+
    then show ?thesis using 3 by (simp add: relocated_def)
  next
    case 4
    define x where "x = uint S - uint site"
    have "(ucast (patch ty S site w) :: 20 word) = word_of_int x"
      by (rule bit_word_eqI) (simp add: bit_ucast_iff bit_word_of_int_iff bit_patch(1) [OF 4] flip: x_def)
    moreover have "- 524288 \<le> x \<and> x \<le> 524287"
      using assms(2) 4 by (auto simp: reloc_fits_def x_def)
    then have "sint (word_of_int x :: 20 word) = x"
      by (simp add: signed_of_int signed_take_bit_int_eq_self)
    moreover have "drop_bit 20 (patch ty S site w) = drop_bit 20 w"
      by (rule bit_word_eqI) (auto simp: bit_patch(1) [OF 4] bit_drop_bit_eq dest: bit_imp_le_length)
    ultimately show ?thesis using 4 by (auto simp: relocated_def simp flip: x_def)
  qed (simp add: relocated_def patch_def)
qed

subsection \<open>Sites, targets and patches\<close>

text \<open>
  For the relocation \<open>ri\<close> of object \<open>oi\<close>: its site in the section contents, the address of the
  site in the image, the address it refers to with the addend, and its effect on the word.
\<close>

fun reloc_at :: "linker \<Rightarrow> nat \<times> nat \<Rightarrow> LRel" where
  "reloc_at l (oi, ri) = ob_rels (lk_objs l ! oi) ! ri"

definition reloc_site :: "linker \<Rightarrow> nat \<times> nat \<Rightarrow> site" where
  "reloc_site l p = (fst p, unat (rl_sec (reloc_at l p)), unat (rl_offset (reloc_at l p)))"

definition reloc_addr :: "linker \<Rightarrow> nat \<times> nat \<Rightarrow> u32" where
  "reloc_addr l p =
     se_base (ob_secs (lk_objs l ! fst p) ! unat (rl_sec (reloc_at l p))) + rl_offset (reloc_at l p)"

definition reloc_target :: "linker \<Rightarrow> nat \<times> nat \<Rightarrow> u32 option" where
  "reloc_target l p =
     map_option (\<lambda>a. a + rl_addend (reloc_at l p)) (reloc_symbol l (lk_objs l ! fst p) (reloc_at l p))"

definition reloc_patch :: "linker \<Rightarrow> nat \<times> nat \<Rightarrow> site \<times> (u32 \<Rightarrow> u32)" where
  "reloc_patch l p =
     (reloc_site l p, patch (rl_type (reloc_at l p)) (the (reloc_target l p)) (reloc_addr l p))"

definition reloc_ok :: "linker \<Rightarrow> nat \<times> nat \<Rightarrow> bool" where
  "reloc_ok l p \<longleftrightarrow> site_valid l (reloc_site l p) \<and> reloc_target l p \<noteq> None \<and>
     rl_type (reloc_at l p) \<in> {1, 2, 3, 4, 5} \<and>
     reloc_fits (rl_type (reloc_at l p)) (the (reloc_target l p)) (reloc_addr l p)"

lemma resolve_reloc_ok:
  assumes "oi < length (lk_objs l)" "lk_errors (resolve_reloc oi ri l) = []" "\<not> lk_ub (resolve_reloc oi ri l)"
  shows "reloc_ok l (oi, ri) \<and> resolve_reloc oi ri l =
    (case reloc_patch l (oi, ri) of (a, f) \<Rightarrow> rmw site_get site_put f l a)"
proof -
  let ?ob = "lk_objs l ! oi" let ?r = "ob_rels ?ob ! ri" let ?si = "unat (rl_sec ?r)"
  let ?l = "link_ub (reloc_ub l ?ob ?r) l" let ?off = "unat (rl_offset ?r)"
  have si: "?si < length (ob_secs ?ob)"
    using assms(2) by (auto simp: resolve_reloc_def Let_def not_less[symmetric] split: if_splits)
  have sym: "reloc_symbol ?l ?ob ?r = reloc_symbol l ?ob ?r"
    by (simp add: reloc_symbol_def Let_def)
  obtain a where a: "reloc_symbol l ?ob ?r = Some a"
    using assms(2) si sym by (cases "reloc_symbol l ?ob ?r") (auto simp: resolve_reloc_def Let_def)
  let ?sec = "ob_secs ?ob ! ?si" let ?S = "a + rl_addend ?r" let ?site = "se_base ?sec + rl_offset ?r"
  have chk: "\<not> rl_offset ?r + 4 > se_size ?sec" "rl_type ?r \<in> {1, 2, 3, 4, 5}" "reloc_fits (rl_type ?r) ?S ?site"
    using assms(2) si sym a by (auto simp: resolve_reloc_def Let_def split: if_splits)
  have eq: "resolve_reloc oi ri l = set_sec_data oi ?si
      (put32 (se_data ?sec) ?off (patch (rl_type ?r) ?S ?site (get32 (se_data ?sec) ?off)))
      (link_ub (?off + 4 > length (se_data ?sec)) ?l)"
    unfolding resolve_reloc_def Let_def sym a using si chk by simp
  have ub: "\<not> lk_ub l" "\<not> reloc_ub l ?ob ?r" "?off + 4 \<le> length (se_data ?sec)"
    using assms(3) unfolding eq by (simp_all add: set_sec_data_def Let_def)
  then have "link_ub (?off + 4 > length (se_data ?sec)) ?l = l"
    by (simp add: link_ub_def)
  then show ?thesis
    using eq si chk a ub(3) assms(1)
    by (simp add: reloc_ok_def reloc_patch_def reloc_site_def reloc_target_def reloc_addr_def rmw_def sec_data_def)
qed

subsection \<open>These depend on the layout only\<close>

lemma reloc_indices_mem: "(oi, ri) \<in> set (reloc_indices obs) \<longleftrightarrow> oi < length obs \<and> ri < length (ob_rels (obs ! oi))"
  by (force simp: reloc_indices_def)

lemma layout_obj:
  assumes "layout l = layout l'" "oi < length (lk_objs l)"
  shows "oi < length (lk_objs l')" "blank_obj (lk_objs l ! oi) = blank_obj (lk_objs l' ! oi)" "lk_globs l = lk_globs l'"
proof -
  have m: "map blank_obj (lk_objs l) = map blank_obj (lk_objs l')" "lk_globs l = lk_globs l'"
    using assms(1) by (simp_all add: layout_def)
  show "lk_globs l = lk_globs l'" by (rule m(2))
  show len: "oi < length (lk_objs l')" using assms(2) map_eq_imp_length_eq [OF m(1)] by simp
  show "blank_obj (lk_objs l ! oi) = blank_obj (lk_objs l' ! oi)"
    using arg_cong [OF m(1), of "\<lambda>xs. xs ! oi"] assms(2) len by simp
qed

lemma reloc_layout:
  assumes "layout l = layout l'" "fst p < length (lk_objs l)"
  shows "reloc_at l p = reloc_at l' p" "reloc_site l p = reloc_site l' p" "reloc_target l p = reloc_target l' p"
    and "fst (snd (reloc_site l p)) < length (ob_secs (lk_objs l ! fst p)) \<Longrightarrow> reloc_addr l p = reloc_addr l' p"
proof -
  obtain oi ri where p: "p = (oi, ri)" by force
  let ?ob = "lk_objs l ! oi" and ?ob' = "lk_objs l' ! oi"
  have oi: "oi < length (lk_objs l)" using assms(2) p by simp
  note obj = layout_obj [OF assms(1) oi]
  have rels: "ob_rels ?ob = ob_rels ?ob'" "ob_syms ?ob = ob_syms ?ob'" "sym_addr ?ob sy = sym_addr ?ob' sy" for sy
    using arg_cong [OF obj(2), of ob_rels] arg_cong [OF obj(2), of ob_syms]
      arg_cong [OF obj(2), of "\<lambda>ob. sym_addr ob sy"] by simp_all
  show r: "reloc_at l p = reloc_at l' p" using rels(1) p by simp
  show "reloc_site l p = reloc_site l' p" using r by (simp add: reloc_site_def)
  show "reloc_target l p = reloc_target l' p"
    using r rels obj(3) p by (simp add: reloc_target_def reloc_symbol_def Let_def)
  have len: "length (ob_secs ?ob) = length (ob_secs ?ob')"
    using arg_cong [OF obj(2), of "\<lambda>ob. length (ob_secs ob)"] by simp
  assume "fst (snd (reloc_site l p)) < length (ob_secs (lk_objs l ! fst p))"
  then have si: "unat (rl_sec (reloc_at l p)) < length (ob_secs ?ob)" using p by (simp add: reloc_site_def)
  then show "reloc_addr l p = reloc_addr l' p"
    using arg_cong [OF obj(2), of "\<lambda>ob. se_base (ob_secs ob ! unat (rl_sec (reloc_at l p)))"] len r p
    by (simp add: reloc_addr_def)
qed

subsection \<open>The whole pass\<close>

lemma resolve_reloc_errors: "\<exists>es. lk_errors (resolve_reloc oi ri l) = lk_errors l @ es"
  by (auto simp: resolve_reloc_def set_sec_data_def Let_def split: option.split)

lemma resolve_reloc_ub: "lk_ub l \<Longrightarrow> lk_ub (resolve_reloc oi ri l)"
  by (auto simp: resolve_reloc_def set_sec_data_def Let_def split: option.split)

lemma resolve_reloc_layout [simp]: "layout (resolve_reloc oi ri l) = layout l"
  by (auto simp: resolve_reloc_def Let_def split: option.split)

abbreviation resolve_list :: "(nat \<times> nat) list \<Rightarrow> linker \<Rightarrow> linker" where
  "resolve_list ps l \<equiv> foldl (\<lambda>l (oi, ri). resolve_reloc oi ri l) l ps"

lemma resolve_list_errors: "\<exists>es. lk_errors (resolve_list ps l) = lk_errors l @ es"
proof (induction ps arbitrary: l)
  case (Cons p ps)
  then show ?case using resolve_reloc_errors [of "fst p" "snd p" l] by (auto simp: split_beta) (metis append_assoc)
qed simp

lemma resolve_list_ub: "lk_ub l \<Longrightarrow> lk_ub (resolve_list ps l)"
  by (induction ps arbitrary: l) (auto simp: resolve_reloc_ub split_beta)

lemma resolve_list_spec:
  assumes "lk_errors (resolve_list ps l) = []" "\<not> lk_ub (resolve_list ps l)" "layout l = layout l0"
    and "\<And>b. site_valid l b = site_valid l0 b" "\<forall>p \<in> set ps. fst p < length (lk_objs l0)"
  shows "(\<forall>p \<in> set ps. reloc_ok l0 p) \<and>
    resolve_list ps l = rmw_all site_get site_put (map (reloc_patch l0) ps) l"
  using assms
proof (induction ps arbitrary: l)
  case Nil
  then show ?case by simp
next
  case (Cons p ps)
  obtain oi ri where p: "p = (oi, ri)" by force
  let ?l = "resolve_reloc oi ri l"
  have len: "oi < length (lk_objs l)" using Cons.prems(3,5) p layout_obj [of l0 l oi] by simp
  have "lk_errors ?l = []" "\<not> lk_ub ?l"
    using Cons.prems(1,2) resolve_list_errors [where ps = ps and l = ?l] resolve_list_ub [where ps = ps and l = ?l] p by auto
  note step = resolve_reloc_ok [OF len this]
  have okl: "reloc_ok l p" using step p by simp
  then have "fst (snd (reloc_site l p)) < length (ob_secs (lk_objs l ! fst p))"
    by (simp add: reloc_ok_def reloc_site_def)
  note eqs = reloc_layout(1,3) [OF Cons.prems(3)] reloc_layout(2) [OF Cons.prems(3)]
    reloc_layout(4) [OF Cons.prems(3) _ this]
  have "fst p < length (lk_objs l)" using len p by simp
  note eqs = eqs [OF this]
  have ok: "reloc_ok l0 p" "reloc_patch l p = reloc_patch l0 p"
    using okl by (simp_all only: reloc_ok_def reloc_patch_def eqs Cons.prems(4)) blast
  obtain a f where pt: "reloc_patch l0 p = (a, f)" by (cases "reloc_patch l0 p")
  have l: "?l = rmw site_get site_put f l a" using step ok(2) pt p by simp
  have "(\<forall>p \<in> set ps. reloc_ok l0 p) \<and> resolve_list ps ?l = rmw_all site_get site_put (map (reloc_patch l0) ps) ?l"
    using Cons.prems p l by (intro Cons.IH) (auto simp: sitew.valid_rmw)
  then show ?case using ok(1) pt l p by simp
qed

lemma resolve_relocs_spec:
  assumes "lk_errors (resolve_relocs l) = []" "\<not> lk_ub (resolve_relocs l)"
  shows "\<forall>p \<in> set (reloc_indices (lk_objs l)). reloc_ok l p"
    and "resolve_relocs l = rmw_all site_get site_put (map (reloc_patch l) (reloc_indices (lk_objs l))) l"
proof -
  have "\<forall>p \<in> set (reloc_indices (lk_objs l)). fst p < length (lk_objs l)"
    by (auto simp: reloc_indices_mem)
  from resolve_list_spec [OF _ _ refl refl this] assms
  show "\<forall>p \<in> set (reloc_indices (lk_objs l)). reloc_ok l p"
    "resolve_relocs l = rmw_all site_get site_put (map (reloc_patch l) (reloc_indices (lk_objs l))) l"
    by (simp_all add: resolve_relocs_def)
qed

lemma relocations_applied:
  assumes "lk_errors (resolve_relocs l) = []" "\<not> lk_ub (resolve_relocs l)"
    and "sorted_wrt (\<lambda>p q. site_apart (reloc_site l p) (reloc_site l q)) (reloc_indices (lk_objs l))"
    and "(oi, ri) \<in> set (reloc_indices (lk_objs l))" "r = reloc_at l (oi, ri)"
  shows "\<exists>S. reloc_target l (oi, ri) = Some S \<and> rl_type r \<in> {1, 2, 3, 4, 5} \<and>
    reloc_fits (rl_type r) S (reloc_addr l (oi, ri)) \<and>
    site_get (resolve_relocs l) (reloc_site l (oi, ri)) =
      patch (rl_type r) S (reloc_addr l (oi, ri)) (site_get l (reloc_site l (oi, ri)))"
proof -
  note spec = resolve_relocs_spec [OF assms(1,2)]
  let ?ps = "map (reloc_patch l) (reloc_indices (lk_objs l))"
  have ok: "reloc_ok l (oi, ri)" using spec(1) assms(4) by blast
  then obtain S where S: "reloc_target l (oi, ri) = Some S" by (auto simp: reloc_ok_def)
  have valid: "\<And>a f. (a, f) \<in> set ?ps \<Longrightarrow> site_valid l a"
    using spec(1) by (auto simp: reloc_patch_def reloc_ok_def)
  have apart: "sorted_wrt (\<lambda>p q. site_apart (fst p) (fst q)) ?ps"
    using assms(3) by (simp add: sorted_wrt_map reloc_patch_def)
  have mem: "(reloc_site l (oi, ri), patch (rl_type r) S (reloc_addr l (oi, ri))) \<in> set ?ps"
    using assms(4,5) S by (force simp: reloc_patch_def)
  have "site_get (resolve_relocs l) (reloc_site l (oi, ri)) =
      patch (rl_type r) S (reloc_addr l (oi, ri)) (site_get l (reloc_site l (oi, ri)))"
    unfolding spec(2) by (rule sitew.get_rmw_all [OF valid apart mem])
  then show ?thesis using ok S assms(5) by (simp add: reloc_ok_def)
qed

lemma resolve_relocs_valid:
  assumes "lk_errors (resolve_relocs l) = []" "\<not> lk_ub (resolve_relocs l)" "p \<in> set (reloc_indices (lk_objs l))"
  shows "site_valid l (reloc_site l p)" "site_valid (resolve_relocs l) (reloc_site l p)"
  using resolve_relocs_spec [OF assms(1,2)] assms(3)
  by (auto simp: reloc_ok_def sitew.valid_rmw_all simp del: site_valid.simps)

lemma resolve_relocs_layout [simp]: "layout (resolve_relocs l) = layout l"
proof -
  have "layout (resolve_list ps l) = layout l" for ps
    by (induction ps arbitrary: l) (auto simp: split_beta)
  then show ?thesis by (simp add: resolve_relocs_def)
qed

lemma layout_sec_base:
  assumes "layout l = layout l'" "oi < length (lk_objs l)" "si < length (ob_secs (lk_objs l ! oi))"
  shows "se_base (ob_secs (lk_objs l ! oi) ! si) = se_base (ob_secs (lk_objs l' ! oi) ! si)"
proof -
  note eq = layout_obj(2) [OF assms(1,2)]
  have "si < length (ob_secs (lk_objs l' ! oi))"
    using assms(3) arg_cong [OF eq, of "\<lambda>ob. length (ob_secs ob)"] by simp
  then show ?thesis using assms(3) arg_cong [OF eq, of "\<lambda>ob. se_base (ob_secs ob ! si)"] by simp
qed

text \<open>Single bytes of the section contents, and those outside the four bytes of a site.\<close>

fun byte_get :: "linker \<Rightarrow> site \<Rightarrow> u8" where
  "byte_get l (oi, si, k) = sec_data l oi si ! k"

fun byte_valid :: "linker \<Rightarrow> site \<Rightarrow> bool" where
  "byte_valid l (oi, si, k) \<longleftrightarrow>
     oi < length (lk_objs l) \<and> si < length (ob_secs (lk_objs l ! oi)) \<and> k < length (sec_data l oi si)"

fun byte_outside :: "site \<Rightarrow> site \<Rightarrow> bool" where
  "byte_outside (oi, si, off) (oj, sj, k) \<longleftrightarrow> oi \<noteq> oj \<or> si \<noteq> sj \<or> k < off \<or> off + 4 \<le> k"

lemma byte_valid_put [simp]: "byte_valid (site_put l a v) b = byte_valid l b"
proof (cases a)
  case (fields oi si off)
  show ?thesis
  proof (cases "oi < length (lk_objs l) \<and> si < length (ob_secs (lk_objs l ! oi))")
    case True
    then show ?thesis by (cases b) (simp add: fields)
  qed (simp add: fields set_sec_data_outside)
qed

lemma byte_valid_rmw_all [simp]: "byte_valid (rmw_all site_get site_put ps l) b = byte_valid l b"
proof (induction ps arbitrary: l)
  case (Cons p ps)
  then show ?case by (cases p) (simp add: rmw_def)
qed simp

lemma byte_get_put:
  "site_valid l a \<Longrightarrow> byte_outside a b \<Longrightarrow> byte_get (site_put l a v) b = byte_get l b"
  by (cases a; cases b) (auto simp: nth_put32_other)

lemma byte_get_rmw_all:
  "(\<And>a f. (a, f) \<in> set ps \<Longrightarrow> site_valid l a \<and> byte_outside a b) \<Longrightarrow>
     byte_get (rmw_all site_get site_put ps l) b = byte_get l b"
proof (induction ps arbitrary: l)
  case (Cons p ps)
  obtain a f where p: "p = (a, f)" by (cases p)
  have "byte_get (rmw_all site_get site_put ps (rmw site_get site_put f l a)) b =
      byte_get (rmw site_get site_put f l a) b"
    using Cons.prems by (intro Cons.IH) (auto simp: sitew.valid_rmw)
  also have "\<dots> = byte_get l b"
    unfolding rmw_def using Cons.prems [of a f] p by (intro byte_get_put) simp_all
  finally show ?case by (simp add: p)
qed simp

text \<open>Bytes outside every site keep their value.\<close>

lemma relocation_frame:
  assumes "lk_errors (resolve_relocs l) = []" "\<not> lk_ub (resolve_relocs l)"
    and "\<And>p. p \<in> set (reloc_indices (lk_objs l)) \<Longrightarrow> byte_outside (reloc_site l p) b"
  shows "byte_get (resolve_relocs l) b = byte_get l b"
proof -
  note spec = resolve_relocs_spec [OF assms(1,2)]
  show ?thesis unfolding spec(2)
    by (rule byte_get_rmw_all)
      (use spec(1) assms(3) in \<open>auto simp: reloc_patch_def reloc_ok_def\<close>)
qed

end
