(* ===== verification/Image.thy ===== *)
theory Image
  imports Relocation
begin

text \<open>
  The output image of the linker and the whole program: loading keeps the section buffers as long
  as their sections, the image holds every section at its address, and there is an output file
  only when every symbol is resolved.
\<close>

subsection \<open>Section buffers\<close>

text \<open>The buffer of a section is as long as the section.\<close>

definition sec_wf :: "LSec \<Rightarrow> bool" where
  "sec_wf s \<longleftrightarrow> length (se_data s) = unat (se_size s)"

definition linker_wf :: "linker \<Rightarrow> bool" where
  "linker_wf l \<longleftrightarrow> list_all (\<lambda>ob. list_all sec_wf (ob_secs ob)) (lk_objs l)"

lemma load_data_wf: "sec_wf (fst (load_data file data_off s))"
proof -
  let ?off = "se_base s" and ?sz = "se_size s" and ?blob = "blob_size file data_off"
  have "unat (?blob - ?off) \<le> unat ?sz" if "?off < ?blob" "?off + ?sz > ?blob"
  proof -
    have "uint (?blob - ?off) = uint ?blob - uint ?off"
      using that(1) by (simp add: uint_sub_u32 word_less_def)
    moreover have "uint ?blob < uint ?off + uint ?sz"
      using that by (simp add: word_less_def uint_add_u32 split: if_splits)
    ultimately show ?thesis by (simp add: word_le_nat_alt [symmetric] word_le_def)
  qed
  then show ?thesis by (simp add: load_data_def sec_wf_def Let_def)
qed

lemma load_dobj_wf: "load_dobj file l = Some l' \<Longrightarrow> linker_wf l \<Longrightarrow> linker_wf l'"
  by (auto simp: load_dobj_def linker_wf_def Let_def link_ub_def list_all_iff load_data_wf
      split: if_splits prod.splits)

lemma load_all_fields:
  "load_all files l = Some l' \<Longrightarrow> lk_globs l' = lk_globs l \<and> lk_errors l' = lk_errors l"
proof (induction files l rule: load_all.induct)
  case (2 fl fs l)
  then show ?case
    by (auto simp: load_dobj_def Let_def link_ub_def split: if_splits prod.splits option.splits)
qed simp

lemma load_all_wf: "load_all files l = Some l' \<Longrightarrow> linker_wf l \<Longrightarrow> linker_wf l'"
  by (induction files l rule: load_all.induct) (auto split: option.splits simp: load_dobj_wf)

lemma assign_section_wf: "sec_wf (snd (assign_section nxt s)) = sec_wf s"
  by (simp add: assign_section_def sec_wf_def Let_def)

lemma assign_sections_wf: "list_all sec_wf (snd (assign_sections nxt ss)) = list_all sec_wf ss"
proof (induction ss arbitrary: nxt)
  case (Cons s ss)
  then show ?case by (simp only: assign_sections_Cons snd_conv list.pred_inject assign_section_wf)
qed simp

lemma linker_wf_all_secs: "linker_wf l \<longleftrightarrow> list_all sec_wf (all_secs l)"
  by (auto simp: linker_wf_def all_secs_def list_all_iff)

lemma assign_addresses_wf: "linker_wf (assign_addresses text_base l) = linker_wf l"
  by (simp add: linker_wf_all_secs all_secs_assign assign_sections_wf)

lemma build_globals_wf: "linker_wf (build_globals l) = linker_wf l"
  by (simp add: linker_wf_def build_globals_def)

lemma site_put_wf:
  assumes "linker_wf l"
  shows "linker_wf (site_put l a v)"
proof (cases a)
  case (fields oi si off)
  show ?thesis
  proof (cases "oi < length (lk_objs l) \<and> si < length (ob_secs (lk_objs l ! oi))")
    case True
    have "sec_wf (ob_secs (lk_objs l ! oi) ! si)"
      using True assms by (simp add: linker_wf_def list_all_length)
    then have "list_all sec_wf ((ob_secs (lk_objs l ! oi))[si := (ob_secs (lk_objs l ! oi) ! si)
        \<lparr>se_data := put32 (sec_data l oi si) off v\<rparr>])"
      using True assms by (auto simp: linker_wf_def list_all_length nth_list_update sec_wf_def sec_data_def)
    with True assms show ?thesis
      by (simp add: fields linker_wf_def set_sec_data_def Let_def list_all_length nth_list_update)
  qed (use assms in \<open>simp add: fields set_sec_data_outside\<close>)
qed

lemma resolve_reloc_wf: "linker_wf l \<Longrightarrow> linker_wf (resolve_reloc oi ri l)"
proof -
  assume wf: "linker_wf l"
  have put: "linker_wf (set_sec_data oi si (put32 (se_data (ob_secs (lk_objs l ! oi) ! si)) off v) (link_ub b (link_ub c l)))"
    for si off v b c
    using site_put_wf [of "link_ub b (link_ub c l)" "(oi, si, off)" v] wf by (simp add: linker_wf_def sec_data_def)
  have "linker_wf (error e l)" "linker_wf (error e (link_ub b l))" for e b
    using wf by (simp_all add: linker_wf_def)
  then show ?thesis using put by (auto simp: resolve_reloc_def Let_def split: option.split)
qed

lemma resolve_relocs_wf: "linker_wf l \<Longrightarrow> linker_wf (resolve_relocs l)"
proof -
  have "linker_wf l \<Longrightarrow> linker_wf (resolve_list ps l)" for ps
    by (induction ps arbitrary: l) (auto simp: resolve_reloc_wf split_beta)
  then show "linker_wf l \<Longrightarrow> linker_wf (resolve_relocs l)" by (simp add: resolve_relocs_def)
qed

subsection \<open>Copying sections into the image\<close>

definition covers :: "LSec \<Rightarrow> nat \<Rightarrow> bool" where
  "covers s i \<longleftrightarrow> unat (se_base s) \<le> i \<and> i < unat (se_base s) + unat (se_size s)"

definition sec_disjoint :: "LSec \<Rightarrow> LSec \<Rightarrow> bool" where
  "sec_disjoint s t \<longleftrightarrow> unat (se_base s) + unat (se_size s) \<le> unat (se_base t) \<or>
     unat (se_base t) + unat (se_size t) \<le> unat (se_base s)"

lemma copy_sec_length [simp]: "sec_wf s \<Longrightarrow> length (fst (copy_sec b s)) = length (fst b)"
  by (cases b) (auto simp: copy_sec_def sec_wf_def Let_def min_def)

lemma copy_sec_nth:
  assumes "sec_wf s" "\<not> snd (copy_sec b s)" "i < length (fst b)"
  shows "fst (copy_sec b s) ! i = (if covers s i then se_data s ! (i - unat (se_base s)) else fst b ! i)"
  using assms
  by (auto simp: copy_sec_def sec_wf_def covers_def Let_def nth_append word_less_nat_alt split: if_splits)

lemma copy_all_ub: "snd b \<Longrightarrow> snd (foldl copy_sec b ss)"
  by (induction ss arbitrary: b) (auto simp: copy_sec_def Let_def)

lemma copy_all_fits:
  "list_all sec_wf ss \<Longrightarrow> \<not> snd (foldl copy_sec b ss) \<Longrightarrow>
     length (fst (foldl copy_sec b ss)) = length (fst b) \<and>
     (\<forall>s \<in> set ss. se_size s > 0 \<longrightarrow> unat (se_base s) + unat (se_size s) \<le> length (fst b))"
proof (induction ss arbitrary: b)
  case (Cons s ss)
  have "\<not> snd (copy_sec b s)" using copy_all_ub [of "copy_sec b s" ss] Cons.prems(2) by auto
  then have "se_size s > 0 \<Longrightarrow> unat (se_base s) + unat (se_size s) \<le> length (fst b)"
    by (auto simp: copy_sec_def Let_def split: if_splits)
  then show ?case using Cons.IH [of "copy_sec b s"] Cons.prems by auto
qed simp

lemma copy_all_spec:
  assumes "list_all sec_wf ss" "\<not> snd (foldl copy_sec b ss)" "i < length (fst b)"
  shows "(\<forall>s \<in> set ss. sorted_wrt sec_disjoint ss \<longrightarrow> covers s i \<longrightarrow>
       fst (foldl copy_sec b ss) ! i = se_data s ! (i - unat (se_base s))) \<and>
    ((\<forall>s \<in> set ss. \<not> covers s i) \<longrightarrow> fst (foldl copy_sec b ss) ! i = fst b ! i)"
  using assms
proof (induction ss arbitrary: b)
  case (Cons s ss)
  let ?b = "copy_sec b s"
  have wf: "sec_wf s" "list_all sec_wf ss" using Cons.prems(1) by simp_all
  have len: "length (fst ?b) = length (fst b)" using wf by simp
  have ub: "\<not> snd (foldl copy_sec ?b ss)" using Cons.prems(2) by simp
  then have "\<not> snd ?b" using copy_all_ub by blast
  note nth = copy_sec_nth [OF wf(1) this Cons.prems(3)]
  note ih = Cons.IH [OF wf(2) ub, unfolded len, OF Cons.prems(3)]
  have "\<not> covers t i" if "covers s i" "sorted_wrt sec_disjoint (s # ss)" "t \<in> set ss" for t
    using that by (auto simp: covers_def sec_disjoint_def)
  then show ?case using ih nth by (auto split: if_splits)
qed simp

text \<open>Every byte of the output image: with non-overlapping sections, a byte inside a section is that
  section's byte, a byte outside all sections is zero, and the image ends at the end of the last
  section.\<close>

theorem image_contents:
  assumes "linker_wf l" "\<not> snd (emit_output l)" "sorted_wrt sec_disjoint (all_secs l)"
    and "out = fst (emit_output l)"
    and "i < unat (out_size l)"
  shows "length out = unat (out_size l) \<and>
    (\<forall>s \<in> set (all_secs l). covers s i \<longrightarrow> out ! i = se_data s ! (i - unat (se_base s))) \<and>
    ((\<forall>s \<in> set (all_secs l). \<not> covers s i) \<longrightarrow> out ! i = 0)"
  using copy_all_spec [of "all_secs l" "(replicate (unat (out_size l)) 0, lk_ub l)" i]
    copy_all_fits [of "all_secs l" "(replicate (unat (out_size l)) 0, lk_ub l)"] assms
  by (simp add: emit_output_def linker_wf_all_secs)

definition placed :: linker where
  "placed = linker0\<lparr>lk_objs := [\<lparr>ob_secs =
     [\<lparr>se_hint = 0, se_size = 2, se_base = 4, se_data = [6, 7]\<rparr>,
      \<lparr>se_hint = 8, se_size = 1, se_base = 8, se_data = [9]\<rparr>], ob_syms = [], ob_rels = []\<rparr>]\<rparr>"

lemma image_contents_witness:
  "map ((!) (fst (emit_output placed))) [3, 4, 5, 8] = [0, 6, 7, 9]"
proof -
  let ?out = "fst (emit_output placed)"
  have secs: "all_secs placed = [\<lparr>se_hint = 0, se_size = 2, se_base = 4, se_data = [6, 7]\<rparr>,
      \<lparr>se_hint = 8, se_size = 1, se_base = 8, se_data = [9]\<rparr>]"
    by (simp add: placed_def linker0_def all_secs_def)
  have wf: "linker_wf placed" by (simp add: linker_wf_all_secs secs sec_wf_def)
  have sz: "out_size placed = 9" by (simp add: out_size_def secs Let_def)
  have nub: "\<not> lk_ub placed" by (simp add: placed_def linker0_def)
  have ub: "\<not> snd (emit_output placed)"
    by (simp add: emit_output_def secs sz copy_sec_def Let_def nub)
  have "i < 9 \<Longrightarrow>
     (4 \<le> i \<and> i < 6 \<longrightarrow> ?out ! i = [6, 7] ! (i - 4)) \<and> (8 \<le> i \<and> i < 9 \<longrightarrow> ?out ! i = [9] ! (i - 8)) \<and>
     (\<not> (4 \<le> i \<and> i < 6) \<and> \<not> (8 \<le> i \<and> i < 9) \<longrightarrow> ?out ! i = 0)" for i
    using image_contents [of placed ?out i] wf ub sz secs
    by (simp add: covers_def sec_disjoint_def)
  from this [of 3] this [of 4] this [of 5] this [of 8] show ?thesis by simp
qed

subsection \<open>The whole program\<close>

text \<open>The linker after reading its files, placing the sections and building the symbol table.\<close>

definition linked :: "u32 \<Rightarrow> u8 list list \<Rightarrow> linker option" where
  "linked text_base files =
     (if files = [] then None
      else map_option (\<lambda>l. build_globals (assign_addresses text_base l)) (load_all (take MAX_OBJS files) linker0))"

lemma link_eq:
  "link text_base files =
     (case linked text_base files of
        None \<Rightarrow> (None, linker0)
      | Some l \<Rightarrow>
          if lk_errors l \<noteq> [] then (None, l)
          else if lk_errors (resolve_relocs l) \<noteq> [] then (None, resolve_relocs l)
          else (Some (fst (emit_output (resolve_relocs l))),
                (resolve_relocs l)\<lparr>lk_ub := snd (emit_output (resolve_relocs l))\<rparr>))"
  by (simp add: link_def linked_def Let_def split: option.split prod.split)

lemma linked_wf: "linked text_base files = Some l \<Longrightarrow> linker_wf l"
proof -
  have "linker_wf linker0" by (simp add: linker_wf_def linker0_def)
  then show "linked text_base files = Some l \<Longrightarrow> linker_wf l"
    by (auto simp: linked_def build_globals_wf assign_addresses_wf intro: load_all_wf split: if_splits)
qed

lemma resolve_reloc_undefined:
  assumes "oi < length (lk_objs l)" "reloc_symbol l (lk_objs l ! oi) (reloc_at l (oi, ri)) = None"
  shows "lk_errors (resolve_reloc oi ri l) \<noteq> []"
  using assms by (auto simp: resolve_reloc_def reloc_symbol_def Let_def split: if_splits option.split)

lemma resolve_list_undefined:
  assumes "(oi, ri) \<in> set ps" "oi < length (lk_objs l)" "reloc_target l (oi, ri) = None"
  shows "lk_errors (resolve_list ps l) \<noteq> []"
  using assms
proof (induction ps arbitrary: l)
  case (Cons p ps)
  let ?l = "resolve_reloc (fst p) (snd p) l"
  show ?case
  proof (cases "p = (oi, ri)")
    case True
    with Cons.prems have "lk_errors ?l \<noteq> []"
      by (simp add: resolve_reloc_undefined reloc_target_def)
    then show ?thesis using resolve_list_errors [where ps = ps and l = ?l] by (cases p) auto
  next
    case False
    note eqs = layout_obj(1) [of l ?l oi] reloc_layout(3) [of l ?l "(oi, ri)"]
    show ?thesis using Cons.IH [of ?l] Cons.prems False eqs by (cases p) auto
  qed
qed simp

text \<open>C28: The linker writes no output file when a relocation refers to a symbol that no object defines,
  or when two objects define the same global name: an image never holds an unresolved or an
  ambiguous reference.\<close>

theorem no_output_unresolved:
  assumes "linked text_base files = Some l"
    and "(\<exists>p \<in> set (reloc_indices (lk_objs l)). reloc_target l p = None) \<or>
         \<not> distinct (map gl_name (global_entries (all_syms (lk_objs l))))"
    and "list_all (\<lambda>(oi, ob, sy). length (sy_name sy) \<le> 27) (all_syms (lk_objs l))"
  shows "fst (link text_base files) = None"
proof (cases "lk_errors l = []")
  case True
  obtain l0 where l0: "load_all (take MAX_OBJS files) linker0 = Some l0"
      "l = build_globals (assign_addresses text_base l0)"
    using assms(1) by (auto simp: linked_def split: if_splits)
  define l1 where "l1 = assign_addresses text_base l0"
  have l: "l = build_globals l1" by (simp add: l0(2) l1_def)
  have l1: "lk_globs l1 = []" "lk_errors l1 = []" "lk_objs l = lk_objs l1"
    using load_all_fields [OF l0(1)]
    by (simp_all add: l l1_def assign_addresses_def linker0_def build_globals_def)
  have "lk_errors (build_from (all_syms (lk_objs l1)) l1) = []"
    using True by (simp add: l build_globals_def)
  then have "distinct (map gl_name (global_entries (all_syms (lk_objs l))))"
    using build_from_spec [of l1 "all_syms (lk_objs l1)"] assms(3) l1 by (simp add: Let_def)
  then obtain oi ri where p: "(oi, ri) \<in> set (reloc_indices (lk_objs l))" "reloc_target l (oi, ri) = None"
    using assms(2) by auto
  have "oi < length (lk_objs l)" using p(1) by (simp add: reloc_indices_mem)
  from resolve_list_undefined [OF p(1) this p(2)]
  have "lk_errors (resolve_relocs l) \<noteq> []" by (simp add: resolve_relocs_def)
  then show ?thesis by (simp add: link_eq assms(1))
qed (simp add: link_eq assms(1))


text \<open>The place in the image of a word of a section.\<close>

definition image_at :: "linker \<Rightarrow> site \<Rightarrow> nat" where
  "image_at l a = (case a of (oi, si, off) \<Rightarrow> unat (se_base (ob_secs (lk_objs l ! oi) ! si)) + off)"

lemma image_byte:
  assumes "link text_base files = (Some out, l')" "\<not> lk_ub l'" "linked text_base files = Some l"
    and "sorted_wrt sec_disjoint (all_secs l')" "byte_valid l b"
  shows "out ! image_at l b = byte_get (resolve_relocs l) b"
proof -
  let ?m = "resolve_relocs l"
  obtain oi si k where b: "b = (oi, si, k)" by (cases b)
  have res: "lk_errors ?m = []" "out = fst (emit_output ?m)" "\<not> snd (emit_output ?m)" "all_secs l' = all_secs ?m"
    using assms(1-3) by (auto simp: link_eq all_secs_def split: if_splits)
  have ub: "\<not> lk_ub ?m" using res(3) copy_all_ub by (force simp: emit_output_def)
  have wf: "list_all sec_wf (all_secs ?m)"
    using resolve_relocs_wf [OF linked_wf [OF assms(3)]] by (simp add: linker_wf_all_secs)
  have valid: "byte_valid l (oi, si, k)" "byte_valid ?m (oi, si, k)"
    using assms(5) by (simp_all only: b resolve_relocs_spec(2) [OF res(1) ub] byte_valid_rmw_all)
  define s where "s = ob_secs (lk_objs ?m ! oi) ! si"
  have "lk_objs ?m ! oi \<in> set (lk_objs ?m)" "s \<in> set (ob_secs (lk_objs ?m ! oi))"
    using valid(2) by (simp_all add: s_def)
  then have s1: "s \<in> set (all_secs ?m)" by (auto simp: all_secs_def)
  then have s2: "k < unat (se_size s)" "length (se_data s) = unat (se_size s)"
    using wf valid(2) by (simp_all add: list_all_iff sec_wf_def s_def sec_data_def)
  have base: "se_base (ob_secs (lk_objs l ! oi) ! si) = se_base s"
    using layout_sec_base [of l ?m oi si] valid(1) by (simp add: s_def)
  note copied = copy_all_spec [OF wf, of "(replicate (unat (out_size ?m)) 0, lk_ub ?m)"]
    copy_all_fits [OF wf, of "(replicate (unat (out_size ?m)) 0, lk_ub ?m)"]
  have fits: "unat (se_base s) + unat (se_size s) \<le> length out"
    using copied(2) res(2,3) s1 s2(1) by (auto simp: emit_output_def word_less_nat_alt)
  have "out ! (unat (se_base s) + k) = se_data s ! k"
    using copied(1) [of "unat (se_base s) + k"] copied(2) res(2,3,4) s1 s2(1) assms(4) fits
    by (auto simp: emit_output_def covers_def)
  then show ?thesis using base by (simp add: b image_at_def s_def sec_data_def)
qed

lemma image_word:
  assumes "link text_base files = (Some out, l')" "\<not> lk_ub l'" "linked text_base files = Some l"
    and "sorted_wrt sec_disjoint (all_secs l')" "site_valid l a"
  shows "get32 out (image_at l a) = site_get (resolve_relocs l) a"
proof -
  obtain oi si off where a: "a = (oi, si, off)" by (cases a)
  have "out ! (image_at l a + k) = sec_data (resolve_relocs l) oi si ! (off + k)" if "k < 4" for k
    using image_byte [OF assms(1-4), of "(oi, si, off + k)"] assms(5) that
    by (simp add: a image_at_def add.assoc)
  from this [of 0] this [of 1] this [of 2] this [of 3] show ?thesis by (simp add: a get32_def)
qed

text \<open>C3: A link that succeeds without leaving its arrays, of sections that do not overlap and with
  relocation sites that do not overlap: the word of the image at every relocation site is the word
  of the object file relocated once, according to the type of the relocation, to the address of its
  symbol plus the addend, with the other fields of the instruction kept; every byte of a section
  that is not one of the four bytes of a relocation site is in the image, unchanged, at the address
  chosen for its section; and every byte of the image outside all sections is zero.\<close>

theorem link_correct:
  assumes "link text_base files = (Some out, l')" "\<not> lk_ub l'" "linked text_base files = Some l"
    and "sorted_wrt sec_disjoint (all_secs l')"
    and "sorted_wrt (\<lambda>p q. site_apart (reloc_site l p) (reloc_site l q)) (reloc_indices (lk_objs l))"
  shows "(\<forall>p \<in> set (reloc_indices (lk_objs l)). \<exists>S. reloc_target l p = Some S \<and>
      relocated (rl_type (reloc_at l p)) S (reloc_addr l p) (site_get l (reloc_site l p)) (get32 out (image_at l (reloc_site l p)))) \<and>
    (\<forall>b. byte_valid l b \<and> (\<forall>p \<in> set (reloc_indices (lk_objs l)). byte_outside (reloc_site l p) b) \<longrightarrow>
      out ! image_at l b = byte_get l b) \<and>
    (\<forall>i < length out. (\<forall>s \<in> set (all_secs l'). \<not> covers s i) \<longrightarrow> out ! i = 0)"
proof -
  have res: "lk_errors (resolve_relocs l) = []" "\<not> snd (emit_output (resolve_relocs l))"
      "out = fst (emit_output (resolve_relocs l))" "all_secs l' = all_secs (resolve_relocs l)"
    using assms(1-3) by (auto simp: link_eq all_secs_def split: if_splits)
  then have ok: "lk_errors (resolve_relocs l) = []" "\<not> lk_ub (resolve_relocs l)"
    using copy_all_ub by (force simp: emit_output_def)+
  have "\<exists>S. reloc_target l p = Some S \<and>
      relocated (rl_type (reloc_at l p)) S (reloc_addr l p) (site_get l (reloc_site l p)) (get32 out (image_at l (reloc_site l p)))"
    if p: "p \<in> set (reloc_indices (lk_objs l))" for p
  proof -
    obtain oi ri where "p = (oi, ri)" by force
    with relocations_applied [OF ok assms(5), of oi ri] p show ?thesis
      using image_word [OF assms(1-4) resolve_relocs_valid(1) [OF ok p]] patch_relocated by force
  qed
  moreover have "out ! i = 0" if "i < length out" "\<forall>s \<in> set (all_secs l'). \<not> covers s i" for i
  proof -
    have wf: "linker_wf (resolve_relocs l)" using linked_wf [OF assms(3)] by (rule resolve_relocs_wf)
    then have "length out = unat (out_size (resolve_relocs l))"
      using copy_all_fits [of "all_secs (resolve_relocs l)"] res(2,3)
      by (force simp: emit_output_def linker_wf_all_secs)
    with image_contents [OF wf res(2) _ res(3)] assms(4) res(4) that show ?thesis by simp
  qed
  ultimately show ?thesis using image_byte [OF assms(1-4)] relocation_frame [OF ok] by simp
qed

text \<open>
  Two object files: the first holds one word, a MOVI with a relocation of type 2 to the symbol
  \<open>x\<close> it does not define; the second defines \<open>x\<close> at offset 4 of its 8 bytes.
\<close>

definition user_obj :: "u8 list" where
  "user_obj =
     [0x44, 0x4F, 0x42, 0x4A, 1, 0, 0, 0, 1, 0, 0, 0, 1, 0, 0, 0, 1, 0, 0, 0, 100, 0, 0, 0] @
     replicate 12 0 @ [4, 0, 0, 0] @ replicate 8 0 @
     [0x78] @ replicate 31 0 @ [0xFF, 0xFF, 0, 0] @
     [0, 0, 0, 0, 0, 0, 0, 0, 2, 0, 0, 0, 0, 0, 0, 0] @
     [0, 0, 0x20, 0x0F]"

definition defining_obj :: "u8 list" where
  "defining_obj =
     [0x44, 0x4F, 0x42, 0x4A, 1, 0, 0, 0, 1, 0, 0, 0, 1, 0, 0, 0, 0, 0, 0, 0, 84, 0, 0, 0] @
     replicate 12 0 @ [8, 0, 0, 0] @ replicate 8 0 @
     [0x78] @ replicate 27 0 @ [4, 0, 0, 0, 0, 0, 1, 0] @
     [1, 2, 3, 4, 5, 6, 7, 8]"

definition two_linked :: linker where
  "two_linked = \<lparr>lk_objs =
     [\<lparr>ob_secs = [\<lparr>se_hint = 0, se_size = 4, se_base = 0, se_data = [0, 0, 0x20, 0x0F]\<rparr>],
       ob_syms = [\<lparr>sy_name = [0x78], sy_value = 0, sy_sec = 0xFFFF, sy_global = 0\<rparr>],
       ob_rels = [\<lparr>rl_offset = 0, rl_sym = 0, rl_type = 2, rl_sec = 0, rl_addend = 0\<rparr>]\<rparr>,
      \<lparr>ob_secs = [\<lparr>se_hint = 0, se_size = 8, se_base = 4, se_data = [1, 2, 3, 4, 5, 6, 7, 8]\<rparr>],
       ob_syms = [\<lparr>sy_name = [0x78], sy_value = 4, sy_sec = 0, sy_global = 1\<rparr>], ob_rels = []\<rparr>],
     lk_globs = [\<lparr>gl_name = [0x78], gl_addr = 8, gl_obj = 1\<rparr>], lk_errors = [], lk_ub = False\<rparr>"

definition one_linked :: linker where
  "one_linked = two_linked\<lparr>lk_objs := [hd (lk_objs two_linked)], lk_globs := []\<rparr>"

lemma linked_one: "linked 0 [user_obj] = Some one_linked"
  by code_simp

lemma linked_two: "linked 0 [user_obj, defining_obj] = Some two_linked"
  by code_simp

lemma resolved_two: "lk_errors (resolve_relocs two_linked) = []"
  by code_simp
lemma emitted_two: "emit_output (resolve_relocs two_linked) = ([8, 0, 0x20, 0x0F, 1, 2, 3, 4, 5, 6, 7, 8], False)"
  by code_simp

lemma no_output_unresolved_witness: "fst (link 0 [user_obj]) = None"
proof (rule no_output_unresolved [OF linked_one])
  have "(0, 0) \<in> set (reloc_indices (lk_objs one_linked))" "reloc_target one_linked (0, 0) = None"
    by code_simp+
  then show "(\<exists>p \<in> set (reloc_indices (lk_objs one_linked)). reloc_target one_linked p = None) \<or>
      \<not> distinct (map gl_name (global_entries (all_syms (lk_objs one_linked))))" by blast
  show "list_all (\<lambda>(oi, ob, sy). length (sy_name sy) \<le> 27) (all_syms (lk_objs one_linked))"
    by code_simp
qed

lemma link_correct_witness:
  "\<exists>out. fst (link 0 [user_obj, defining_obj]) = Some out \<and> relocated 2 8 0 0x0F200000 (get32 out 0) \<and> out ! 9 = 6"
proof -
  let ?out = "[8, 0, 0x20, 0x0F, 1, 2, 3, 4, 5, 6, 7, 8]" and ?l' = "(resolve_relocs two_linked)\<lparr>lk_ub := False\<rparr>"
  have link: "link 0 [user_obj, defining_obj] = (Some ?out, ?l')"
    using resolved_two by (simp add: link_eq linked_two emitted_two) (simp add: two_linked_def)
  have "all_secs ?l' = all_secs (resolve_relocs two_linked)" by (simp add: all_secs_def)
  moreover have "sorted_wrt sec_disjoint (all_secs (resolve_relocs two_linked))" by code_simp
  ultimately have disj: "sorted_wrt sec_disjoint (all_secs ?l')" by simp
  have apart: "sorted_wrt (\<lambda>p q. site_apart (reloc_site two_linked p) (reloc_site two_linked q))
      (reloc_indices (lk_objs two_linked))" by code_simp
  have mem: "(0, 0) \<in> set (reloc_indices (lk_objs two_linked))" by code_simp
  have ub: "\<not> lk_ub ?l'" by simp
  note l = link_correct [OF link ub linked_two disj apart]
  from l [THEN conjunct1, THEN bspec, OF mem] have "relocated 2 8 0 0x0F200000 (get32 ?out 0)"
    by (simp add: two_linked_def reloc_target_def reloc_symbol_def reloc_addr_def reloc_site_def image_at_def
        sec_data_def get32_def le32_def)
  moreover have "byte_valid two_linked (1, 0, 5) \<and>
      (\<forall>p \<in> set (reloc_indices (lk_objs two_linked)). byte_outside (reloc_site two_linked p) (1, 0, 5))"
    by code_simp
  from l [THEN conjunct2, THEN conjunct1, rule_format, OF this] have "?out ! 9 = 6"
    by (simp add: two_linked_def image_at_def sec_data_def)
  ultimately show ?thesis using link by (simp add: exI)
qed

end
