(* ===== verification/Codegen.thy ===== *)
theory Codegen
  imports AsmProps Semantics Image Stepping
begin

text \<open>
  Where the three programs meet: the instruction words the assembler emits and the linker
  patches, as the emulator decodes and executes them.
\<close>

subsection \<open>Fields of an instruction word\<close>

lemma decode_bits:
  "bit (d_op (decode w)) n \<longleftrightarrow> n < 8 \<and> bit w (24 + n)"
  "bit (d_rd (decode w)) n \<longleftrightarrow> n < 4 \<and> bit w (20 + n)"
  "bit (d_rs1 (decode w)) n \<longleftrightarrow> n < 4 \<and> bit w (16 + n)"
  "bit (d_rs2 (decode w)) n \<longleftrightarrow> n < 4 \<and> bit w (12 + n)"
  "bit (d_imm16 (decode w)) n \<longleftrightarrow> n < 16 \<and> bit w n"
proof -
  have m4: "(0xF :: u32) = mask 4" by (simp add: mask_eq_exp_minus_1)
  show "bit (d_op (decode w)) n \<longleftrightarrow> n < 8 \<and> bit w (24 + n)"
    "bit (d_rd (decode w)) n \<longleftrightarrow> n < 4 \<and> bit w (20 + n)"
    "bit (d_rs1 (decode w)) n \<longleftrightarrow> n < 4 \<and> bit w (16 + n)"
    "bit (d_rs2 (decode w)) n \<longleftrightarrow> n < 4 \<and> bit w (12 + n)"
    "bit (d_imm16 (decode w)) n \<longleftrightarrow> n < 16 \<and> bit w n"
    by (auto simp: decode_def Let_def mask8_u32 mask16_u32 m4 bit_simps)
qed

lemma decode_simm: "d_simm (decode w) = scast (d_imm16 (decode w))"
  by (simp add: decode_def Let_def)

lemma decode_soff: "d_soff (decode w) = signed_take_bit 19 w"
proof -
  have m: "(0xFFFFF :: u32) = mask 20" "(0x80000 :: u32) = push_bit 19 1" "(0xFFF00000 :: u32) = push_bit 20 (mask 12)"
    by (simp_all add: mask_eq_exp_minus_1 push_bit_eq_mult)
  have "(w AND mask 20) AND push_bit 19 1 \<noteq> 0 \<longleftrightarrow> bit w 19"
    unfolding and_bit_eq_0 by (simp add: bit_simps)
  moreover have n19: "19 \<le> n \<Longrightarrow> n < 20 \<Longrightarrow> n = 19" for n :: nat by simp
  ultimately show ?thesis
    unfolding decode_def Let_def m decoded.simps
    by (intro bit_word_eqI) (auto simp: bit_simps min_def not_le dest!: n19 split: if_splits)
qed

lemma bit_enc:
  "bit (enc_op op) n \<longleftrightarrow> 24 \<le> n \<and> bit op (n - 24)"
  "r < 16 \<Longrightarrow> bit (enc_rd r) n \<longleftrightarrow> 20 \<le> n \<and> n < 24 \<and> bit r (n - 20)"
  "r < 16 \<Longrightarrow> bit (enc_rs1 r) n \<longleftrightarrow> 16 \<le> n \<and> n < 20 \<and> bit r (n - 16)"
  "r < 16 \<Longrightarrow> bit (enc_rs2 r) n \<longleftrightarrow> 12 \<le> n \<and> n < 16 \<and> bit r (n - 12)"
  "bit (enc_imm16 v) n \<longleftrightarrow> n < 16 \<and> bit v n"
  "bit (enc_off20 v) n \<longleftrightarrow> n < 20 \<and> bit v n"
proof -
  have small: "r < 16 \<Longrightarrow> bit r k \<Longrightarrow> k < 4" for r k :: nat
  proof (rule ccontr)
    assume a: "r < 16" "bit r k" "\<not> k < 4"
    then have "r div 2 ^ k = 0" using power_increasing [of 4 k "2::nat"] by simp
    then show False using a(2) by (simp add: bit_iff_odd)
  qed
  show "bit (enc_op op) n \<longleftrightarrow> 24 \<le> n \<and> bit op (n - 24)"
    by (auto simp: enc_op_def bit_simps dest: bit_imp_le_length)
  show "r < 16 \<Longrightarrow> bit (enc_rd r) n \<longleftrightarrow> 20 \<le> n \<and> n < 24 \<and> bit r (n - 20)"
    "r < 16 \<Longrightarrow> bit (enc_rs1 r) n \<longleftrightarrow> 16 \<le> n \<and> n < 20 \<and> bit r (n - 16)"
    "r < 16 \<Longrightarrow> bit (enc_rs2 r) n \<longleftrightarrow> 12 \<le> n \<and> n < 16 \<and> bit r (n - 12)"
    using small [of r "n - 20"] small [of r "n - 16"] small [of r "n - 12"]
    by (auto simp: enc_rd_def enc_rs1_def enc_rs2_def bit_simps)
  have m: "(0xFFFF :: u64) = mask 16" "(0xFFFFF :: u64) = mask 20" by (simp_all add: mask_eq_exp_minus_1)
  show "bit (enc_imm16 v) n \<longleftrightarrow> n < 16 \<and> bit v n" "bit (enc_off20 v) n \<longleftrightarrow> n < 20 \<and> bit v n"
    by (auto simp: enc_imm16_def enc_off20_def m bit_simps)
qed

lemma bit_reg: "r < 16 \<Longrightarrow> bit (of_nat r :: reg) n \<longleftrightarrow> n < 4 \<and> bit r n"
  by (auto simp: bit_simps)

text \<open>The three shapes of words: with two or three registers, with an immediate, with an offset.\<close>

lemma decode_r3:
  assumes "rd < 16" "r1 < 16" "r2 < 16"
  shows "d_op (decode (enc_op op OR enc_rd rd OR enc_rs1 r1 OR enc_rs2 r2)) = op"
    "d_rd (decode (enc_op op OR enc_rd rd OR enc_rs1 r1 OR enc_rs2 r2)) = of_nat rd"
    "d_rs1 (decode (enc_op op OR enc_rd rd OR enc_rs1 r1 OR enc_rs2 r2)) = of_nat r1"
    "d_rs2 (decode (enc_op op OR enc_rd rd OR enc_rs1 r1 OR enc_rs2 r2)) = of_nat r2"
  by (rule bit_word_eqI; auto simp: decode_bits bit_enc bit_or_iff bit_reg assms dest: bit_imp_le_length)+

lemma decode_imm:
  assumes "rd < 16" "r1 < 16"
  shows "d_op (decode (enc_op op OR enc_rd rd OR enc_rs1 r1 OR enc_imm16 v)) = op"
    "d_rd (decode (enc_op op OR enc_rd rd OR enc_rs1 r1 OR enc_imm16 v)) = of_nat rd"
    "d_rs1 (decode (enc_op op OR enc_rd rd OR enc_rs1 r1 OR enc_imm16 v)) = of_nat r1"
    "d_imm16 (decode (enc_op op OR enc_rd rd OR enc_rs1 r1 OR enc_imm16 v)) = ucast v"
  by (rule bit_word_eqI; auto simp: decode_bits bit_enc bit_or_iff bit_reg bit_simps assms dest: bit_imp_le_length)+

lemma decode_rd_imm:
  assumes "rd < 16"
  shows "d_op (decode (enc_op op OR enc_rd rd OR enc_imm16 v)) = op"
    "d_rd (decode (enc_op op OR enc_rd rd OR enc_imm16 v)) = of_nat rd"
    "d_imm16 (decode (enc_op op OR enc_rd rd OR enc_imm16 v)) = ucast v"
  by (rule bit_word_eqI; auto simp: decode_bits bit_enc bit_or_iff bit_reg bit_simps assms dest: bit_imp_le_length)+

text \<open>A word with a 20-bit offset field; the offset survives when it fits.\<close>

lemma soff_of_offset:
  assumes "- 524288 \<le> off" "off \<le> 524287"
    and "\<And>n. n < 20 \<Longrightarrow> bit w n \<longleftrightarrow> bit off n"
  shows "signed_take_bit 19 w = (word_of_int off :: u32)"
proof -
  have "signed_take_bit 19 off = off"
    using assms(1,2) by (intro signed_take_bit_int_eq_self) simp_all
  then have high: "19 \<le> n \<Longrightarrow> bit off n = bit off 19" for n
    using bit_signed_take_bit_iff [of 19 off n] by (simp add: min_def)
  show ?thesis
  proof (rule bit_word_eqI)
    fix n assume n: "n < LENGTH(32)"
    have "bit (signed_take_bit 19 w) n = bit off (min 19 n)"
      using n by (simp add: bit_signed_take_bit_iff assms(3))
    also have "\<dots> = bit off n" using high [of n] by (cases "n \<le> 19") (simp_all add: min_def)
    also have "\<dots> = bit (word_of_int off :: u32) n" using n by (simp add: bit_simps)
    finally show "bit (signed_take_bit 19 w) n = bit (word_of_int off :: u32) n" .
  qed
qed

lemma target_reached:
  assumes "- 524288 \<le> uint S - uint site" "uint S - uint site \<le> 524287"
    and "\<And>n. n < 20 \<Longrightarrow> bit w n \<longleftrightarrow> bit (uint S - uint site) n"
  shows "site + d_soff (decode w) = (S :: u32)"
proof -
  have "d_soff (decode w) = word_of_int (uint S - uint site)"
    unfolding decode_soff by (rule soff_of_offset [OF assms])
  then show ?thesis by (simp add: wi_hom_sub [symmetric])
qed

subsection \<open>Executing what the linker patched\<close>

lemma decode_patch:
  "ty \<in> {2, 3, 4, 5} \<Longrightarrow> d_op (decode (patch ty S site instr)) = d_op (decode instr)"
  "ty \<in> {2, 3, 4, 5} \<Longrightarrow> d_rd (decode (patch ty S site instr)) = d_rd (decode instr)"
  "d_imm16 (decode (patch 2 S site instr)) = ucast S"
  "d_imm16 (decode (patch 3 S site instr)) = ucast (drop_bit 16 S)"
  by (rule bit_word_eqI; auto simp: decode_bits bit_patch bit_simps)+

lemma patched_target:
  assumes "ty \<in> {4, 5}" "reloc_fits ty S site"
  shows "site + d_soff (decode (patch ty S site instr)) = S"
  using assms by (intro target_reached) (auto simp: reloc_fits_def bit_patch)

text \<open>C15: A jump, call or branch to another object file lands where it should: executed at its linked address,
  the word the linker patched transfers control to the symbol's address plus the addend; a jump
  also stores the return address it would have stored, and a branch that is not taken does
  nothing.\<close>

theorem linked_transfer_reaches_symbol:
  assumes "ty = RELOC_JUMP20 \<and> d_op (decode instr) = 0x0E \<or> ty = RELOC_BRANCH20 \<and> d_op (decode instr) = 0x0D"
    and "reloc_fits ty S site" "d = decode (patch ty S site instr)"
    and "ty = RELOC_BRANCH20 \<Longrightarrow> branch_taken (d_rd (decode instr)) (flags s) = Some taken"
    and "ty = RELOC_JUMP20 \<Longrightarrow> taken"
  shows "exec_instr site d s =
    (if taken then set_reg PC S (if ty = RELOC_JUMP20 then set_reg (d_rd (decode instr)) (regs s PC) s else s) else s)"
proof -
  have ty: "ty \<in> {4, 5}" using assms(1) by auto
  have f: "d_op d = d_op (decode instr)" "d_rd d = d_rd (decode instr)" "site + d_soff d = S"
    using decode_patch(1,2) [of ty S site instr] patched_target [OF ty assms(2)] ty assms(3) by auto
  show ?thesis using assms(1)
  proof
    assume "ty = RELOC_JUMP20 \<and> d_op (decode instr) = 0x0E"
    then show ?thesis using f assms(5) by (simp add: exec_instr_def exec_control_def Let_def word_le_def)
  next
    assume "ty = RELOC_BRANCH20 \<and> d_op (decode instr) = 0x0D"
    then show ?thesis using f assms(4) by (simp add: exec_instr_def exec_control_def Let_def word_le_def)
  qed
qed

lemma linked_transfer_reaches_symbol_witness:
  "regs (exec_instr 0x1000 (decode (patch 5 0x2000 0x1000 0x0EE00000)) zero_machine) PC = 0x2000"
  using linked_transfer_reaches_symbol [of 5 "0x0EE00000" "0x2000" "0x1000" _ zero_machine True]
  by (simp add: decode_def Let_def reloc_fits_def set_reg_def)

lemma linked_pair_words:
  assumes "d_op (decode lo) = 0x0F" "d_op (decode hi) = 0x13" "d_rd (decode lo) = rd" "d_rd (decode hi) = rd"
  shows "exec_instr pc (decode (patch 2 S site1 lo)) u = set_reg rd (ucast (ucast S :: u16)) u"
    "exec_instr pc (decode (patch 3 S site2 hi)) u =
      set_reg rd ((regs u rd AND 0xFFFF) OR push_bit 16 (ucast (ucast (drop_bit 16 S) :: u16))) u"
  using decode_patch(1,2) [of 2 S site1 lo] decode_patch(1,2) [of 3 S site2 hi] decode_patch(3,4) assms
  by (simp_all add: exec_instr_def exec_itype_def Let_def word_le_def)

text \<open>C22: The MOVI and MOVHI pair that the assembler emits for the address of a symbol, linked and run: with
  the two patched words in memory at PC, translation off, interrupts disabled, a register other than
  r15 and no quit typed between them, two iterations of the loop load the symbol's address plus the
  addend into the register, move PC behind the pair, and change no other register and no memory.\<close>

theorem linked_pair_loads_address:
  assumes "d_op (decode lo) = 0x0F" "d_op (decode hi) = 0x13" "d_rd (decode lo) = rd" "d_rd (decode hi) = rd"
    and "rd \<noteq> PC" "undisturbed s" "\<not> stopped (cpu_step s)"
    and "code_at (regs s PC) [patch 2 S site1 lo, patch 3 S site2 hi] s"
  shows "regs (run_steps 2 s) = (regs s)(rd := S, PC := regs s PC + 8) \<and> mem (run_steps 2 s) = mem s"
proof -
  have halves: "(ucast (ucast S :: u16) AND 0xFFFF) OR push_bit 16 (ucast (ucast (drop_bit 16 S) :: u16)) = S"
    unfolding mask16_u32 by (rule bit_word_eqI) (auto simp: bit_simps)
  from set_pair_runs [OF assms(6,7,8,5) linked_pair_words [OF assms(1-4)]] show ?thesis unfolding halves .
qed

lemma linked_pair_loads_address_witness:
  "let s = zero_machine\<lparr>mem := mem_write32 (mem_write32 (\<lambda>_. 0) 0 (patch 2 0x12345678 0 0x0F300000)) 4
      (patch 3 0x12345678 4 0x13300000)\<rparr>
   in regs (run_steps 2 s) = (\<lambda>_. 0)(3 := 0x12345678, PC := 8)"
proof -
  let ?p1 = "patch 2 0x12345678 0 0x0F300000" and ?p2 = "patch 3 0x12345678 4 0x13300000"
  let ?s = "zero_machine\<lparr>mem := mem_write32 (mem_write32 (\<lambda>_. 0) 0 ?p1) 4 ?p2\<rparr>"
  have d: "d_op (decode 0x0F300000) = 0x0F" "d_op (decode 0x13300000) = 0x13" "d_rd (decode 0x0F300000) = 3"
    "d_rd (decode 0x13300000) = 3" "(3 :: reg) \<noteq> PC"
    by (simp_all add: decode_def Let_def)
  have z: "regs ?s = (\<lambda>_. 0)" "stdin_q ?s = []" "undisturbed ?s" "status ?s = 0" "\<not> stopped ?s"
    by (simp_all add: zero_machine_def undisturbed_def stopped_def)
  have code: "code_at (regs ?s PC) [?p1, ?p2] ?s" unfolding z(1) by code_simp
  have "\<not> stopped (cpu_step ?s)"
    by (rule undisturbed_goes_on [OF z(3) code refl])
      (use z in \<open>simp_all add: linked_pair_words(1) [OF d(1-4)] set_reg_def fetched_def touch_def stopped_def\<close>)
  from linked_pair_loads_address [OF d z(3) this code] show ?thesis by (simp add: z(1) Let_def)
qed

subsection \<open>Executing what the assembler emits\<close>

lemma parse_register_less: "parse_register n = Some r \<Longrightarrow> r < 16"
  by (auto simp: parse_register_def Let_def split: if_splits)

lemma reg_ident: "parse_register n = Some r \<Longrightarrow> reg_operand (TIdent n # ts) s = (Some (r, ts), s)"
  by (simp add: reg_operand_def)

lemma comma_comma: "comma (TComma # ts) s = (Some ts, s)"
  by (simp add: comma_def)

lemma andthen_Some: "m s = (Some x, t) \<Longrightarrow> andthen m f s = f x t"
  by (simp add: andthen_def)

lemma assemble_instr:
  "find_opcode m = Some op \<Longrightarrow> assemble_line 2 (TIdent m # ts) s = snd (assemble_fmt 2 (as_org s) op ts s)"
  by (simp add: assemble_line_def is_label_def split: prod.split option.split)

text \<open>A three-register instruction assembles to one word that decodes to its opcode and registers, in the
  order they are written.\<close>

theorem r3_roundtrip:
  assumes "find_opcode m = Some op" "oe_fmt op = FMT_R3"
    and "parse_register a = Some rd" "parse_register b = Some r1" "parse_register c = Some r2"
  shows "\<exists>w. assemble_line 2 [TIdent m, TIdent a, TComma, TIdent b, TComma, TIdent c] s = emit_word w s \<and>
    d_op (decode w) = oe_opcode op \<and> d_rd (decode w) = of_nat rd \<and> d_rs1 (decode w) = of_nat r1 \<and>
    d_rs2 (decode w) = of_nat r2"
  using decode_r3 [of rd r1 r2 "oe_opcode op"] assms(3-5) [THEN parse_register_less]
  by (simp add: assemble_instr [OF assms(1)] assemble_fmt_eqs assms(2) rd_rs1_def andthen_Some
      reg_ident [OF assms(3)] reg_ident [OF assms(4)] reg_ident [OF assms(5)] comma_comma put_word_def)
    blast

lemma r3_roundtrip_witness:
  "\<exists>w. assemble_line 2 [TIdent ''sub'', TIdent ''r1'', TComma, TIdent ''SP'', TComma, TIdent ''r12''] (asm0 False) =
       emit_word w (asm0 False) \<and>
     d_op (decode w) = 1 \<and> d_rd (decode w) = 1 \<and> d_rs1 (decode w) = 13 \<and> d_rs2 (decode w) = 12"
proof -
  have "find_opcode ''sub'' = Some (entry ''SUB'' 1 FMT_R3 (- 1))"
    "parse_register ''r1'' = Some 1" "parse_register ''SP'' = Some 13" "parse_register ''r12'' = Some 12"
    by code_simp+
  from r3_roundtrip [OF this(1) _ this(2-4), of "asm0 False"] show ?thesis by (simp add: entry_def)
qed

text \<open>A signed immediate outside -32768 to 32767 is refused with an error; one inside is emitted and decodes
  to the same value, sign-extended.\<close>

theorem signed_imm_roundtrip:
  assumes "find_opcode m = Some op" "oe_fmt op = FMT_I_SIGNED" "parse_register a = Some rd" "parse_register b = Some r1"
    and "eval_expr 2 ts s = (Some (v, rest), t)"
  shows "\<exists>w. assemble_line 2 (TIdent m # TIdent a # TComma # TIdent b # TComma # ts) s =
      (if - 32768 \<le> sint v \<and> sint v \<le> 32767 then emit_word w t else asm_error t) \<and>
    d_op (decode w) = oe_opcode op \<and> d_rd (decode w) = of_nat rd \<and> d_rs1 (decode w) = of_nat r1 \<and>
    (- 32768 \<le> sint v \<and> sint v \<le> 32767 \<longrightarrow> sint (d_simm (decode w)) = sint v)"
proof -
  define w where "w = enc_op (oe_opcode op) OR enc_rd rd OR enc_rs1 r1 OR enc_imm16 v"
  note d = decode_imm [OF assms(3,4) [THEN parse_register_less], of "oe_opcode op" v, folded w_def]
  have "sint (d_simm (decode w)) = sint v" if "- 32768 \<le> sint v" "sint v \<le> 32767"
  proof -
    have s16: "sint (ucast v :: u16) = signed_take_bit 15 (sint v)"
      by (simp add: sint_uint unsigned_ucast_eq) (simp add: signed_take_bit_take_bit)
    also have "\<dots> = sint v" using that by (intro signed_take_bit_int_eq_self) simp_all
    finally have "sint (ucast v :: u16) = sint v" .
    moreover have "sint (scast (x :: u16) :: u32) = sint x" for x
      by (simp add: sint_up_scast is_up)
    ultimately show ?thesis by (simp add: decode_simm d(4))
  qed
  moreover have "assemble_line 2 (TIdent m # TIdent a # TComma # TIdent b # TComma # ts) s =
      (if - 32768 \<le> sint v \<and> sint v \<le> 32767 then emit_word w t else asm_error t)"
    by (simp add: assemble_instr [OF assms(1)] assemble_fmt_eqs assms(2) rd_rs1_imm_def rd_rs1_def andthen_Some
        reg_ident [OF assms(3)] reg_ident [OF assms(4)] comma_comma assms(5) put_word_def in_range_def check_def
        fail_def w_def) (simp add: andthen_def check_def fail_def put_word_def w_def)
  ultimately show ?thesis using d by blast
qed

lemma signed_imm_roundtrip_witness:
  "assemble_line 2 [TIdent ''ADDI'', TIdent ''r1'', TComma, TIdent ''r2'', TComma, TInt 40000] (asm0 False) =
     asm_error (asm0 False)"
proof -
  have "find_opcode ''ADDI'' = Some (entry ''ADDI'' 0x14 FMT_I_SIGNED (- 1))"
    "parse_register ''r1'' = Some 1" "parse_register ''r2'' = Some 2"
    by code_simp+
  from signed_imm_roundtrip [OF this(1) _ this(2,3), of "[TInt 40000]" "asm0 False" 40000 "[]" "asm0 False"]
  show ?thesis by (auto simp: entry_def eval_expr_def first_operand_def operand_def ret_def andthen_def)
qed

text \<open>The range is checked for ADDI but not for loads and stores.\<close>

lemma mem_offset_not_checked:
  assumes "find_opcode m = Some op" "oe_fmt op = FMT_MEM" "parse_register a = Some rd" "parse_register b = Some r1"
    and "eval_expr 2 ts s = (Some (v, TRBracket # rest), t)"
  shows "assemble_line 2 (TIdent m # TIdent a # TComma # TLBracket # TIdent b # TPlus # ts) s =
    emit_word (enc_op (oe_opcode op) OR enc_rd rd OR enc_rs1 r1 OR enc_imm16 v) t"
  by (simp add: assemble_instr [OF assms(1)] assemble_fmt_eqs assms(2) andthen_Some reg_ident [OF assms(3)]
      reg_ident [OF assms(4)] comma_comma parse_mem_operand_def mem_bracket_def mem_offset_def assms(5)
      rbracket_def ret_def put_word_def)

subsection \<open>Local branches\<close>

lemma branch_cond_less:
  assumes "find_opcode m = Some op" "oe_fmt op = FMT_BRANCH"
  shows "oe_cond op \<le> 10"
proof -
  have "list_all (\<lambda>e. oe_fmt e = FMT_BRANCH \<longrightarrow> oe_cond e \<le> 10) opcode_table"
    by (simp add: opcode_table_def entry_def)
  then show ?thesis using assms find_entry_same by (auto simp: find_opcode_def list_all_iff)
qed

lemma nat_bit_less_16: "r < 16 \<Longrightarrow> bit (r :: nat) k \<Longrightarrow> k < 4"
proof (rule ccontr)
  assume a: "r < 16" "bit r k" "\<not> k < 4"
  then have "r div 2 ^ k = 0" using power_increasing [of 4 k "2::nat"] by simp
  then show False using a(2) by (simp add: bit_iff_odd)
qed

lemma cond_bit: "c \<le> 10 \<Longrightarrow> bit (c :: u32) k \<Longrightarrow> k < 4"
  using nat_bit_less_16 [of "unat c" k] by (auto simp: word_le_nat_alt bit_unsigned_iff)

lemma decode_branch:
  assumes "c \<le> 10"
  shows "d_op (decode ((enc_op op OR push_bit 20 c) OR enc_off20 v)) = op"
    "d_rd (decode ((enc_op op OR push_bit 20 c) OR enc_off20 v)) = ucast c"
  by (rule bit_word_eqI;
      auto simp: decode_bits bit_enc bit_or_iff bit_simps dest: bit_imp_le_length cond_bit [OF assms])+

lemma decode_jump:
  assumes "rd < 16"
  shows "d_op (decode ((enc_op op OR enc_rd rd) OR enc_off20 v)) = op"
    "d_rd (decode ((enc_op op OR enc_rd rd) OR enc_off20 v)) = of_nat rd"
  by (rule bit_word_eqI;
      auto simp: decode_bits bit_enc bit_or_iff bit_reg bit_simps assms dest: bit_imp_le_length)+

text \<open>The offset of a local target, computed in 64 bits, against the 20-bit field.\<close>

lemma local_offset:
  assumes "uint (target :: u64) < 2 ^ 32" "off = target - ucast (pc :: u32)" "- 524288 \<le> sint off" "sint off \<le> 524287"
    and "\<And>n. n < 20 \<Longrightarrow> bit w n \<longleftrightarrow> bit off n"
  shows "pc + d_soff (decode w) = ucast target"
proof (rule target_reached)
  define D where "D = uint target - uint pc"
  have off: "off = word_of_int D"
    unfolding D_def assms(2) by (simp add: word_uint_eq_iff uint_word_ariths uint_ucast_u64 uint_word_of_int)
  have "uint target < 4294967296" using assms(1) by simp
  then have "- 4294967296 < D" "D < 4294967296"
    using uint_u32_bounds [of pc] uint_ge_0 [of target] unfolding D_def by linarith+
  have bits: "n < 20 \<Longrightarrow> bit off n \<longleftrightarrow> bit D n" for n unfolding off by (simp add: bit_simps)
  have "sint off = D" using \<open>- 4294967296 < D\<close> \<open>D < 4294967296\<close> unfolding off
    by (simp add: signed_of_int signed_take_bit_int_eq_self)
  moreover have "uint (ucast target :: u32) = uint target"
    using assms(1) by (simp add: unsigned_ucast_eq take_bit_int_eq_self)
  ultimately show "- 524288 \<le> uint (ucast target :: u32) - uint pc" "uint (ucast target :: u32) - uint pc \<le> 524287"
    "n < 20 \<Longrightarrow> bit w n \<longleftrightarrow> bit (uint (ucast target :: u32) - uint pc) n" for n
    using assms(3-5) bits by (simp_all flip: D_def)
qed

lemma pc_target_local:
  assumes "extern_ref 2 ts s = None" "eval_expr 2 ts s = (Some (target, rest), t)"
    and "as_errs (snd (pc_target 2 pc ty base ts s)) = as_errs t" "off = target - ucast pc"
  shows "- 524288 \<le> sint off \<and> sint off \<le> 524287 \<and>
    (\<exists>b. snd (pc_target 2 pc ty base ts s) = emit_word (base OR enc_off20 off) (asm_ub b t))"
  using assms
  by (cases "- 524288 \<le> sint off \<and> sint off \<le> 524287")
    (auto simp: pc_target_def andthen_def Let_def in_range_def check_def fail_def put_word_def emit_simps)

text \<open>C12: A branch assembled at the address it is executed at reaches its target: the word emitted for a branch to
  an address that is not external either is refused as out of range, or has the condition of the
  mnemonic and, when the condition holds, sets PC to exactly the address the expression denotes
  (a label or an absolute address), backwards or forwards.\<close>

theorem local_branch_reaches:
  assumes "find_opcode m = Some op" "oe_fmt op = FMT_BRANCH" "extern_ref 2 ts s = None"
    and "eval_expr 2 ts s = (Some (target, rest), t)" "uint target < 2 ^ 32" "ts \<noteq> []"
    and "as_errs (assemble_line 2 (TIdent m # ts) s) = as_errs t"
    and "branch_taken (ucast (oe_cond op)) (flags u) = Some taken"
  shows "\<exists>w b. assemble_line 2 (TIdent m # ts) s = emit_word w (asm_ub b t) \<and>
    exec_instr (as_org s) (decode w) u = (if taken then set_reg PC (ucast target) u else u)"
proof -
  let ?off = "target - ucast (as_org s)" and ?base = "enc_op 0x0D OR push_bit 20 (oe_cond op)"
  let ?w = "?base OR enc_off20 ?off"
  have c: "oe_cond op \<le> 10" by (rule branch_cond_less [OF assms(1,2)])
  have al: "assemble_line 2 (TIdent m # ts) s = snd (pc_target 2 (as_org s) 4 ?base ts s)"
    by (simp add: assemble_instr [OF assms(1)] assemble_fmt_eqs assms(2,6))
  obtain b where r: "- 524288 \<le> sint ?off" "sint ?off \<le> 524287"
      "assemble_line 2 (TIdent m # ts) s = emit_word ?w (asm_ub b t)"
    using pc_target_local [OF assms(3,4) _ refl, of "as_org s" 4 ?base] assms(7) unfolding al by blast
  have "as_org s + d_soff (decode ?w) = ucast target"
    by (rule local_offset [OF assms(5) refl r(1,2)])
      (auto simp: bit_or_iff bit_enc bit_simps)
  then have "exec_instr (as_org s) (decode ?w) u = (if taken then set_reg PC (ucast target) u else u)"
    using decode_branch [OF c, of 13 ?off] assms(8) by (simp add: exec_instr_def exec_control_def Let_def word_le_def)
  with r(3) show ?thesis by blast
qed

lemma local_branch_reaches_witness:
  "\<exists>w. exec_instr 0x1000 (decode w) zero_machine = set_reg PC 0x40 zero_machine \<and>
     (\<exists>t. assemble_line 2 [TIdent ''ba'', TInt 0x40] ((asm0 False)\<lparr>as_org := 0x1000\<rparr>) = emit_word w t)"
proof -
  let ?s = "(asm0 False)\<lparr>as_org := 0x1000\<rparr>"
  have op: "find_opcode ''ba'' = Some (entry ''BA'' 0x0D FMT_BRANCH 6)" by code_simp
  have ev: "eval_expr 2 [TInt 0x40] ?s = (Some (0x40, []), ?s)"
    by (simp add: eval_expr_def first_operand_def operand_def ret_def andthen_def)
  have ex: "extern_ref 2 [TInt 0x40] ?s = None" by (simp add: extern_ref_def asm0_def)
  have pc: "snd (pc_target 2 0x1000 4 (enc_op 0x0D OR push_bit 20 6) [TInt 0x40] ?s) =
      emit_word ((enc_op 0x0D OR push_bit 20 6) OR enc_off20 (0x40 - 0x1000)) (asm_ub False ?s)"
    by (simp add: pc_target_def ex ev andthen_def in_range_def check_def put_word_def ret_def)
  have "assemble_line 2 [TIdent ''ba'', TInt 0x40] ?s = snd (pc_target 2 0x1000 4 (enc_op 0x0D OR push_bit 20 6) [TInt 0x40] ?s)"
    by (simp add: assemble_instr [OF op] assemble_fmt_eqs entry_def)
  then have "as_errs (assemble_line 2 [TIdent ''ba'', TInt 0x40] ?s) = as_errs ?s"
    unfolding pc by (simp add: emit_word_def le32_bytes_def emit_byte_eval asm_ub_def asm0_def)
  from local_branch_reaches [OF op _ ex ev _ _ this, of zero_machine True]
  obtain w b where "assemble_line 2 [TIdent ''ba'', TInt 0x40] ?s = emit_word w (asm_ub b ?s)"
      "exec_instr 0x1000 (decode w) zero_machine = set_reg PC 0x40 zero_machine"
    by (auto simp: entry_def branch_taken_def Let_def)
  then show ?thesis by blast
qed

subsection \<open>Pseudo-instructions\<close>

text \<open>MOVI32 with a constant assembles to two words that, run from memory, put the low 32 bits of the
  constant into the register (not r15), move PC behind them and change nothing else.\<close>

theorem movi32_loads_constant:
  assumes "find_opcode m = Some op" "oe_fmt op = FMT_MOVI32" "parse_register a = Some rd" "rd \<noteq> 15"
    and "as_obj s \<Longrightarrow> peek_sym_ref s ts = None" "eval_expr 2 ts s = (Some (v, rest), t)"
  shows "\<exists>lo hi. assemble_line 2 (TIdent m # TIdent a # TComma # ts) s = emit_word hi (emit_word lo t) \<and>
    (\<forall>u. undisturbed u \<and> \<not> stopped (cpu_step u) \<and> code_at (regs u PC) [lo, hi] u \<longrightarrow>
      regs (run_steps 2 u) = (regs u)(of_nat rd := ucast v, PC := regs u PC + 8) \<and> mem (run_steps 2 u) = mem u)"
proof -
  let ?lo = "enc_op 0x0F OR enc_rd rd OR enc_imm16 v"
  let ?hi = "enc_op 0x13 OR enc_rd rd OR enc_imm16 (signed_drop_bit 16 v)"
  have al: "assemble_line 2 (TIdent m # TIdent a # TComma # ts) s = emit_word ?hi (emit_word ?lo t)"
    using assms(5) by (simp add: assemble_instr [OF assms(1)] assemble_fmt_eqs assms(2) movi32_def andthen_Some
        reg_ident [OF assms(3)] comma_comma movi32_val_def assms(6))
  note rd = parse_register_less [OF assms(3)]
  note lo = decode_rd_imm [OF rd, where op = "0x0F" and v = v]
  note hi = decode_rd_imm [OF rd, where op = "0x13" and v = "signed_drop_bit 16 v"]
  have halves: "(ucast (ucast v :: u16) AND 0xFFFF) OR push_bit 16 (ucast (ucast (signed_drop_bit 16 v) :: u16)) = (ucast v :: u32)"
    unfolding mask16_u32 by (rule bit_word_eqI) (auto simp: bit_simps)
  have ne: "(of_nat rd :: reg) \<noteq> PC" using rd assms(4) by (auto simp: word_unat_eq_iff unat_of_nat)
  have "exec_instr p (decode ?lo) u = set_reg (of_nat rd) (ucast (ucast v :: u16)) u" for p u
    using lo by (simp add: exec_instr_def exec_itype_def Let_def word_le_def)
  moreover have "exec_instr p (decode ?hi) u =
      set_reg (of_nat rd) ((regs u (of_nat rd) AND 0xFFFF) OR push_bit 16 (ucast (ucast (signed_drop_bit 16 v) :: u16))) u" for p u
    using hi by (simp add: exec_instr_def exec_itype_def Let_def word_le_def)
  ultimately have "regs (run_steps 2 u) = (regs u)(of_nat rd := ucast v, PC := regs u PC + 8) \<and> mem (run_steps 2 u) = mem u"
    if "undisturbed u" "\<not> stopped (cpu_step u)" "code_at (regs u PC) [?lo, ?hi] u" for u
    using set_pair_runs [OF that ne, where f = "\<lambda>y. (y AND 0xFFFF) OR push_bit 16 (ucast (ucast (signed_drop_bit 16 v) :: u16))"
        and x = "ucast (ucast v :: u16)"] unfolding halves by blast
  with al show ?thesis by blast
qed



lemma update_flags_add_frame [simp]:
  "regs (update_flags_add a b c s) = regs s" "mem (update_flags_add a b c s) = mem s"
  "satp (update_flags_add a b c s) = satp s" "status (update_flags_add a b c s) = status s"
  "halted (update_flags_add a b c s) = halted s" "exited (update_flags_add a b c s) = exited s"
  "stdin_q (update_flags_add a b c s) = stdin_q s"
  by (simp_all add: update_flags_add_def set_nzcv_def Let_def)









end
