(* ===== verification/Reassembly.thy ===== *)
theory Reassembly
  imports Disasm Codegen
begin

text \<open>
  The assembler reads what the disassembler prints: an instruction word without stray bits in its
  unused fields, printed and assembled at the same address, gives the same word.
\<close>

subsection \<open>Lexing printed text\<close>

text \<open>The rest of a line is split into the tokens \<open>ts\<close> and nothing else.\<close>

definition lexes :: "string \<Rightarrow> token list \<Rightarrow> bool" where
  "lexes l ts \<longleftrightarrow> (\<forall>n \<ge> length ts. tokens n l = (ts, False))"

lemma lexes_Nil: "lexes [] []"
  unfolding lexes_def
proof (intro allI impI)
  fix n show "tokens n [] = ([], False)" by (cases n) (simp_all add: next_token_def skip_ws_def)
qed

lemma lexes_step: "next_token l = (Some t, r, e) \<Longrightarrow> lexes r ts \<Longrightarrow> lexes l (t # ts)"
  unfolding lexes_def
proof (intro allI impI)
  fix n assume *: "next_token l = (Some t, r, e)" "\<forall>n \<ge> length ts. tokens n r = (ts, False)" "length (t # ts) \<le> n"
  then show "tokens n l = (t # ts, False)" by (cases n) simp_all
qed

lemma tokens_cong: "next_token l = next_token l' \<Longrightarrow> tokens n l = tokens n l'"
  by (cases n) simp_all

lemma lexes_skip: "lexes (skip_ws r) ts \<longleftrightarrow> lexes r ts"
proof -
  have "skip_ws (skip_ws r) = skip_ws r" by (induction r) (simp_all add: skip_ws_def)
  then have "next_token (skip_ws r) = next_token r" by (simp add: next_token_def)
  then show ?thesis unfolding lexes_def using tokens_cong by metis
qed

lemma lexes_space: "lexes r ts \<Longrightarrow> lexes (CHR '' '' # r) ts"
proof -
  have "skip_ws (CHR '' '' # r) = skip_ws r" by (simp add: skip_ws_def is_ws_def)
  then show "lexes r ts \<Longrightarrow> lexes (CHR '' '' # r) ts" by (metis lexes_skip)
qed

lemma lexes_punct:
  "lexes r ts \<Longrightarrow> lexes (CHR '','' # r) (TComma # ts)" "lexes r ts \<Longrightarrow> lexes (CHR ''['' # r) (TLBracket # ts)"
  "lexes r ts \<Longrightarrow> lexes (CHR '']'' # r) (TRBracket # ts)" "lexes r ts \<Longrightarrow> lexes (CHR ''+'' # r) (TPlus # ts)"
  "lexes r ts \<Longrightarrow> lexes (CHR ''-'' # r) (TMinus # ts)"
  by (rule lexes_step [where e = False]; simp add: next_token_def skip_ws_def is_ws_def)+

text \<open>Words: what follows must not continue them, nor make them a label.\<close>

definition word :: "string \<Rightarrow> bool" where
  "word w \<longleftrightarrow> w \<noteq> [] \<and> isalpha (hd w) \<and> list_all ident_char w \<and> length w \<le> STR_MAX"

definition ends :: "string \<Rightarrow> bool" where
  "ends r \<longleftrightarrow> (r \<noteq> [] \<longrightarrow> \<not> ident_char (hd r)) \<and> (skip_ws r \<noteq> [] \<longrightarrow> hd (skip_ws r) \<noteq> CHR '':'')"

lemma alpha_other:
  "isalpha c \<Longrightarrow> \<not> is_ws c \<and> \<not> isdigit c \<and>
     c \<notin> {NL, CHR '';'', CHR '','', CHR ''['', CHR '']'', CHR ''+'', CHR ''-'', CHR ''>'', QUOTE, CHR ''.''}"
  by (auto simp: isalpha_def isupper_def islower_def isdigit_def is_ws_def less_eq_char_def)

lemma split_word:
  assumes "list_all P w" "r \<noteq> [] \<longrightarrow> \<not> P (hd r)"
  shows "takeWhile P (w @ r) = w" "dropWhile P (w @ r) = r"
  using assms by (cases r; simp add: list_all_iff takeWhile_append2 dropWhile_append2)+

lemma lexes_word:
  assumes "word w" "ends r" "lexes r ts"
  shows "lexes (w @ r) (TIdent w # ts)"
proof -
  have "lex_ident (w @ r) = (w, r)"
    using split_word [of ident_char w r] assms(1,2) by (simp add: lex_ident_def word_def ends_def)
  then have lw: "lex_word (w @ r) = (Some (TIdent w), skip_ws r, False)"
    using assms(1,2) by (auto simp: lex_word_def word_def ends_def split: list.split)
  obtain c v where w: "w = c # v" "isalpha c" using assms(1) by (cases w) (auto simp: word_def)
  then have "skip_ws (w @ r) = w @ r" using alpha_other [of c] by (simp add: skip_ws_def)
  then have "next_token (w @ r) = lex_word (w @ r)" using w alpha_other [of c] by (simp add: next_token_def)
  then show ?thesis using assms(3) lw by (intro lexes_step [where r = "skip_ws r" and e = False]) (simp_all add: lexes_skip)
qed

subsection \<open>Numbers\<close>

lemma hex_digit_char:
  assumes "d < 16"
  shows "digit_val (hex_digit d) = d" "d < 10 \<Longrightarrow> isdigit (hex_digit d)" "hex_digit d = CHR ''0'' \<longleftrightarrow> d = 0"
proof -
  have "list_all (\<lambda>d. digit_val (hex_digit d) = d \<and> (d < 10 \<longrightarrow> isdigit (hex_digit d)) \<and>
      (hex_digit d = CHR ''0'' \<longleftrightarrow> d = 0)) [0..<16]"
    by code_simp
  with assms show "digit_val (hex_digit d) = d" "d < 10 \<Longrightarrow> isdigit (hex_digit d)" "hex_digit d = CHR ''0'' \<longleftrightarrow> d = 0"
    by (simp_all add: list_all_iff)
qed

abbreviation value_of :: "nat \<Rightarrow> string \<Rightarrow> int" where
  "value_of b s \<equiv> foldl (\<lambda>v c. int b * v + int (digit_val c)) 0 s"

lemma dec_digits: "list_all (\<lambda>c. isdigit c \<and> digit_val c < 10) (dec n)"
  by (induction n rule: dec.induct) (subst dec.simps, simp add: hex_digit_char)

lemma dec_value: "value_of 10 (dec n) = int n"
proof (induction n rule: dec.induct)
  case (1 n)
  show ?case
  proof (cases "n < 10")
    case False
    then have "value_of 10 (dec n) = 10 * value_of 10 (dec (n div 10)) + int (n mod 10)"
      by (subst dec.simps) (simp add: hex_digit_char)
    with 1 [OF False] show ?thesis by (simp add: zdiv_int zmod_int)
  qed (simp add: dec.simps hex_digit_char)
qed

lemma dec_hd: "dec n \<noteq> [] \<and> isdigit (hd (dec n)) \<and> (hd (dec n) = CHR ''0'' \<longrightarrow> n = 0)"
proof (induction n rule: dec.induct)
  case (1 n)
  show ?case
  proof (cases "n < 10")
    case False
    with 1 show ?thesis by (subst (1 2 3) dec.simps) auto
  qed (simp add: dec.simps hex_digit_char)
qed

lemma hex_digits: "list_all (\<lambda>c. digit_val c < 16) (hex n v)"
  by (induction n arbitrary: v) (simp_all add: hex_digit_char)

lemma hex_value: "value_of 16 (hex n v) = int (v mod 16 ^ n)"
proof (induction n arbitrary: v)
  case (Suc n)
  have "v mod 16 ^ Suc n = 16 * (v div 16 mod 16 ^ n) + v mod 16"
    using mod_mult2_eq [of v 16 "16 ^ n"] by simp
  then show ?case using Suc [of "v div 16"] by (simp add: hex_digit_char)
qed simp

lemma not_ident_digit: "\<not> ident_char c \<Longrightarrow> digit_val c = 255"
  by (simp add: ident_char_def isalpha_def digit_val_def)

lemma digits_printed:
  assumes "list_all (\<lambda>c. digit_val c < b) w" "r \<noteq> [] \<longrightarrow> \<not> ident_char (hd r)" "b \<le> 16"
  shows "digits b (w @ r) = (word_of_int (min (value_of b w) 0xFFFFFFFFFFFFFFFF), r)"
proof -
  have "r \<noteq> [] \<longrightarrow> \<not> digit_val (hd r) < b" using assms(2,3) not_ident_digit [of "hd r"] by auto
  from split_word [OF assms(1) this] show ?thesis by (simp add: digits_def)
qed

lemma strtoull_nonzero: "z \<noteq> CHR ''0'' \<Longrightarrow> strtoull (z # l) = digits 10 (z # l)"
  by (cases l; cases "tl l") auto

lemma strtoull_dec:
  assumes "int n < 2 ^ 64" "r \<noteq> [] \<longrightarrow> \<not> ident_char (hd r)"
  shows "strtoull (dec n @ r) = (of_nat n, r)"
proof (cases "n = 0")
  case True
  have "strtoull (CHR ''0'' # r) = digits 8 (CHR ''0'' # r)"
  proof (cases r)
    case (Cons x l)
    then have "x \<noteq> CHR ''x'' \<and> x \<noteq> CHR ''X''"
      using assms(2) by (auto simp: ident_char_def isalpha_def isupper_def islower_def less_eq_char_def)
    then show ?thesis using Cons by (cases l) auto
  qed simp
  moreover have "dec 0 = ''0''" by code_simp
  moreover have "digit_val (CHR ''0'') = 0" by code_simp
  ultimately show ?thesis using digits_printed [of 8 "''0''" r] assms(2) True by simp
next
  case False
  then obtain z l where d: "dec n = z # l" "z \<noteq> CHR ''0''" using dec_hd [of n] by (cases "dec n") auto
  then have "strtoull (dec n @ r) = digits 10 (dec n @ r)" by (simp add: strtoull_nonzero)
  also have "\<dots> = (word_of_int (min (value_of 10 (dec n)) 0xFFFFFFFFFFFFFFFF), r)"
    using dec_digits [of n] assms(2) by (intro digits_printed) (simp_all add: list_all_iff)
  also have "value_of 10 (dec n) = int n" by (rule dec_value)
  finally show ?thesis using assms(1) by simp
qed

lemma lexes_dec:
  assumes "int n < 2 ^ 64" "ends r" "lexes r ts"
  shows "lexes (dec n @ r) (TInt (of_nat n) # ts)"
proof (rule lexes_step [OF _ assms(3)])
  obtain c l where d: "dec n = c # l" "isdigit c" using dec_hd [of n] by (cases "dec n") auto
  then have "\<not> is_ws c" "c \<notin> {NL, CHR '';'', CHR '','', CHR ''['', CHR '']'', CHR ''+'', CHR ''-'', CHR ''>'', QUOTE, CHR ''.''}"
    by (auto simp: isdigit_def is_ws_def less_eq_char_def)
  then have "next_token (dec n @ r) = lex_number (dec n @ r)"
    using d by (simp add: next_token_def skip_ws_def)
  then show "next_token (dec n @ r) = (Some (TInt (of_nat n)), r, False)"
    using strtoull_dec [OF assms(1)] assms(2) by (simp add: lex_number_def ends_def)
qed

lemma lexes_hex:
  assumes "v < 16 ^ n" "0 < n" "n \<le> 8" "ends r" "lexes r ts"
  shows "lexes (CHR ''0'' # CHR ''x'' # hex n v @ r) (TInt (of_nat v) # ts)"
proof (rule lexes_step [OF _ assms(5)])
  obtain c l where h: "hex n v = c # l" using assms(2) by (cases "hex n v"; cases n) auto
  then have "digit_val c < 16" using hex_digits [of n v] by simp
  then have "strtoull (CHR ''0'' # CHR ''x'' # hex n v @ r) = digits 16 (hex n v @ r)" by (simp add: h)
  also have "\<dots> = (word_of_int (min (value_of 16 (hex n v)) 0xFFFFFFFFFFFFFFFF), r)"
    using assms(4) by (intro digits_printed hex_digits) (simp_all add: ends_def)
  also have "value_of 16 (hex n v) = int v" using assms(1) hex_value [of n v] by simp
  finally have "strtoull (CHR ''0'' # CHR ''x'' # hex n v @ r) = (of_nat v, r)"
    using assms(1,3) power_increasing [of n 8 "16 :: nat"] by simp
  then show "next_token (CHR ''0'' # CHR ''x'' # hex n v @ r) = (Some (TInt (of_nat v)), r, False)"
    by (simp add: next_token_def skip_ws_def is_ws_def isdigit_def less_eq_char_def lex_number_def)
qed

subsection \<open>Operands\<close>

lemma reg_name_ok: "word (reg_name r)" "parse_register (reg_name r) = Some (unat r)"
proof -
  have "list_all (\<lambda>i. word (reg_names ! i) \<and> parse_register (reg_names ! i) = Some i) [0..<16]" by code_simp
  moreover have "unat r < 16" using unsigned_less [of r] by simp
  ultimately show "word (reg_name r)" "parse_register (reg_name r) = Some (unat r)"
    by (auto simp: reg_name_def list_all_iff)
qed

text \<open>A mnemonic and the spaces behind it.\<close>

definition mnemonic :: "string \<Rightarrow> string \<Rightarrow> bool" where
  "mnemonic m mn \<longleftrightarrow> word mn \<and> (\<exists>k. m = mn @ replicate (Suc k) (CHR '' ''))"

text \<open>The text of an operand: no space in front, and no colon.\<close>

definition starts :: "string \<Rightarrow> bool" where
  "starts l \<longleftrightarrow> l \<noteq> [] \<and> \<not> is_ws (hd l) \<and> hd l \<noteq> CHR '':''"

lemma starts_word:
  assumes "word w"
  shows "starts (w @ r)"
proof -
  have colon: "\<not> isalpha (CHR '':'')" by code_simp
  show ?thesis using assms alpha_other [of "hd w"] colon by (cases w) (auto simp: word_def starts_def)
qed

lemma starts_reg: "starts (reg_name x @ r)"
  by (rule starts_word [OF reg_name_ok(1)])

lemma starts_hex: "starts (CHR ''0'' # r)"
  by (simp add: starts_def is_ws_def)

lemma skip_spaces: "starts l \<Longrightarrow> skip_ws (replicate k (CHR '' '') @ l) = l"
proof (induction k)
  case 0
  then show ?case by (cases l) (simp_all add: starts_def skip_ws_def)
qed (simp add: skip_ws_def is_ws_def)

lemma lexes_mnemonic:
  assumes "mnemonic m mn" "starts l" "lexes l ts"
  shows "lexes (m @ l) (TIdent mn # ts)"
proof -
  obtain k where m: "m = mn @ replicate (Suc k) (CHR '' '')" "word mn" using assms(1) by (auto simp: mnemonic_def)
  let ?r = "replicate (Suc k) (CHR '' '') @ l"
  have sk: "skip_ws ?r = l" by (rule skip_spaces [OF assms(2)])
  then have "ends ?r" using assms(2) unfolding ends_def sk
    by (simp add: starts_def ident_char_def isalpha_def isupper_def islower_def isdigit_def less_eq_char_def)
  moreover have "lexes ?r ts" using assms(3) lexes_skip [of ?r ts] sk by simp
  ultimately show ?thesis using lexes_word [OF m(2)] m(1) by simp
qed

lemma ends_punct: "ends []" "ends (CHR '','' # r)" "ends (CHR '']'' # r)" "ends (CHR ''+'' # r)"
  by (simp_all add: ends_def skip_ws_def is_ws_def ident_char_def isalpha_def isupper_def islower_def isdigit_def
      less_eq_char_def)

lemma lexes_reg: "ends r \<Longrightarrow> lexes r ts \<Longrightarrow> lexes (reg_name x @ r) (TIdent (reg_name x) # ts)"
  by (rule lexes_word [OF reg_name_ok(1)])

text \<open>The tokens of a signed number, and their value.\<close>

definition signed_tokens :: "int \<Rightarrow> token list" where
  "signed_tokens v = (if v < 0 then [TMinus, TInt (word_of_int (- v))] else [TInt (word_of_int v)])"

lemma length_signed: "length (signed_tokens v) \<le> 2"
  by (simp add: signed_tokens_def)

lemma lexes_signed:
  assumes "\<bar>v\<bar> < 2 ^ 64" "ends r" "lexes r ts"
  shows "lexes (dec_signed v @ r) (signed_tokens v @ ts)"
proof (cases "v < 0")
  case True
  then have "lexes (dec (nat (- v)) @ r) (TInt (of_nat (nat (- v))) # ts)" using assms by (intro lexes_dec) simp_all
  then show ?thesis using True by (simp add: dec_signed_def signed_tokens_def lexes_punct)
next
  case False
  then have "lexes (dec (nat v) @ r) (TInt (of_nat (nat v)) # ts)" using assms by (intro lexes_dec) simp_all
  then show ?thesis using False by (simp add: dec_signed_def signed_tokens_def)
qed

lemma lexes_line: "lexes l ts \<Longrightarrow> length ts \<le> 64 \<Longrightarrow> ts \<noteq> [] \<Longrightarrow> pass2_line l s = assemble_line 2 ts s"
  by (simp add: lexes_def pass2_line_def tokenize_line_def count_error_def Let_def)

lemma eval_signed:
  assumes "\<bar>v\<bar> < 2 ^ 62" "ts = [] \<or> (\<exists>t rest. ts = t # rest \<and> \<not> is_binop t)"
  shows "eval_expr pass (signed_tokens v @ ts) s = (Some (word_of_int v, ts), s)"
proof -
  have stop: "eval_ops pass ts w s = (Some (w, ts), s)" for w
    using assms(2) by (cases ts; cases "tl ts") (auto simp: ret_def)
  have "asm_ub False s = s" by (simp add: asm_ub_def)
  moreover have "(word_of_int (- v) :: u64) \<noteq> 0x8000000000000000" if "v < 0"
  proof
    assume "(word_of_int (- v) :: u64) = 0x8000000000000000"
    then have "uint (word_of_int (- v) :: u64) = 0x8000000000000000" by (simp only:) simp
    moreover have "uint (word_of_int (- v) :: u64) = - v"
      using assms(1) that by (simp only: uint_word_of_int) (simp add: take_bit_int_eq_self)
    ultimately show False using assms(1) by simp
  qed
  ultimately show ?thesis
    using stop by (simp add: eval_expr_def signed_tokens_def first_operand_def operand_def andthen_def ret_def Let_def)
qed

lemma eval_int: "ts = [] \<or> (\<exists>t rest. ts = t # rest \<and> \<not> is_binop t) \<Longrightarrow>
    eval_expr pass (TInt v # ts) s = (Some (v, ts), s)"
  by (cases ts; cases "tl ts")
    (auto simp: eval_expr_def first_operand_def operand_def andthen_def ret_def)

subsection \<open>Words from their fields\<close>

lemma bit_unat_reg: "bit (unat (r :: reg)) n \<longleftrightarrow> bit r n"
  by (simp add: bit_unsigned_iff)

lemma unat_reg_less: "unat (r :: reg) < 16"
  using unsigned_less [of r] by simp

lemma bit_fields:
  "bit (enc_op (d_op (decode w))) n \<longleftrightarrow> 24 \<le> n \<and> bit w n"
  "bit (enc_rd (unat (d_rd (decode w)))) n \<longleftrightarrow> 20 \<le> n \<and> n < 24 \<and> bit w n"
  "bit (enc_rs1 (unat (d_rs1 (decode w)))) n \<longleftrightarrow> 16 \<le> n \<and> n < 20 \<and> bit w n"
  "bit (enc_rs2 (unat (d_rs2 (decode w)))) n \<longleftrightarrow> 12 \<le> n \<and> n < 16 \<and> bit w n"
  using bit_imp_le_length [of w n]
  by (auto simp: bit_enc(1) bit_enc(2-4) [OF unat_reg_less] bit_unat_reg decode_bits)

lemma word_of_fields:
  "(\<And>n. bit x n \<longleftrightarrow> n < 24 \<and> bit w n) \<Longrightarrow> enc_op (d_op (decode w)) OR x = w"
  "(\<And>n. bit x n \<longleftrightarrow> n < 20 \<and> bit w n) \<Longrightarrow> enc_op (d_op (decode w)) OR enc_rd (unat (d_rd (decode w))) OR x = w"
  "(\<And>n. bit x n \<longleftrightarrow> n < 16 \<and> bit w n) \<Longrightarrow>
     enc_op (d_op (decode w)) OR enc_rd (unat (d_rd (decode w))) OR enc_rs1 (unat (d_rs1 (decode w))) OR x = w"
  by (rule bit_word_eqI, simp only: bit_or_iff bit_fields, linarith)+

lemma low_zero: "w AND mask k = 0 \<longleftrightarrow> (\<forall>n < k. \<not> bit (w :: u32) n)"
proof
  assume "w AND mask k = 0"
  then have zero: "\<not> bit (w AND mask k) n" for n by simp
  have "\<not> bit w n" if "n < k" for n
    using zero [of n] that bit_imp_le_length [of w n] by (auto simp: bit_simps)
  then show "\<forall>n < k. \<not> bit w n" by blast
next
  assume "\<forall>n < k. \<not> bit w n"
  then show "w AND mask k = 0" by (intro bit_word_eqI) (auto simp: bit_simps)
qed

lemma masks: "(0xFFF :: u32) = mask 12" "(0x7F :: u32) = mask 7" "(0xFFFFFF :: u32) = mask 24"
  by (simp_all add: mask_eq_exp_minus_1)

text \<open>A mnemonic of the assembler with its format and opcode.\<close>

definition prints :: "InstrFmt \<Rightarrow> u8 \<times> string \<Rightarrow> bool" where
  "prints f p =
     (let m = snd p; mn = takeWhile ident_char m; gap = dropWhile ident_char m
      in word mn \<and> gap \<noteq> [] \<and> list_all (\<lambda>c. c = CHR '' '') gap \<and>
         (case find_opcode mn of None \<Rightarrow> False | Some e \<Rightarrow> oe_fmt e = f \<and> oe_opcode e = fst p))"

lemma printsE:
  assumes "prints f (op, m)"
  obtains mn e where "mnemonic m mn" "find_opcode mn = Some e" "oe_fmt e = f" "oe_opcode e = op"
proof -
  let ?mn = "takeWhile ident_char m" and ?gap = "dropWhile ident_char m"
  have "?gap = replicate (length ?gap) (CHR '' '')"
    using assms by (simp add: prints_def Let_def list_all_iff replicate_length_same)
  moreover obtain k where "length ?gap = Suc k" using assms by (cases ?gap) (auto simp: prints_def Let_def)
  ultimately have "m = ?mn @ replicate (Suc k) (CHR '' '')" by (metis takeWhile_dropWhile_id)
  then have "mnemonic m ?mn" using assms by (auto simp: mnemonic_def prints_def Let_def)
  with assms that show thesis by (auto simp: prints_def Let_def split: option.splits)
qed

lemmas reg_tokens = reg_ident [OF reg_name_ok(2)]
lemma mnemonic_line:
  assumes "mnemonic m mn" "find_opcode mn = Some e" "starts l" "lexes l ts" "length ts < 64"
  shows "pass2_line (m @ l) s = snd (assemble_fmt 2 (as_org s) e ts s)"
  using lexes_mnemonic [OF assms(1,3,4)] assms(5) by (simp add: lexes_line assemble_instr [OF assms(2)])

lemma printed_line:
  assumes "prints f (op, m)" "lexes (reg_name x @ r) ts" "length ts < 64"
  obtains e where "oe_fmt e = f" "oe_opcode e = op"
    "pass2_line (m @ reg_name x @ r) s = snd (assemble_fmt 2 (as_org s) e ts s)"
proof -
  obtain mn e where e: "mnemonic m mn" "find_opcode mn = Some e" "oe_fmt e = f" "oe_opcode e = op"
    by (rule printsE [OF assms(1)])
  from mnemonic_line [OF e(1,2) starts_reg assms(2,3)] e(3,4) that show thesis by blast
qed

lemmas line_eval = assemble_fmt_eqs rd_rs1_def rd_rs1_imm_def rd_imm_def andthen_Some reg_tokens comma_comma put_word_def
  in_range_def check_def

lemma lexes_reg_end: "lexes (reg_name x) [TIdent (reg_name x)]"
  using lexes_reg [OF ends_punct(1) lexes_Nil] by simp

lemma lexes_number_end:
  "int n < 2 ^ 64 \<Longrightarrow> lexes (dec n) [TInt (of_nat n)]"
  "\<bar>v\<bar> < 2 ^ 64 \<Longrightarrow> lexes (dec_signed v) (signed_tokens v)"
  "k < 16 ^ n \<Longrightarrow> 0 < n \<Longrightarrow> n \<le> 8 \<Longrightarrow> lexes (CHR ''0'' # CHR ''x'' # hex n k) [TInt (of_nat k)]"
  using lexes_dec [OF _ ends_punct(1) lexes_Nil, of n] lexes_signed [OF _ ends_punct(1) lexes_Nil, of v]
    lexes_hex [OF _ _ _ ends_punct(1) lexes_Nil, of k n] by simp_all

lemmas lex_intros = lexes_punct lexes_reg ends_punct lexes_Nil lexes_reg_end lexes_number_end

text \<open>The lines of registers only.\<close>

lemma rrr_line:
  assumes "prints FMT_R3 (d_op (decode w), m)" "w AND 0xFFF = 0"
  shows "pass2_line (print_rrr m (decode w)) s = emit_word w s"
proof -
  let ?d = "decode w"
  have "lexes (reg_name (d_rd ?d) @ '','' @ reg_name (d_rs1 ?d) @ '','' @ reg_name (d_rs2 ?d))
     [TIdent (reg_name (d_rd ?d)), TComma, TIdent (reg_name (d_rs1 ?d)), TComma, TIdent (reg_name (d_rs2 ?d))]"
    by (auto intro!: lex_intros)
  from printed_line [OF assms(1) this] obtain e where e: "oe_fmt e = FMT_R3" "oe_opcode e = d_op ?d"
    "pass2_line (print_rrr m ?d) s = snd (assemble_fmt 2 (as_org s) e [TIdent (reg_name (d_rd ?d)), TComma,
      TIdent (reg_name (d_rs1 ?d)), TComma, TIdent (reg_name (d_rs2 ?d))] s)"
    unfolding print_rrr_def print_rr_def append_assoc by auto
  have "enc_op (d_op ?d) OR enc_rd (unat (d_rd ?d)) OR enc_rs1 (unat (d_rs1 ?d)) OR enc_rs2 (unat (d_rs2 ?d)) = w"
    using assms(2) unfolding masks low_zero
    by (intro word_of_fields(3)) (auto simp: bit_fields not_less [symmetric])
  then show ?thesis using e by (simp add: line_eval)
qed

lemma rr_line:
  assumes "prints FMT_R2 (d_op (decode w), m)" "d_imm16 (decode w) = 0"
  shows "pass2_line (print_rr m (decode w)) s = emit_word w s"
proof -
  let ?d = "decode w"
  have "lexes (reg_name (d_rd ?d) @ '','' @ reg_name (d_rs1 ?d))
     [TIdent (reg_name (d_rd ?d)), TComma, TIdent (reg_name (d_rs1 ?d))]"
    by (auto intro!: lex_intros)
  from printed_line [OF assms(1) this] obtain e where e: "oe_fmt e = FMT_R2" "oe_opcode e = d_op ?d"
    "pass2_line (print_rr m ?d) s = snd (assemble_fmt 2 (as_org s) e [TIdent (reg_name (d_rd ?d)), TComma,
      TIdent (reg_name (d_rs1 ?d))] s)"
    unfolding print_rr_def by auto
  have "\<not> bit (d_imm16 ?d) n" for n using assms(2) by simp
  then have "enc_op (d_op ?d) OR enc_rd (unat (d_rd ?d)) OR enc_rs1 (unat (d_rs1 ?d)) OR 0 = w"
    by (intro word_of_fields(3)) (auto simp: decode_bits)
  then show ?thesis using e by (simp add: line_eval)
qed

text \<open>The lines that end in a number.\<close>

lemma imm_word:
  "enc_op (d_op (decode w)) OR enc_rd (unat (d_rd (decode w))) OR enc_rs1 (unat (d_rs1 (decode w))) OR
     enc_imm16 (ucast (d_imm16 (decode w))) = w"
  by (rule word_of_fields(3)) (auto simp: bit_enc(5) decode_bits bit_simps)

lemma imm_line:
  assumes "prints f (d_op (decode w), m)" "lexes v (signed_tokens k)"
    and "f = FMT_I_SIGNED \<and> - 32768 \<le> k \<and> k \<le> 32767 \<or> f = FMT_I_UNSIGNED \<and> 0 \<le> k \<and> k \<le> 65535 \<or>
         f = FMT_I_SHIFT \<and> 0 \<le> k \<and> k \<le> 31"
    and "enc_imm16 (word_of_int k) = enc_imm16 (ucast (d_imm16 (decode w)))"
  shows "pass2_line (print_rr m (decode w) @ '','' @ v) s = emit_word w s"
proof -
  let ?d = "decode w"
  have "lexes (reg_name (d_rd ?d) @ '','' @ reg_name (d_rs1 ?d) @ '','' @ v)
     (TIdent (reg_name (d_rd ?d)) # TComma # TIdent (reg_name (d_rs1 ?d)) # TComma # signed_tokens k)"
    using assms(2) by (auto intro!: lex_intros)
  moreover have "length (TIdent (reg_name (d_rd ?d)) # TComma # TIdent (reg_name (d_rs1 ?d)) # TComma # signed_tokens k) < 64"
    using length_signed [of k] by simp
  ultimately obtain e where e: "oe_fmt e = f" "oe_opcode e = d_op ?d"
    "pass2_line (print_rr m ?d @ '','' @ v) s = snd (assemble_fmt 2 (as_org s) e
      (TIdent (reg_name (d_rd ?d)) # TComma # TIdent (reg_name (d_rs1 ?d)) # TComma # signed_tokens k) s)"
    using printed_line [OF assms(1)] unfolding print_rr_def append_assoc by blast
  have ev: "eval_expr 2 (signed_tokens k) s = (Some (word_of_int k, []), s)"
    using eval_signed [of k "[]" 2 s] assms(3) by auto
  have si: "sint (word_of_int k :: u64) = k"
    using assms(3) by (auto simp: signed_of_int signed_take_bit_int_eq_self)
  show ?thesis using e assms(3) ev si imm_word [of w] assms(4)
    by (auto simp: line_eval)
qed

lemma simm_sint: "sint (d_simm (decode w)) = sint (d_imm16 (decode w))"
  by (simp add: decode_simm sint_up_scast is_up)

lemma imm_enc:
  "enc_imm16 (word_of_int (sint (v :: u16))) = enc_imm16 (ucast v)"
  "enc_imm16 (word_of_int (uint v)) = enc_imm16 (ucast v)"
proof -
  have m: "(0xFFFF :: u64) = mask 16" by (simp add: mask_eq_exp_minus_1)
  show "enc_imm16 (word_of_int (sint v)) = enc_imm16 (ucast v)" "enc_imm16 (word_of_int (uint v)) = enc_imm16 (ucast v)"
    unfolding enc_imm16_def m by (rule bit_word_eqI; auto simp: bit_simps)+
qed

lemma simm_line:
  assumes "prints FMT_I_SIGNED (d_op (decode w), m)"
  shows "pass2_line (print_simm m (decode w)) s = emit_word w s"
proof -
  let ?k = "sint (d_imm16 (decode w))"
  have k: "- 32768 \<le> ?k" "?k \<le> 32767"
    using sint_greater_eq [of "d_imm16 (decode w)"] sint_less [of "d_imm16 (decode w)"] by simp_all
  then have "lexes (dec_signed ?k) (signed_tokens ?k)" by (intro lexes_number_end) simp
  from imm_line [OF assms this _ imm_enc(1)] k show ?thesis unfolding print_simm_def simm_sint by blast
qed

lemma tokens_of_nat: "[TInt (of_nat n)] = signed_tokens (int n)"
  by (simp add: signed_tokens_def)

lemma u16_less: "unat (v :: u16) < 65536" "uint v \<le> 65535"
proof -
  show "unat v < 65536" using unsigned_less [of v] by simp
  have "uint v < 2 ^ 16" using unsigned_less [of v] by simp
  then show "uint v \<le> 65535" by simp
qed

lemma uimm_line:
  assumes "prints FMT_I_UNSIGNED (d_op (decode w), m)"
  shows "pass2_line (print_uimm m (decode w)) s = emit_word w s"
proof -
  let ?v = "d_imm16 (decode w)"
  have "lexes (CHR ''0'' # CHR ''x'' # hex 4 (unat ?v)) (signed_tokens (int (unat ?v)))"
    unfolding tokens_of_nat [symmetric] using u16_less [of ?v] by (intro lexes_number_end) simp_all
  then have l: "lexes (CHR ''0'' # CHR ''x'' # hex 4 (unat ?v)) (signed_tokens (uint ?v))" by (simp only: uint_nat)
  have "0 \<le> uint ?v" by simp
  with imm_line [OF assms l _ imm_enc(2)] u16_less(2) [of ?v] show ?thesis
    unfolding print_uimm_def append_Cons append_Nil by blast
qed

lemma shi_line:
  assumes "prints FMT_I_SHIFT (d_op (decode w), m)" "d_imm16 (decode w) < 32"
  shows "pass2_line (print_shi m (decode w)) s = emit_word w s"
proof -
  let ?v = "d_imm16 (decode w)"
  have "(0x1F :: u16) = mask 5" by (simp add: mask_eq_exp_minus_1)
  then have m: "?v AND 0x1F = take_bit 5 ?v" by (simp only: take_bit_eq_mask)
  have l: "unat ?v < 32" using assms(2) by (simp add: word_less_nat_alt)
  then have v: "?v AND 0x1F = ?v"
    unfolding m by (simp add: word_unat_eq_iff unsigned_take_bit_eq take_bit_nat_eq_self)
  then have "lexes (dec (unat ?v)) (signed_tokens (int (unat ?v)))"
    unfolding tokens_of_nat [symmetric] using u16_less(2) [of ?v] by (intro lexes_number_end) simp
  then have lx: "lexes (dec (unat ?v)) (signed_tokens (uint ?v))" by (simp only: uint_nat)
  have "uint ?v \<le> 31" using l by (simp only: uint_nat)
  moreover have "0 \<le> uint ?v" by simp
  ultimately show ?thesis using imm_line [OF assms(1) lx _ imm_enc(2)] unfolding print_shi_def v by blast
qed

lemma d_shift_field: "d_shift (decode w) = unat (take_bit 5 (drop_bit 7 w))"
  by (simp add: decode_def Let_def take_bit_eq_mask mask_eq_exp_minus_1)

lemma bit_shift_field:
  "bit (push_bit 7 (ucast (of_nat (d_shift (decode w)) :: u64)) :: u32) n \<longleftrightarrow> 7 \<le> n \<and> n < 12 \<and> bit w n"
proof -
  have "ucast (of_nat (d_shift (decode w)) :: u64) = take_bit 5 (drop_bit 7 w)"
    by (rule bit_word_eqI) (simp add: d_shift_field bit_simps)
  then show ?thesis using bit_imp_le_length [of w n] by (auto simp: bit_simps)
qed

lemma sh_line:
  assumes "prints FMT_RSHIFT (d_op (decode w), m)" "d_rs2 (decode w) = 0" "w AND 0x7F = 0"
  shows "pass2_line (print_sh m (decode w)) s = emit_word w s"
proof -
  let ?d = "decode w"
  let ?k = "d_shift ?d"
  have k: "?k < 32"
    using take_bit_nat_less_exp [of 5 "unat (drop_bit 7 w)"] by (simp add: d_shift_field unsigned_take_bit_eq)
  have "lexes (reg_name (d_rd ?d) @ '','' @ reg_name (d_rs1 ?d) @ '','' @ dec ?k)
     [TIdent (reg_name (d_rd ?d)), TComma, TIdent (reg_name (d_rs1 ?d)), TComma, TInt (of_nat ?k)]"
    using k by (auto intro!: lex_intros)
  from printed_line [OF assms(1) this] obtain e where e: "oe_fmt e = FMT_RSHIFT" "oe_opcode e = d_op ?d"
    "pass2_line (print_sh m ?d) s = snd (assemble_fmt 2 (as_org s) e
      [TIdent (reg_name (d_rd ?d)), TComma, TIdent (reg_name (d_rs1 ?d)), TComma, TInt (of_nat ?k)] s)"
    unfolding print_sh_def print_rr_def by auto
  have si: "sint (of_nat ?k :: u64) = int ?k"
    using k by (simp add: signed_of_nat signed_take_bit_int_eq_self)
  have "\<not> bit (d_rs2 ?d) n" for n using assms(2) by simp
  then have "\<not> bit w n" if "12 \<le> n" "n < 16" for n
    using that bit_fields(4) [of w n] by (auto simp: bit_enc(4) [OF unat_reg_less] bit_unat_reg)
  then have low: "7 \<le> n \<and> n < 12" if "n < 16" "bit w n" for n
    using that assms(3) unfolding masks low_zero by (meson not_le)
  have "enc_op (d_op ?d) OR enc_rd (unat (d_rd ?d)) OR enc_rs1 (unat (d_rs1 ?d)) OR
      push_bit 7 (ucast (of_nat ?k :: u64)) = w"
    using low by (intro word_of_fields(3)) (auto simp: bit_shift_field)
  then show ?thesis using e k si eval_int [of "[]" 2 "of_nat ?k" s] by (simp add: line_eval)
qed

text \<open>Loads and stores.\<close>

lemma mem_line:
  assumes "prints FMT_MEM (d_op (decode w), m)"
  shows "pass2_line (print_mem m (decode w)) s = emit_word w s"
proof -
  let ?d = "decode w"
  let ?k = "sint (d_imm16 ?d)"
  let ?ts = "TIdent (reg_name (d_rd ?d)) # TComma # TLBracket # TIdent (reg_name (d_rs1 ?d)) # TPlus # signed_tokens ?k @ [TRBracket]"
  have k: "- 32768 \<le> ?k" "?k \<le> 32767"
    using sint_greater_eq [of "d_imm16 ?d"] sint_less [of "d_imm16 ?d"] by simp_all
  have "lexes (dec_signed ?k @ '']'') (signed_tokens ?k @ [TRBracket])"
    using k by (intro lexes_signed) (auto intro!: lex_intros)
  then have "lexes (reg_name (d_rd ?d) @ '',['' @ reg_name (d_rs1 ?d) @ ''+'' @ dec_signed ?k @ '']'') ?ts"
    by (auto intro!: lex_intros)
  moreover have "length ?ts < 64" using length_signed [of ?k] by simp
  ultimately obtain e where e: "oe_fmt e = FMT_MEM" "oe_opcode e = d_op ?d"
    "pass2_line (print_mem m ?d) s = snd (assemble_fmt 2 (as_org s) e ?ts s)"
    using printed_line [OF assms] unfolding print_mem_def simm_sint by blast
  have "eval_expr 2 (signed_tokens ?k @ [TRBracket]) s = (Some (word_of_int ?k, [TRBracket]), s)"
    using k by (intro eval_signed) (simp_all add: is_binop_def)
  then show ?thesis using e imm_word [of w] imm_enc(1) [of "d_imm16 ?d"]
    by (simp add: line_eval parse_mem_operand_def mem_bracket_def mem_offset_def rbracket_def ret_def)
qed

lemma idx_line:
  assumes "prints FMT_MEM_IDX (d_op (decode w), m)" "w AND 0xFFF = 0"
  shows "pass2_line (print_idx m (decode w)) s = emit_word w s"
proof -
  let ?d = "decode w"
  let ?ts = "[TIdent (reg_name (d_rd ?d)), TComma, TLBracket, TIdent (reg_name (d_rs1 ?d)), TPlus,
    TIdent (reg_name (d_rs2 ?d)), TRBracket]"
  have "lexes (reg_name (d_rd ?d) @ '',['' @ reg_name (d_rs1 ?d) @ ''+'' @ reg_name (d_rs2 ?d) @ '']'') ?ts"
    by (auto intro!: lex_intros)
  from printed_line [OF assms(1) this] obtain e where e: "oe_fmt e = FMT_MEM_IDX" "oe_opcode e = d_op ?d"
    "pass2_line (print_idx m ?d) s = snd (assemble_fmt 2 (as_org s) e ?ts s)"
    unfolding print_idx_def by auto
  have "enc_op (d_op ?d) OR enc_rd (unat (d_rd ?d)) OR enc_rs1 (unat (d_rs1 ?d)) OR enc_rs2 (unat (d_rs2 ?d)) = w"
    using assms(2) unfolding masks low_zero
    by (intro word_of_fields(3)) (auto simp: bit_fields not_less [symmetric])
  then show ?thesis using e
    by (simp add: line_eval indexed_def lbracket_def rbracket_def)
qed

text \<open>The constants of MOVI, MOVHI and LUI.\<close>

lemma ri_line:
  assumes "prints FMT_MOVI (d_op (decode w), m) \<or> prints FMT_MOVHI (d_op (decode w), m)" "d_rs1 (decode w) = 0"
  shows "pass2_line (print_ri m (decode w)) s = emit_word w s"
proof -
  let ?d = "decode w"
  let ?v = "d_imm16 ?d"
  let ?ts = "[TIdent (reg_name (d_rd ?d)), TComma, TInt (of_nat (unat ?v))]"
  have "lexes (CHR ''0'' # CHR ''x'' # hex 4 (unat ?v)) [TInt (of_nat (unat ?v))]"
    using u16_less [of ?v] by (intro lexes_number_end) simp_all
  then have lx: "lexes (reg_name (d_rd ?d) @ '',0x'' @ hex 4 (unat ?v)) ?ts"
    by (auto intro!: lex_intros)
  obtain f where f: "f = FMT_MOVI \<or> f = FMT_MOVHI" "prints f (d_op ?d, m)" using assms(1) by blast
  from printed_line [OF f(2) lx] obtain e where e: "oe_fmt e = f" "oe_opcode e = d_op ?d"
    "pass2_line (print_ri m ?d) s = snd (assemble_fmt 2 (as_org s) e ?ts s)"
    unfolding print_ri_def by auto
  have "\<not> bit (d_rs1 ?d) n" for n using assms(2) by simp
  then have "\<not> bit w n" if "16 \<le> n" "n < 20" for n
    using that bit_fields(3) [of w n] by (auto simp: bit_enc(3) [OF unat_reg_less] bit_unat_reg)
  then have "bit (enc_imm16 (ucast ?v)) n \<longleftrightarrow> n < 20 \<and> bit w n" for n
    by (cases "n < 16") (auto simp: bit_enc(5) decode_bits bit_simps)
  then have w: "enc_op (d_op ?d) OR enc_rd (unat (d_rd ?d)) OR enc_imm16 (ucast ?v) = w" by (rule word_of_fields(2))
  have si: "sint (ucast ?v :: u64) = uint ?v"
  proof -
    have "- 9223372036854775808 \<le> uint ?v" using uint_ge_0 [of ?v] by linarith
    then have "signed_take_bit 63 (uint ?v) = uint ?v"
      using u16_less(2) [of ?v] by (intro signed_take_bit_int_eq_self) simp_all
    then show ?thesis using u16_less(2) [of ?v] by (simp add: sint_uint unsigned_ucast_eq take_bit_int_eq_self)
  qed
  show ?thesis using e f(1) w si u16_less(2) [of ?v] eval_int [of "[]" 2 "ucast ?v" s]
    by (auto simp: line_eval)
qed

text \<open>Instructions without operands, and comparisons.\<close>

lemma none_line:
  assumes "word m" "find_opcode m = Some e" "oe_fmt e = FMT_NONE" "oe_opcode e = d_op (decode w)" "w AND 0xFFFFFF = 0"
  shows "pass2_line m s = emit_word w s"
proof -
  have "lexes m [TIdent m]" using lexes_word [OF assms(1) ends_punct(1) lexes_Nil] by simp
  then have "pass2_line m s = snd (assemble_fmt 2 (as_org s) e [] s)"
    by (simp add: lexes_line assemble_instr [OF assms(2)])
  moreover have "enc_op (d_op (decode w)) OR 0 = w"
    using assms(5) unfolding masks low_zero by (intro word_of_fields(1)) auto
  ultimately show ?thesis using assms(3,4) by (simp add: line_eval)
qed

lemma no_rd:
  assumes "d_rd (decode w) = 0" "20 \<le> n" "n < 24"
  shows "\<not> bit w n"
proof -
  have "\<not> bit (d_rd (decode w)) k" for k using assms(1) by simp
  then show ?thesis using assms(2,3) bit_fields(2) [of w n]
    by (auto simp: bit_enc(2) [OF unat_reg_less] bit_unat_reg)
qed

lemma cmp_line:
  assumes "prints FMT_CMP (d_op (decode w), m)" "d_rd (decode w) = 0" "w AND 0xFFF = 0"
  shows "pass2_line (m @ reg_name (d_rs1 (decode w)) @ '','' @ reg_name (d_rs2 (decode w))) s = emit_word w s"
proof -
  let ?d = "decode w"
  have "lexes (reg_name (d_rs1 ?d) @ '','' @ reg_name (d_rs2 ?d))
     [TIdent (reg_name (d_rs1 ?d)), TComma, TIdent (reg_name (d_rs2 ?d))]"
    by (auto intro!: lex_intros)
  from printed_line [OF assms(1) this] obtain e where e: "oe_fmt e = FMT_CMP" "oe_opcode e = d_op ?d"
    "pass2_line (m @ reg_name (d_rs1 ?d) @ '','' @ reg_name (d_rs2 ?d)) s = snd (assemble_fmt 2 (as_org s) e
      [TIdent (reg_name (d_rs1 ?d)), TComma, TIdent (reg_name (d_rs2 ?d))] s)"
    by auto
  have "bit (enc_rs1 (unat (d_rs1 ?d)) OR enc_rs2 (unat (d_rs2 ?d))) n \<longleftrightarrow> n < 24 \<and> bit w n" for n
    using no_rd [OF assms(2), of n] assms(3) unfolding masks low_zero bit_or_iff bit_fields
    by (cases "n < 12"; cases "n < 16"; cases "n < 20") auto
  then have "enc_op (d_op ?d) OR enc_rs1 (unat (d_rs1 ?d)) OR enc_rs2 (unat (d_rs2 ?d)) = w"
    unfolding or.assoc by (rule word_of_fields(1))
  then show ?thesis using e by (simp add: line_eval)
qed

lemma cmpi_line:
  assumes "prints FMT_CMPI (d_op (decode w), m)" "d_rd (decode w) = 0" "0 \<le> sint (d_imm16 (decode w))"
  shows "pass2_line (m @ reg_name (d_rs1 (decode w)) @ '','' @ dec_signed (sint (d_simm (decode w)))) s = emit_word w s"
proof -
  let ?d = "decode w"
  let ?k = "sint (d_imm16 ?d)"
  let ?ts = "TIdent (reg_name (d_rs1 ?d)) # TComma # signed_tokens ?k"
  have k: "?k \<le> 32767" using sint_less [of "d_imm16 ?d"] by simp
  have "lexes (dec_signed ?k) (signed_tokens ?k)" using k assms(3) by (intro lexes_number_end) simp
  then have "lexes (reg_name (d_rs1 ?d) @ '','' @ dec_signed ?k) ?ts" by (auto intro!: lex_intros)
  moreover have "length ?ts < 64" using length_signed [of ?k] by simp
  ultimately obtain e where e: "oe_fmt e = FMT_CMPI" "oe_opcode e = d_op ?d"
    "pass2_line (m @ reg_name (d_rs1 ?d) @ '','' @ dec_signed (sint (d_simm ?d))) s = snd (assemble_fmt 2 (as_org s) e ?ts s)"
    using printed_line [OF assms(1)] unfolding simm_sint by blast
  have ev: "eval_expr 2 (signed_tokens ?k) s = (Some (word_of_int ?k, []), s)"
    using eval_signed [of ?k "[]" 2 s] k assms(3) by simp
  have si: "sint (word_of_int ?k :: u64) = ?k"
    using k assms(3) by (simp only: signed_of_int) (simp add: signed_take_bit_int_eq_self)
  have "bit (enc_rs1 (unat (d_rs1 ?d)) OR enc_imm16 (ucast (d_imm16 ?d))) n \<longleftrightarrow> n < 24 \<and> bit w n" for n
    using no_rd [OF assms(2), of n] unfolding bit_or_iff bit_fields bit_enc(5)
    by (cases "n < 16"; cases "n < 20") (auto simp: decode_bits bit_simps)
  then have "enc_op (d_op ?d) OR enc_rs1 (unat (d_rs1 ?d)) OR enc_imm16 (word_of_int ?k) = w"
    unfolding or.assoc imm_enc(1) by (rule word_of_fields(1))
  then show ?thesis using e ev si k assms(3) by (simp add: line_eval)
qed

text \<open>Branches and jumps, whose target is printed as an address.\<close>

definition target_in_range :: "u32 \<Rightarrow> u32 \<Rightarrow> bool" where
  "target_in_range addr w \<longleftrightarrow>
     0 \<le> uint addr + sint (d_soff (decode w)) \<and> uint addr + sint (d_soff (decode w)) < 2 ^ 32"

lemma soff_sint: "sint (d_soff (decode w)) = signed_take_bit 19 (uint w)"
proof -
  have b: "bit (signed_take_bit 19 w) n \<longleftrightarrow> n < 32 \<and> bit w (min 19 n)" for n
    using bit_imp_le_length [of w "min 19 n"] by (auto simp: bit_simps)
  have "signed_take_bit 31 (uint (signed_take_bit 19 w)) = signed_take_bit 19 (uint w)"
    by (rule bit_eqI) (auto simp: b bit_simps min_def)
  then show ?thesis by (simp add: decode_soff sint_uint)
qed

lemma pc_target_printed:
  assumes "target_in_range addr w"
  shows "pc_target 2 addr ty base [TInt (of_nat (unat (addr + d_soff (decode w))))] s =
      (Some (), emit_word (base OR enc_off20 (word_of_int (sint (d_soff (decode w))))) s)"
    "bit (enc_off20 (word_of_int (sint (d_soff (decode w))))) n \<longleftrightarrow> n < 20 \<and> bit w n"
proof -
  let ?S = "sint (d_soff (decode w))" and ?t = "addr + d_soff (decode w)"
  show "bit (enc_off20 (word_of_int ?S)) n \<longleftrightarrow> n < 20 \<and> bit w n"
    by (cases "n = 19") (auto simp: bit_enc(6) soff_sint bit_simps min_def)
  have S: "- 524288 \<le> ?S" "?S \<le> 524287"
    using signed_take_bit_int_greater_eq_minus_exp [of 19 "uint w"] signed_take_bit_int_less_exp [of 19 "uint w"]
    unfolding soff_sint by simp_all
  have "uint ?t = (uint addr + ?S) mod 2 ^ 32"
  proof -
    have "?t = word_of_int (uint addr + ?S)" by simp
    then show ?thesis by (simp only: uint_word_of_int) (simp add: take_bit_eq_mod)
  qed
  then have t: "uint ?t = uint addr + ?S" using assms by (simp add: target_in_range_def)
  have off: "of_nat (unat ?t) - ucast addr = (word_of_int ?S :: u64)"
  proof -
    have "of_nat (unat ?t) - ucast addr = (word_of_int (uint ?t - uint addr) :: u64)" by simp
    then show ?thesis unfolding t by simp
  qed
  have si: "sint (word_of_int ?S :: u64) = ?S"
    using S by (simp only: signed_of_int) (simp add: signed_take_bit_int_eq_self)
  have wide: "sint (ucast a :: u64) = uint (a :: u32)" for a
  proof -
    have "signed_take_bit 63 (uint a) = uint a"
    proof (rule signed_take_bit_int_eq_self)
      have "- (2 ^ 63) \<le> (0 :: int)" by simp
      then show "- (2 ^ 63) \<le> uint a" using uint_ge_0 [of a] by (rule order_trans)
    qed (use uint_u32_bounds [of a] in simp)
    then show ?thesis using uint_u32_bounds [of a] by (simp add: sint_uint unsigned_ucast_eq take_bit_int_eq_self)
  qed
  have "sint (of_nat (unat ?t) :: u64) = uint ?t" using wide [of ?t] by simp
  then have ub: "asm_ub (sint (of_nat (unat ?t) :: u64) - sint (ucast addr :: u64) \<noteq> sint (word_of_int ?S :: u64)) s = s"
    using wide [of addr] t si by (simp add: asm_ub_def)
  have ex: "extern_ref 2 [TInt v] s = None" for v by (simp add: extern_ref_def peek_sym_ref_def)
  have ev: "eval_expr 2 [TInt v] s = (Some (v, []), s)" for v by (rule eval_int) simp
  have ok: "- 524288 \<le> ?S \<and> ?S \<le> 524287" using S by simp
  show "pc_target 2 addr ty base [TInt (of_nat (unat ?t))] s =
      (Some (), emit_word (base OR enc_off20 (word_of_int ?S)) s)"
    unfolding pc_target_def ex option.case andthen_Some [of "eval_expr 2 ts" for ts, OF ev] prod.case Let_def off in_range_def check_def si
    using ok ub [unfolded si] by (simp add: andthen_def put_word_def)
qed

lemma lexes_target:
  "lexes (CHR ''0'' # CHR ''x'' # hex 8 (unat (t :: u32))) [TInt (of_nat (unat t))]"
proof -
  have "unat t < 16 ^ 8" using unsigned_less [of t] by simp
  then show ?thesis by (intro lexes_number_end) simp_all
qed

lemma jump_line:
  assumes "prints FMT_JUMP (d_op (decode w), m)" "d_op (decode w) = 0x0E" "target_in_range (as_org s) w"
  shows "pass2_line (m @ reg_name (d_rd (decode w)) @ '',0x'' @ hex 8 (unat (as_org s + d_soff (decode w)))) s = emit_word w s"
proof -
  let ?d = "decode w"
  let ?t = "as_org s + d_soff ?d" and ?off = "enc_off20 (word_of_int (sint (d_soff (decode w))))"
  have lx: "lexes (reg_name (d_rd ?d) @ '',0x'' @ hex 8 (unat ?t)) [TIdent (reg_name (d_rd ?d)), TComma, TInt (of_nat (unat ?t))]"
    using lexes_target [of ?t] by (auto intro!: lex_intros)
  have len: "length [TIdent (reg_name (d_rd ?d)), TComma, TInt (of_nat (unat ?t))] < 64" by simp
  obtain e where e: "oe_fmt e = FMT_JUMP" "oe_opcode e = d_op ?d"
    "pass2_line (m @ reg_name (d_rd ?d) @ '',0x'' @ hex 8 (unat ?t)) s = snd (assemble_fmt 2 (as_org s) e
      [TIdent (reg_name (d_rd ?d)), TComma, TInt (of_nat (unat ?t))] s)"
    by (rule printed_line [OF assms(1) lx len])
  have "enc_op (d_op ?d) OR enc_rd (unat (d_rd ?d)) OR ?off = w"
    by (rule word_of_fields(2)) (rule pc_target_printed(2) [OF assms(3)])
  then show ?thesis using e(1,2) assms(2) pc_target_printed(1) [OF assms(3), of 5 "enc_op 0x0E OR enc_rd (unat (d_rd ?d))" s]
    unfolding e(3) by (simp only: assemble_fmt_eqs Let_def InstrFmt.case andthen_Some [OF reg_tokens] prod.case
      andthen_Some [OF comma_comma] snd_conv or.assoc)
qed

lemma branch_line:
  assumes "d_op (decode w) = 0x0D" "d_rd (decode w) < 11" "target_in_range (as_org s) w"
  shows "pass2_line (pad 4 (cond_names ! unat (d_rd (decode w))) @ '' 0x'' @ hex 8 (unat (as_org s + d_soff (decode w)))) s =
    emit_word w s"
proof -
  let ?d = "decode w"
  let ?i = "unat (d_rd ?d)"
  let ?t = "as_org s + d_soff ?d" and ?off = "enc_off20 (word_of_int (sint (d_soff (decode w))))"
  have tab: "list_all (\<lambda>i. word (cond_names ! i) \<and> length (cond_names ! i) \<le> 4 \<and>
      (case find_opcode (cond_names ! i) of None \<Rightarrow> False | Some e \<Rightarrow> oe_fmt e = FMT_BRANCH \<and> oe_cond e = of_nat i)) [0..<11]"
    by code_simp
  have "?i < 11" using assms(2) by (simp add: word_less_nat_alt)
  then have i: "word (cond_names ! ?i)" "case find_opcode (cond_names ! ?i) of None \<Rightarrow> False
      | Some e \<Rightarrow> oe_fmt e = FMT_BRANCH \<and> oe_cond e = of_nat ?i"
    using tab by (auto simp: list_all_iff)
  then obtain e where e: "find_opcode (cond_names ! ?i) = Some e" "oe_fmt e = FMT_BRANCH" "oe_cond e = of_nat ?i"
    by (cases "find_opcode (cond_names ! ?i)") auto
  have "mnemonic (pad 4 (cond_names ! ?i) @ '' '') (cond_names ! ?i)"
    using i(1) by (auto simp: mnemonic_def pad_def replicate_append_same intro: exI [of _ "4 - length (cond_names ! ?i)"])
  from mnemonic_line [OF this e(1) starts_hex lexes_target [of ?t], of s]
  have line: "pass2_line (pad 4 (cond_names ! ?i) @ '' 0x'' @ hex 8 (unat ?t)) s =
      snd (assemble_fmt 2 (as_org s) e [TInt (of_nat (unat ?t))] s)"
    by simp
  have "enc_op (d_op ?d) OR push_bit 20 (oe_cond e) OR ?off = w"
    unfolding e(3) enc_rd_def [symmetric] by (rule word_of_fields(2)) (rule pc_target_printed(2) [OF assms(3)])
  then show ?thesis using pc_target_printed(1) [OF assms(3), of 4 "enc_op 0x0D OR push_bit 20 (oe_cond e)" s] assms(1)
    unfolding line by (simp only: assemble_fmt_eqs Let_def e(2) InstrFmt.case list.distinct if_False snd_conv or.assoc)
qed

subsection \<open>Every instruction\<close>

text \<open>The mnemonics of each format string, with the opcodes they are printed for.\<close>

definition rrr_table :: "(u8 \<times> string) list" where
  "rrr_table =
     [(0x00, ''ADD  ''), (0x01, ''SUB  ''), (0x02, ''AND  ''), (0x03, ''OR   ''), (0x04, ''XOR  ''), (0x09, ''MUL  ''),
      (0x0A, ''DIV  ''), (0x22, ''MULH ''), (0x23, ''MULHU ''), (0x24, ''DIVU ''), (0x25, ''MOD  ''), (0x26, ''MODU ''),
      (0x2B, ''ADDC ''), (0x2C, ''SUBC ''), (0x2D, ''LSLR ''), (0x2E, ''LSRR ''), (0x2F, ''ASRR ''), (0x39, ''ROLR ''),
      (0x3A, ''RORR ''), (0x3D, ''CAS  '')]"

definition rr_table :: "(u8 \<times> string) list" where
  "rr_table = [(0x05, ''NOT  ''), (0x27, ''MOV  ''), (0x2A, ''CALLR '')]"

definition sh_table :: "(u8 \<times> string) list" where
  "sh_table = [(0x06, ''LSL  ''), (0x07, ''LSR  ''), (0x08, ''ASR  ''), (0x3B, ''ROLI ''), (0x3C, ''RORI '')]"

definition mem_table :: "(u8 \<times> string) list" where
  "mem_table =
     [(0x0B, ''LW   ''), (0x0C, ''SW   ''), (0x1C, ''LH   ''), (0x1D, ''LHU  ''), (0x1E, ''LB   ''), (0x1F, ''LBU  ''),
      (0x20, ''SH   ''), (0x21, ''SB   '')]"

definition simm_table :: "(u8 \<times> string) list" where
  "simm_table = [(0x14, ''ADDI ''), (0x15, ''SUBI '')]"

definition uimm_table :: "(u8 \<times> string) list" where
  "uimm_table = [(0x16, ''ANDI ''), (0x17, ''ORI  ''), (0x18, ''XORI '')]"

definition shi_table :: "(u8 \<times> string) list" where
  "shi_table = [(0x19, ''LSLI ''), (0x1A, ''LSRI ''), (0x1B, ''ASRI '')]"

definition ri_table :: "(u8 \<times> string) list" where
  "ri_table = [(0x0F, ''MOVI ''), (0x13, ''MOVHI ''), (0x38, ''LUI  '')]"

definition idx_table :: "(u8 \<times> string) list" where
  "idx_table =
     [(0x30, ''LWX  ''), (0x31, ''LBX  ''), (0x32, ''LBUX ''), (0x33, ''SWX  ''), (0x34, ''SBX  ''), (0x35, ''LHX  ''),
      (0x36, ''LHUX ''), (0x37, ''SHX  '')]"

definition none_table :: "(u8 \<times> string) list" where
  "none_table = [(0x10, ''SYSCALL''), (0x11, ''SYSRET''), (0x12, ''HALT''), (0x3E, ''SFENCE'')]"

text \<open>The assembler knows each of them under the same opcode.\<close>

lemma tables_print:
  "list_all (prints FMT_R3) rrr_table" "list_all (prints FMT_R2) rr_table" "list_all (prints FMT_RSHIFT) sh_table"
  "list_all (prints FMT_MEM) mem_table" "list_all (prints FMT_I_SIGNED) simm_table"
  "list_all (prints FMT_I_UNSIGNED) uimm_table" "list_all (prints FMT_I_SHIFT) shi_table"
  "list_all (\<lambda>p. prints FMT_MOVI p \<or> prints FMT_MOVHI p) ri_table" "list_all (prints FMT_MEM_IDX) idx_table"
  "prints FMT_CMP (0x28, ''CMP  '')" "prints FMT_CMPI (0x29, ''CMPI '')" "prints FMT_JUMP (0x0E, ''JMP  '')"
  by code_simp+

lemma none_print:
  "list_all (\<lambda>p. word (snd p) \<and> (case find_opcode (snd p) of None \<Rightarrow> False
     | Some e \<Rightarrow> oe_fmt e = FMT_NONE \<and> oe_opcode e = fst p)) none_table"
  by code_simp

lemma disasm_tables:
  "(op, m) \<in> set rrr_table \<Longrightarrow> disasm_op op d t w = print_rrr m d"
  "(op, m) \<in> set rr_table \<Longrightarrow> disasm_op op d t w = print_rr m d"
  "(op, m) \<in> set sh_table \<Longrightarrow> disasm_op op d t w = print_sh m d"
  "(op, m) \<in> set mem_table \<Longrightarrow> disasm_op op d t w = print_mem m d"
  "(op, m) \<in> set simm_table \<Longrightarrow> disasm_op op d t w = print_simm m d"
  "(op, m) \<in> set uimm_table \<Longrightarrow> disasm_op op d t w = print_uimm m d"
  "(op, m) \<in> set shi_table \<Longrightarrow> disasm_op op d t w = print_shi m d"
  "(op, m) \<in> set ri_table \<Longrightarrow> disasm_op op d t w = print_ri m d"
  "(op, m) \<in> set idx_table \<Longrightarrow> disasm_op op d t w = print_idx m d"
  "(op, m) \<in> set none_table \<Longrightarrow> disasm_op op d t w = m"
  unfolding rrr_table_def rr_table_def sh_table_def mem_table_def simm_table_def uimm_table_def shi_table_def
    ri_table_def idx_table_def none_table_def
  by (simp_all only: list.set insert_iff empty_iff prod.inject simp_thms) (elim disjE conjE; hypsubst; simp add: disasm_op_def)+

definition ops :: "(u8 \<times> string) list \<Rightarrow> u8 set" where
  "ops tab = fst ` set tab"

text \<open>
  The instruction words the assembler can express: nothing in the fields the instruction does not
  use, an immediate shift below 32, a known branch condition, a target that does not wrap around
  the address space. CMPI is left out above 0x7FFF, where the disassembler prints a negative
  number for the immediate the processor zero-extends, and KRET, which the assembler lacks.
\<close>

definition reassembles :: "u32 \<Rightarrow> u32 \<Rightarrow> bool" where
  "reassembles addr w \<longleftrightarrow>
     (let d = decode w; op = d_op d
      in op \<in> ops mem_table \<union> ops simm_table \<union> ops uimm_table \<or>
         op \<in> ops rrr_table \<union> ops idx_table \<and> w AND 0xFFF = 0 \<or>
         op \<in> ops rr_table \<and> d_imm16 d = 0 \<or>
         op \<in> ops sh_table \<and> d_rs2 d = 0 \<and> w AND 0x7F = 0 \<or>
         op \<in> ops shi_table \<and> d_imm16 d < 32 \<or>
         op \<in> ops ri_table \<and> d_rs1 d = 0 \<or>
         op \<in> ops none_table \<and> w AND 0xFFFFFF = 0 \<or>
         op = 0x0D \<and> d_rd d < 11 \<and> target_in_range addr w \<or>
         op = 0x0E \<and> target_in_range addr w \<or>
         op = 0x28 \<and> d_rd d = 0 \<and> w AND 0xFFF = 0 \<or>
         op = 0x29 \<and> d_rd d = 0 \<and> 0 \<le> sint (d_imm16 d))"

lemma table_entry:
  assumes "op \<in> ops tab" "list_all P tab"
  obtains m where "(op, m) \<in> set tab" "P (op, m)"
  using assms by (auto simp: ops_def list_all_iff)

lemma operands_reassemble:
  assumes "op = d_op (decode w)" "op \<in> ops rrr_table \<union> ops idx_table \<and> w AND 0xFFF = 0 \<or> op \<in> ops rr_table \<and> d_imm16 (decode w) = 0 \<or>
    op \<in> ops mem_table"
  shows "pass2_line (disasm a w) s = emit_word w s"
  using assms(2)
proof (elim disjE conjE UnE)
  assume "op \<in> ops rrr_table" "w AND 0xFFF = 0"
  then show ?thesis using assms(1)
    by (auto elim!: table_entry [OF _ tables_print(1)] simp: disasm_def Let_def disasm_tables(1) intro: rrr_line)
next
  assume "op \<in> ops idx_table" "w AND 0xFFF = 0"
  then show ?thesis using assms(1)
    by (auto elim!: table_entry [OF _ tables_print(9)] simp: disasm_def Let_def disasm_tables(9) intro: idx_line)
next
  assume "op \<in> ops rr_table" "d_imm16 (decode w) = 0"
  then show ?thesis using assms(1)
    by (auto elim!: table_entry [OF _ tables_print(2)] simp: disasm_def Let_def disasm_tables(2) intro: rr_line)
next
  assume "op \<in> ops mem_table"
  then show ?thesis using assms(1)
    by (auto elim!: table_entry [OF _ tables_print(4)] simp: disasm_def Let_def disasm_tables(4) intro: mem_line)
qed

lemma immediates_reassemble:
  assumes "op = d_op (decode w)" "op \<in> ops simm_table \<or> op \<in> ops uimm_table \<or> op \<in> ops shi_table \<and> d_imm16 (decode w) < 32 \<or>
    op \<in> ops sh_table \<and> d_rs2 (decode w) = 0 \<and> w AND 0x7F = 0 \<or> op \<in> ops ri_table \<and> d_rs1 (decode w) = 0"
  shows "pass2_line (disasm a w) s = emit_word w s"
  using assms(2)
proof (elim disjE conjE)
  assume "op \<in> ops simm_table"
  then show ?thesis using assms(1)
    by (auto elim!: table_entry [OF _ tables_print(5)] simp: disasm_def Let_def disasm_tables(5) intro: simm_line)
next
  assume "op \<in> ops uimm_table"
  then show ?thesis using assms(1)
    by (auto elim!: table_entry [OF _ tables_print(6)] simp: disasm_def Let_def disasm_tables(6) intro: uimm_line)
next
  assume "op \<in> ops shi_table" "d_imm16 (decode w) < 32"
  then show ?thesis using assms(1)
    by (auto elim!: table_entry [OF _ tables_print(7)] simp: disasm_def Let_def disasm_tables(7) intro: shi_line)
next
  assume "op \<in> ops sh_table" "d_rs2 (decode w) = 0" "w AND 0x7F = 0"
  then show ?thesis using assms(1)
    by (auto elim!: table_entry [OF _ tables_print(3)] simp: disasm_def Let_def disasm_tables(3) intro: sh_line)
next
  assume "op \<in> ops ri_table" "d_rs1 (decode w) = 0"
  then show ?thesis using assms(1)
    by (auto elim!: table_entry [OF _ tables_print(8)] simp: disasm_def Let_def disasm_tables(8) intro: ri_line)
qed

lemma none_reassemble:
  assumes "d_op (decode w) \<in> ops none_table" "w AND 0xFFFFFF = 0"
  shows "pass2_line (disasm a w) s = emit_word w s"
  using assms(1) none_print
proof (rule table_entry)
  fix m assume m: "(d_op (decode w), m) \<in> set none_table"
    "word (snd (d_op (decode w), m)) \<and> (case find_opcode (snd (d_op (decode w), m)) of None \<Rightarrow> False
       | Some e \<Rightarrow> oe_fmt e = FMT_NONE \<and> oe_opcode e = fst (d_op (decode w), m))"
  then obtain e where "word m" "find_opcode m = Some e" "oe_fmt e = FMT_NONE" "oe_opcode e = d_op (decode w)"
    by (auto split: option.splits)
  then show ?thesis using none_line assms(2) m(1) by (simp add: disasm_def Let_def disasm_tables(10))
qed

lemma disasm_others:
  "disasm_op 0x0D d t w = (if d_rd d < 11 then pad 4 (cond_names ! unat (d_rd d)) @ '' 0x'' @ hex 8 (unat t)
     else ''B??  (illegal cond '' @ dec (unat (d_rd d)) @ '')'')"
  "disasm_op 0x0E d t w = ''JMP  '' @ reg_name (d_rd d) @ '',0x'' @ hex 8 (unat t)"
  "disasm_op 0x28 d t w = ''CMP  '' @ reg_name (d_rs1 d) @ '','' @ reg_name (d_rs2 d)"
  "disasm_op 0x29 d t w = ''CMPI '' @ reg_name (d_rs1 d) @ '','' @ dec_signed (sint (d_simm d))"
  by (simp_all add: disasm_op_def)

lemma special_reassemble:
  assumes "op = d_op (decode w)" "op = 0x0D \<and> d_rd (decode w) < 11 \<and> target_in_range (as_org s) w \<or>
    op = 0x0E \<and> target_in_range (as_org s) w \<or> op = 0x28 \<and> d_rd (decode w) = 0 \<and> w AND 0xFFF = 0 \<or>
    op = 0x29 \<and> d_rd (decode w) = 0 \<and> 0 \<le> sint (d_imm16 (decode w))"
  shows "pass2_line (disasm (as_org s) w) s = emit_word w s"
proof -
  note print = tables_print(10-12) and d = disasm_def Let_def
  from assms(2) show ?thesis
  proof (elim disjE conjE)
    assume a: "op = 0x0D" "d_rd (decode w) < 11" "target_in_range (as_org s) w"
    then have "d_op (decode w) = 0x0D" using assms(1) by simp
    from branch_line [OF this a(2,3)] show ?thesis unfolding d \<open>d_op (decode w) = 0x0D\<close> disasm_others if_P [OF a(2)] .
  next
    assume a: "op = 0x0E" "target_in_range (as_org s) w"
    then have o: "d_op (decode w) = 0x0E" using assms(1) by simp
    show ?thesis unfolding d o disasm_others by (rule jump_line) (simp_all only: o print a(2))
  next
    assume a: "op = 0x28" "d_rd (decode w) = 0" "w AND 0xFFF = 0"
    then have o: "d_op (decode w) = 0x28" using assms(1) by simp
    show ?thesis unfolding d o disasm_others by (rule cmp_line) (simp_all only: o print a(2,3))
  next
    assume a: "op = 0x29" "d_rd (decode w) = 0" "0 \<le> sint (d_imm16 (decode w))"
    then have o: "d_op (decode w) = 0x29" using assms(1) by simp
    show ?thesis unfolding d o disasm_others by (rule cmpi_line) (simp_all only: o print a(2,3))
  qed
qed

text \<open>C8: What the debugger prints, the assembler reads back: the line that the disassembler prints for an
  instruction word at an address, assembled at that address, emits the same word and reports no
  error, for the words of \<open>reassembles\<close>: every opcode except KRET (which the assembler lacks), with
  zeros in the fields the instruction does not use, an immediate shift below 32, a branch condition
  the assembler has a name for, a branch or jump target that does not wrap around the address
  space, and for CMPI an immediate below 0x8000.\<close>

theorem disasm_assembles:
  assumes "reassembles (as_org s) w"
  shows "pass2_line (disasm (as_org s) w) s = emit_word w s"
proof -
  let ?op = "d_op (decode w)"
  show ?thesis using assms unfolding reassembles_def Let_def Un_iff
    using operands_reassemble [of ?op w "as_org s" s] immediates_reassemble [of ?op w "as_org s" s]
      none_reassemble [of w "as_org s" s] special_reassemble [of ?op w s]
    by blast
qed

lemma disasm_assembles_witness:
  "disasm 0x1000 0x0DFFF000 = ''B??  (illegal cond 15)'' \<and>
   pass2_line ''BNE  0x00000FFC'' ((asm0 False)\<lparr>as_org := 0x1000\<rparr>) = emit_word 0x0D1FFFFC ((asm0 False)\<lparr>as_org := 0x1000\<rparr>)"
proof -
  have "disasm 0x1000 0x0D1FFFFC = ''BNE  0x00000FFC''" "disasm 0x1000 0x0DFFF000 = ''B??  (illegal cond 15)''"
    by code_simp+
  moreover have "reassembles (as_org ((asm0 False)\<lparr>as_org := 0x1000\<rparr>)) 0x0D1FFFFC"
    by (simp add: reassembles_def target_in_range_def decode_def Let_def)
  ultimately show ?thesis using disasm_assembles [of "(asm0 False)\<lparr>as_org := 0x1000\<rparr>" "0x0D1FFFFC"] by simp
qed

end
