(* ===== verification/Objects.thy ===== *)
theory Objects
  imports AsmProps Image
begin

text \<open>
  Object files between the two programs: what \<open>write_dobj\<close> of the assembler writes,
  \<open>load_dobj\<close> of the linker reads back.
\<close>

subsection \<open>Fields of a file\<close>

text \<open>
  A field: what \<open>wr\<close> writes for \<open>x\<close>, \<open>rd\<close> reads from the front of a file as \<open>val x\<close>, if \<open>x\<close>
  satisfies \<open>ok\<close>. Sequences of fields are read back by \<open>read_n\<close>.
\<close>

locale field =
  fixes wr :: "'a \<Rightarrow> u8 list" and rd :: "u8 list \<Rightarrow> 'b \<times> u8 list" and val :: "'a \<Rightarrow> 'b" and ok :: "'a \<Rightarrow> bool"
  assumes read_back: "ok x \<Longrightarrow> rd (wr x @ f) = (val x, f)"
begin

lemma read_all: "list_all ok xs \<Longrightarrow> read_n rd (length xs) (concat (map wr xs) @ f) = (map val xs, f)"
  by (induction xs) (simp_all add: read_back)

end

lemma rd32_wle32: "rd32 (wle32 v @ f) = (v, f)"
  by (simp add: rd32_def wle32_def le32_bytes_def)

lemma mask8_u16: "(0xFF :: u16) = mask 8"
  by (simp add: mask_eq_exp_minus_1)

lemma rd16_wle16: "rd16 (wle16 v @ f) = (v, f)"
proof -
  have "le16 (ucast (v AND 0xFF)) (ucast (drop_bit 8 v AND 0xFF)) = v"
    unfolding mask8_u16 by (rule bit_word_eqI) (auto simp: bit_le16 bit_simps)
  then show ?thesis by (simp add: rd16_def wle16_def)
qed

interpretation word32: field wle32 rd32 "\<lambda>v. v" "\<lambda>_. True"
  by unfold_locales (rule rd32_wle32)

interpretation word16: field wle16 rd16 "\<lambda>v. v" "\<lambda>_. True"
  by unfold_locales (rule rd16_wle16)

subsection \<open>Symbols and relocations\<close>

text \<open>The linker's view of an assembler's symbol, relocation and section.\<close>

definition link_name :: "string \<Rightarrow> name" where
  "link_name n = map of_char n"

definition link_sym :: "u32 \<Rightarrow> Symbol \<Rightarrow> LSym" where
  "link_sym base y =
     \<lparr>sy_name = link_name (sm_name y), sy_value = if sm_extern y then 0 else sm_addr y - base,
      sy_sec = if sm_extern y then SEC_UNDEF else 0, sy_global = if sm_global y then 1 else 0\<rparr>"

definition link_rel :: "ObjReloc \<Rightarrow> LRel" where
  "link_rel r =
     \<lparr>rl_offset = or_offset r, rl_sym = or_sym r, rl_type = or_type r, rl_sec = 0, rl_addend = or_addend r\<rparr>"

definition obj_of :: "asm \<Rightarrow> ObjFile" where
  "obj_of s =
     \<lparr>ob_secs = [\<lparr>se_hint = as_hint s, se_size = section_size s, se_base = 0,
                   se_data = out_bytes (as_base s) (section_size s) s\<rparr>],
      ob_syms = map (link_sym (as_base s)) (as_syms s), ob_rels = map link_rel (as_relocs s)\<rparr>"

text \<open>Names that fit their field in the file with a terminator.\<close>

definition short_name :: "Symbol \<Rightarrow> bool" where
  "short_name y \<longleftrightarrow> name_ok (sm_name y) \<and> length (sm_name y) \<le> 27"

lemma name_ok_no_nul: "name_ok n \<Longrightarrow> NUL \<notin> set n"
  by (auto simp: name_ok_def list_all_iff ident_char_def isalpha_def isupper_def islower_def isdigit_def less_eq_char_def)

lemma name_field_read:
  assumes "name_ok n" "length n \<le> 27"
  shows "length (name_field n) = 28" "c_string (name_field n) = link_name n"
proof -
  have nul: "NUL \<notin> set n" by (rule name_ok_no_nul [OF assms(1)])
  then have cs: "c_str n = n" by (simp add: c_str_def takeWhile_eq_all_conv) metis
  have "(of_char c :: u8) \<noteq> 0" if "c \<in> set n" for c
  proof
    assume "(of_char c :: u8) = 0"
    then have "(of_nat (of_char c) :: u8) = 0" by (simp only: of_nat_of_char)
    then have "of_char c = (of_char NUL :: nat)" by (simp add: word_unat_eq_iff unat_of_nat take_bit_eq_mod)
    then have "c = NUL" by (simp only: of_char_eq_iff)
    with nul that show False by blast
  qed
  then have "takeWhile (\<lambda>b. b \<noteq> (0 :: u8)) (map of_char n) = map of_char n"
    by (auto simp: takeWhile_eq_all_conv)
  then show "length (name_field n) = 28" "c_string (name_field n) = link_name n"
    using assms(2) by (simp_all add: name_field_def cs Let_def c_string_def link_name_def takeWhile_tail takeWhile_append)
qed


lemma load_sym_read: "short_name y \<Longrightarrow> load_sym (write_sym base y @ f) = (link_sym base y, f)"
  using name_field_read [of "sm_name y"]
  by (simp add: short_name_def load_sym_def write_sym_def link_sym_def Let_def rd32_wle32 rd16_wle16)

lemma load_rel_read: "load_rel (write_rel r @ f) = (link_rel r, f)"
  by (simp add: load_rel_def write_rel_def link_rel_def rd32_wle32)

interpretation symf: field "write_sym base" load_sym "link_sym base" short_name
  by unfold_locales (rule load_sym_read)

interpretation relf: field write_rel load_rel link_rel "\<lambda>_. True"
  by unfold_locales (rule load_rel_read)

subsection \<open>The section's data\<close>

text \<open>The data of the only section is the whole blob.\<close>

lemma load_data_all:
  assumes "length pre = unat data_off" "length d = unat (se_size s)" "se_base s = 0"
    and "length pre + length d < 2 ^ 32"
  shows "load_data (pre @ d) data_off s = (s\<lparr>se_base := 0, se_data := d\<rparr>, False)"
proof -
  have "blob_size (pre @ d) data_off = word_of_int (int (length d))"
    using assms(1) by (simp add: blob_size_def)
  then have blob: "blob_size (pre @ d) data_off = se_size s" using assms(2) by simp
  have "blob_byte (pre @ d) data_off i = d ! i" if "i < length d" for i
    using that assms(1) by (simp add: blob_byte_def Let_def nth_append)
  then have m: "map (\<lambda>i. blob_byte (pre @ d) data_off i) [0..<length d] = d"
    by (intro nth_equalityI) simp_all
  show ?thesis
  proof (cases "se_size s = 0")
    case True
    then show ?thesis using assms(2,3) by (simp add: load_data_def Let_def blob)
  next
    case False
    then have "0 < se_size s" by (simp add: word_gt_0)
    then show ?thesis using assms(2,3) m by (simp add: load_data_def Let_def blob)
  qed
qed

lemma section_size_le: "asm_wf s \<Longrightarrow> section_size s \<le> MAX_OUTPUT"
proof -
  assume "asm_wf s"
  then have m: "as_max s \<le> MAX_OUTPUT" by (simp add: asm_wf_def)
  have "as_max s - as_base s \<le> as_max s" if "as_base s < as_max s"
    using that by (simp add: word_sub_le less_imp_le)
  with m show "section_size s \<le> MAX_OUTPUT" by (auto simp: section_size_def)
qed

lemma lengths_written:
  "list_all short_name ys \<Longrightarrow> length (concat (map (write_sym base) ys)) = 36 * length ys"
  "length (concat (map write_rel rs)) = 16 * length rs"
proof -
  have "length (write_sym base y) = 36" if "short_name y" for y
    using that name_field_read(1) [of "sm_name y"]
    by (simp add: short_name_def write_sym_def wle32_def wle16_def)
  then show "list_all short_name ys \<Longrightarrow> length (concat (map (write_sym base) ys)) = 36 * length ys"
    by (induction ys) simp_all
  have "length (write_rel r) = 16" for r by (simp add: write_rel_def wle32_def)
  then show "length (concat (map write_rel rs)) = 16 * length rs" by (induction rs) simp_all
qed

subsection \<open>Whole files\<close>

definition dobj_header :: "asm \<Rightarrow> u8 list" where
  "dobj_header s =
     (let n_sym = of_nat (length (as_syms s)); n_rel = of_nat (length (as_relocs s))
      in [0x44, 0x4F, 0x42, 0x4A, 1, 0, 0, 0] @ wle32 1 @ wle32 n_sym @ wle32 n_rel @
         wle32 (24 + 24 + n_sym * 36 + n_rel * 16) @
         [0x2E, 0x74, 0x65, 0x78, 0x74, 0, 0, 0] @ wle32 0 @ wle32 (section_size s) @ wle32 (as_hint s) @ wle32 5)"

lemma load_dobj_written:
  assumes "asm_wf s" "list_all short_name (as_syms s)" "length (lk_objs l) < MAX_OBJS"
  shows "load_dobj (write_dobj s) l = Some (l\<lparr>lk_objs := lk_objs l @ [obj_of s]\<rparr>)"
proof -
  let ?ny = "length (as_syms s)" and ?nr = "length (as_relocs s)"
  let ?syms = "concat (map (write_sym (as_base s)) (as_syms s))" and ?rels = "concat (map write_rel (as_relocs s))"
  let ?data = "out_bytes (as_base s) (section_size s) s"
  let ?off = "24 + 24 + of_nat ?ny * 36 + of_nat ?nr * 16 :: u32"
  let ?sec = "\<lparr>se_hint = as_hint s, se_size = section_size s, se_base = 0, se_data = []\<rparr>"
  have written: "write_dobj s = dobj_header s @ ?syms @ ?rels @ ?data"
    by (simp add: write_dobj_def dobj_header_def Let_def)
  have n: "?ny \<le> 4096" "?nr \<le> 65536" using assms(1) by (simp_all add: asm_wf_def)
  have off: "unat ?off = 48 + 36 * ?ny + 16 * ?nr"
  proof -
    have "?off = of_nat (48 + 36 * ?ny + 16 * ?nr)" by simp
    also have "unat (of_nat (48 + 36 * ?ny + 16 * ?nr) :: u32) = 48 + 36 * ?ny + 16 * ?nr"
      using n by (intro unat_of_nat_u32) simp
    finally show ?thesis .
  qed
  have pre: "length (dobj_header s @ ?syms @ ?rels) = unat ?off"
    using lengths_written(1) [of "as_syms s" "as_base s"] assms(2) lengths_written(2) off
    by (simp add: dobj_header_def Let_def wle32_def)
  have "unat (section_size s) \<le> unat MAX_OUTPUT" using section_size_le [OF assms(1)] by (simp add: word_le_nat_alt)
  then have "load_data ((dobj_header s @ ?syms @ ?rels) @ ?data) ?off ?sec = (?sec\<lparr>se_base := 0, se_data := ?data\<rparr>, False)"
    using pre n off by (intro load_data_all) (simp_all add: out_bytes_def)
  then have data: "load_data (write_dobj s) ?off ?sec = (?sec\<lparr>se_base := 0, se_data := ?data\<rparr>, False)"
    by (simp add: written)
  have nat: "unat (of_nat ?ny :: u32) = ?ny" "unat (of_nat ?nr :: u32) = ?nr"
    using n by (simp_all add: unat_of_nat_u32)
  have names: "\<not> list_ex (\<lambda>s. length (sy_name s) = 28) (map (link_sym (as_base s)) (as_syms s))"
    using assms(2) by (auto simp: list_ex_iff list_all_iff short_name_def link_sym_def link_name_def)
  show ?thesis
    using assms(2,3) data symf.read_all [of "as_syms s" "as_base s" "?rels @ ?data"] relf.read_all [of "as_relocs s" ?data] names
    by (simp add: load_dobj_def written dobj_header_def Let_def rd32_wle32 nat load_sec_def obj_of_def link_ub_def
        list.pred_True)
qed

text \<open>The references of an object file stay inside its tables, which the linker does not check.\<close>

definition refs_in_range :: "ObjFile \<Rightarrow> bool" where
  "refs_in_range ob \<longleftrightarrow>
     list_all (\<lambda>r. unat (rl_sym r) < length (ob_syms ob) \<and> unat (rl_sec r) < length (ob_secs ob)) (ob_rels ob) \<and>
     list_all (\<lambda>y. sy_sec y = SEC_UNDEF \<or> \<not> sym_ub ob y) (ob_syms ob)"

lemma refs_in_range_obj_of: "asm_wf s \<Longrightarrow> refs_in_range (obj_of s)"
  by (auto simp: refs_in_range_def obj_of_def asm_wf_def reloc_in_table_def link_rel_def link_sym_def sym_ub_def
      list_all_iff)

text \<open>C5: The linker reads back what the assembler writes: for any sources whose symbols have at most 27
  characters (longer names are cut), and if the objects fit the linker's table of 256, loading the
  object files gives the assemblers' sections, symbols and relocations,
  field by field, without reading outside a buffer; and no index in them, which the linker does
  not check, is out of range.\<close>

theorem dobj_roundtrip:
  assumes "ss = map (assemble_lines True) sources"
    and "list_all (\<lambda>s. list_all (\<lambda>y. length (sm_name y) \<le> 27) (as_syms s)) ss"
    and "length (lk_objs l) + length ss \<le> MAX_OBJS"
  shows "load_all (map write_dobj ss) l = Some (l\<lparr>lk_objs := lk_objs l @ map obj_of ss\<rparr>) \<and>
    list_all refs_in_range (map obj_of ss)"
proof -
  have wf: "list_all asm_wf ss" by (simp add: assms(1) list_all_iff asm_wf_assembled)
  then have names: "list_all (\<lambda>s. list_all short_name (as_syms s)) ss"
    using assms(2) by (simp add: list_all_iff short_name_def asm_wf_def)
  have "load_all (map write_dobj ss) l = Some (l\<lparr>lk_objs := lk_objs l @ map obj_of ss\<rparr>)"
    using wf names assms(3)
    by (induction ss arbitrary: l) (simp_all add: load_dobj_written)
  then show ?thesis using wf by (simp add: list_all_iff refs_in_range_obj_of)
qed

lemma dobj_roundtrip_witness:
  "load_all [write_dobj (assemble_lines True ([''a: .byte 7''], 0))] linker0 =
     Some (linker0\<lparr>lk_objs := [\<lparr>ob_secs = [\<lparr>se_hint = 0, se_size = 1, se_base = 0, se_data = [7]\<rparr>],
       ob_syms = [\<lparr>sy_name = [0x61], sy_value = 0, sy_sec = 0, sy_global = 0\<rparr>], ob_rels = []\<rparr>]\<rparr>)"
proof -
  let ?s = "assemble_lines True ([''a: .byte 7''], 0)"
  have s: "as_syms ?s = [(new_symbol ''a'')\<lparr>sm_defined := True, sm_label := True\<rparr>]" "as_relocs ?s = []"
    "as_hint ?s = 0" "as_base ?s = 0" "as_max ?s = 1" "as_out ?s 0 = 7"
    by (simp_all add: assemble_lines_def data_lines_tokens asm_eval emit_byte_eval)
  have o: "obj_of ?s = \<lparr>ob_secs = [\<lparr>se_hint = 0, se_size = 1, se_base = 0, se_data = [7]\<rparr>],
       ob_syms = [\<lparr>sy_name = [0x61], sy_value = 0, sy_sec = 0, sy_global = 0\<rparr>], ob_rels = []\<rparr>"
    by (simp add: obj_of_def s section_size_def out_bytes_def link_sym_def link_name_def new_symbol_def)
  show ?thesis
    using dobj_roundtrip [of "[?s]" "[([''a: .byte 7''], 0)]" linker0]
    by (simp add: s o new_symbol_def linker0_def)
qed

end
