(* ===== verification/ObjectMode.thy ===== *)
theory ObjectMode
  imports Objects
begin

text \<open>
  The two modes of the assembler: with -c it keeps the base of its section and records relocations,
  without it writes a flat image. A run in object mode that has recorded no relocation has done
  to the rest of the state what a flat run does; so the object file, linked alone, is the flat
  image.
\<close>

subsection \<open>The flat state of an object run\<close>

definition flat :: "asm \<Rightarrow> asm" where
  "flat s = s\<lparr>as_obj := False, as_base := 0, as_hint := 0\<rparr>"

lemma flat_fields [simp]:
  "as_syms (flat s) = as_syms s" "as_out (flat s) = as_out s" "as_org (flat s) = as_org s" "as_pos (flat s) = as_pos s"
  "as_max (flat s) = as_max s" "as_relocs (flat s) = as_relocs s" "as_errs (flat s) = as_errs s" "as_ub (flat s) = as_ub s"
  "\<not> as_obj (flat s)"
  by (simp_all add: flat_def)

named_theorems flat_simps

lemma flat_updates [flat_simps]:
  "asm_error (flat s) = flat (asm_error s)" "asm_ub b (flat s) = flat (asm_ub b s)" "advance n (flat s) = flat (advance n s)"
  "emit_byte c (flat s) = flat (emit_byte c s)" "(flat s)\<lparr>as_org := a\<rparr> = flat (s\<lparr>as_org := a\<rparr>)"
  "(flat s)\<lparr>as_pos := a\<rparr> = flat (s\<lparr>as_pos := a\<rparr>)" "(flat s)\<lparr>as_syms := ys\<rparr> = flat (s\<lparr>as_syms := ys\<rparr>)"
  "add_symbol name (flat s) = flat (add_symbol name s)"
  by (simp_all add: flat_def asm_error_def asm_ub_def advance_def emit_byte_def add_symbol_def Let_def)

lemma flat_emit_bytes [flat_simps]: "emit_bytes bs (flat s) = flat (emit_bytes bs s)"
  by (induction bs s rule: emit_bytes.induct) (simp_all add: flat_simps)

lemma flat_emits [flat_simps]:
  "emit_word w (flat s) = flat (emit_word w s)" "emit_fill n (flat s) = flat (emit_fill n s)"
  "emit_string t (flat s) = flat (emit_string t s)" "with_symbol name f (flat s) = flat (with_symbol name f s)"
  "dir_org pass a (flat s) = flat (dir_org pass a s)"
  by (simp_all add: emit_word_def emit_fill_def emit_string_def with_symbol_def dir_org_def Let_def flat_simps)

lemma relocs_updates [flat_simps]:
  "as_relocs (advance n s) = as_relocs s" "as_relocs (emit_word w s) = as_relocs s" "as_relocs (emit_fill n s) = as_relocs s"
  "as_relocs (emit_string t s) = as_relocs s" "as_relocs (add_symbol name s) = as_relocs s" "as_relocs (with_symbol name f s) = as_relocs s"
  "as_relocs (dir_org pass a s) = as_relocs s"
  by (simp_all add: advance_def emit_word_def emit_fill_def emit_string_def add_symbol_def with_symbol_def dir_org_def Let_def
      emit_simps)

lemma relocs_emit_reloc: "as_relocs (emit_reloc ty i a s) \<noteq> []"
  by (auto simp: emit_reloc_def emit_simps)

subsection \<open>Operations that do the same in both modes\<close>

text \<open>
  A result \<open>p\<close> of an operation from \<open>s\<close>, and the result \<open>p'\<close> from \<open>flat s\<close>: unless relocations
  have been recorded, there were none before and \<open>p'\<close> is \<open>p\<close> made flat.
\<close>

definition follows :: "asm \<Rightarrow> asm \<Rightarrow> asm \<Rightarrow> bool" where
  "follows s t t' \<longleftrightarrow> (as_relocs t = [] \<longrightarrow> as_relocs s = [] \<and> t' = flat t)"

definition agrees :: "asm \<Rightarrow> 'a option \<times> asm \<Rightarrow> 'a option \<times> asm \<Rightarrow> bool" where
  "agrees s p p' \<longleftrightarrow> (as_relocs (snd p) = [] \<longrightarrow> as_relocs s = [] \<and> p' = (fst p, flat (snd p)))"

lemma follows_refl: "follows s s (flat s)"
  by (simp add: follows_def)

lemma follows_trans:
  assumes "follows s t t'" "follows t (f t) (f (flat t))"
  shows "follows s (f t) (f t')"
  using assms by (auto simp: follows_def)

lemma agrees_trans:
  assumes "follows s t t'" "agrees t (f t) (f (flat t))"
  shows "agrees s (f t) (f t')"
  using assms by (auto simp: follows_def agrees_def)

lemma follows_snd: "agrees s p p' \<Longrightarrow> follows s (snd p) (snd p')"
  by (auto simp: agrees_def follows_def)

lemma agrees_andthen:
  assumes "agrees s (m s) (m (flat s))" "\<And>x t. agrees t (f x t) (f x (flat t))"
  shows "agrees s (andthen m f s) (andthen m f (flat s))"
proof (cases "m s")
  case (Pair r t)
  show ?thesis
  proof (cases r)
    case None
    then show ?thesis using assms(1) Pair by (auto simp: agrees_def andthen_def)
  next
    case (Some x)
    then show ?thesis using assms(1) assms(2) [of t x] Pair by (auto simp: agrees_def andthen_def)
  qed
qed

lemma agrees_update: "as_relocs t = as_relocs s \<Longrightarrow> t' = flat t \<Longrightarrow> agrees s (r, t) (r, t')"
  by (simp add: agrees_def)

lemma agrees_basic:
  "agrees s (ret x s) (ret x (flat s))" "agrees s (fail s) (fail (flat s))" "agrees s (check b s) (check b (flat s))"
  "agrees s (in_range pass lo hi v s) (in_range pass lo hi v (flat s))"
  "agrees s (symbol_value pass n s) (symbol_value pass n (flat s))"
  "agrees s (put_word pass w s) (put_word pass w (flat s))"
  by (auto simp: agrees_def ret_def fail_def check_def in_range_def symbol_value_def put_word_def flat_simps emit_simps
      split: option.split)

lemma agrees_operand: "agrees s (operand pass t s) (operand pass t (flat s))"
  "agrees s (first_operand pass t s) (first_operand pass t (flat s))"
  by (simp_all add: operand_def first_operand_def agrees_basic split: token.split)

lemma agrees_ub:
  assumes "\<And>t. agrees t (f t) (f (flat t))"
  shows "agrees s (f (asm_ub b s)) (f (asm_ub b (flat s)))"
  using assms [of "asm_ub b s"] by (simp add: flat_simps emit_simps agrees_def)

lemma agrees_eval_ops: "agrees s (eval_ops pass ts v s) (eval_ops pass ts v (flat s))"
proof (induction pass ts v arbitrary: s rule: eval_ops.induct)
  case (3 pass t u ts v)
  show ?case
  proof (cases "is_binop t")
    case True
    have "agrees s (case apply_op t v r of (w, b) \<Rightarrow> eval_ops pass ts w (asm_ub b s))
        (case apply_op t v r of (w, b) \<Rightarrow> eval_ops pass ts w (asm_ub b (flat s)))" for r s
    proof -
      obtain w b where ab: "apply_op t v r = (w, b)" by force
      have "agrees u (eval_ops pass ts w u) (eval_ops pass ts w (flat u))" for u using "3.IH" True ab by metis
      then show ?thesis by (simp only: ab prod.case) (rule agrees_ub)
    qed
    then show ?thesis unfolding eval_ops.simps if_P [OF True] by (intro agrees_andthen agrees_operand)
  qed (simp add: agrees_basic)
qed (simp_all add: agrees_basic)

lemma agrees_eval_expr: "agrees s (eval_expr pass ts s) (eval_expr pass ts (flat s))"
  unfolding eval_expr_def Let_def
  by (auto intro!: agrees_andthen agrees_ub agrees_operand agrees_eval_ops agrees_basic split: list.split)

lemma agrees_reg: "agrees s (reg_operand ts s) (reg_operand ts (flat s))"
  by (auto simp: reg_operand_def agrees_basic intro: agrees_update split: list.split token.split option.split)

lemma agrees_punct:
  "agrees s (comma ts s) (comma ts (flat s))" "agrees s (rbracket ts s) (rbracket ts (flat s))"
  "agrees s (lbracket ts s) (lbracket ts (flat s))"
  by (auto simp: comma_def rbracket_def lbracket_def agrees_basic intro: agrees_update split: list.split token.split)

lemmas agrees_operands = agrees_basic agrees_reg agrees_punct agrees_eval_expr


lemma agrees_mem_offset: "agrees s (mem_offset pass ts s) (mem_offset pass ts (flat s))"
proof -
  have "agrees s (Some x, asm_ub b s) (Some x, asm_ub b (flat s))" for x :: "u64 \<times> token list" and b s
    by (rule agrees_update) (simp_all add: flat_simps emit_simps)
  then show ?thesis unfolding mem_offset_def
    by (auto intro!: agrees_andthen simp: agrees_operands split: list.split token.split)
qed

lemma agrees_parse_mem_operand: "agrees s (parse_mem_operand pass ts s) (parse_mem_operand pass ts (flat s))"
proof -
  have "agrees s (mem_bracket pass ts s) (mem_bracket pass ts (flat s))" for ts s
    unfolding mem_bracket_def by (auto intro!: agrees_andthen agrees_mem_offset simp: agrees_operands)
  moreover have "agrees s (mem_plain pass ts s) (mem_plain pass ts (flat s))" for ts s
    unfolding mem_plain_def by (auto intro!: agrees_andthen simp: agrees_operands split: list.split token.split)
  ultimately show ?thesis by (simp add: parse_mem_operand_def agrees_basic split: list.split)
qed

subsection \<open>Instructions and directives\<close>

text \<open>An operation that records a relocation has nothing to agree on.\<close>

lemma agrees_reloc: "as_relocs (snd p) \<noteq> [] \<Longrightarrow> agrees s p p'"
  by (simp add: agrees_def)

lemma extern_ref_flat: "extern_ref pass ts (flat s) = None"
  by (simp add: extern_ref_def)

lemma agrees_pc_target:
  "agrees s (pc_target pass instr_addr ty w ts s) (pc_target pass instr_addr ty w ts (flat s))"
proof (cases "extern_ref pass ts s")
  case None
  have tail: "agrees s (andthen (in_range pass lo hi v) (\<lambda>_. put_word pass x) (asm_ub b s))
      (andthen (in_range pass lo hi v) (\<lambda>_. put_word pass x) (asm_ub b (flat s)))" for lo hi v x b s
    by (rule agrees_ub) (rule agrees_andthen agrees_basic)+
  show ?thesis unfolding pc_target_def None extern_ref_flat option.case Let_def
    by (intro agrees_andthen agrees_eval_expr) (simp only: prod.case split_beta tail)
next
  case (Some p)
  then show ?thesis by (cases p) (simp add: pc_target_def agrees_reloc flat_simps relocs_emit_reloc)
qed

lemma agrees_two_words:
  "agrees s (Some (), if pass = 2 then emit_word a (emit_word b s) else advance n s)
     (Some (), if pass = 2 then emit_word a (emit_word b (flat s)) else advance n (flat s))"
  by (rule agrees_update) (simp_all add: flat_simps)

lemma agrees_formats:
  "(\<And>rd rs1 ts s. agrees s (f rd rs1 ts s) (f rd rs1 ts (flat s))) \<Longrightarrow> agrees s (rd_rs1 ts f s) (rd_rs1 ts f (flat s))"
  "(\<And>v s. agrees s (chk v s) (chk v (flat s))) \<Longrightarrow>
    agrees s (rd_rs1_imm pass ts chk enc2 s) (rd_rs1_imm pass ts chk enc2 (flat s))"
  "(\<And>v s. agrees s (chk v s) (chk v (flat s))) \<Longrightarrow>
    agrees s (rd_imm pass ts chk enc1 s) (rd_imm pass ts chk enc1 (flat s))"
  "agrees s (push_pop pass ts e1 e2 s) (push_pop pass ts e1 e2 (flat s))"
  "agrees s (indexed pass w ts s) (indexed pass w ts (flat s))"
proof -
  show "(\<And>rd rs1 ts s. agrees s (f rd rs1 ts s) (f rd rs1 ts (flat s))) \<Longrightarrow> agrees s (rd_rs1 ts f s) (rd_rs1 ts f (flat s))"
    unfolding rd_rs1_def by (auto intro!: agrees_andthen simp: agrees_operands)
  show "(\<And>v s. agrees s (chk v s) (chk v (flat s))) \<Longrightarrow>
    agrees s (rd_rs1_imm pass ts chk enc2 s) (rd_rs1_imm pass ts chk enc2 (flat s))"
    "(\<And>v s. agrees s (chk v s) (chk v (flat s))) \<Longrightarrow> agrees s (rd_imm pass ts chk enc1 s) (rd_imm pass ts chk enc1 (flat s))"
    "agrees s (push_pop pass ts e1 e2 s) (push_pop pass ts e1 e2 (flat s))"
    "agrees s (indexed pass w ts s) (indexed pass w ts (flat s))"
    unfolding rd_rs1_def rd_rs1_imm_def rd_imm_def push_pop_def indexed_def
    by (auto intro!: agrees_andthen agrees_two_words simp: agrees_operands split: list.split token.split)
qed

lemma agrees_movi32: "agrees s (movi32 pass ts s) (movi32 pass ts (flat s))"
proof -
  have val: "agrees s (movi32_val pass rd ts s) (movi32_val pass rd ts (flat s))" for rd ts s
    unfolding movi32_val_def by (auto intro!: agrees_andthen agrees_two_words simp: agrees_eval_expr)
  have "agrees s (case (if as_obj s \<and> pass = 2 then peek_sym_ref s ts else None) of
        Some (i, a) \<Rightarrow> (Some (), movi32_ref rd i (ucast a) s) | None \<Rightarrow> movi32_val pass rd ts s)
      (case (if as_obj (flat s) \<and> pass = 2 then peek_sym_ref (flat s) ts else None) of
        Some (i, a) \<Rightarrow> (Some (), movi32_ref rd i (ucast a) (flat s)) | None \<Rightarrow> movi32_val pass rd ts (flat s))" for rd ts s
  proof (cases "if as_obj s \<and> pass = 2 then peek_sym_ref s ts else None")
    case None
    then show ?thesis unfolding None using val by simp
  next
    case (Some p)
    then show ?thesis unfolding Some
      by (cases p) (simp add: agrees_reloc movi32_ref_def flat_simps relocs_emit_reloc)
  qed
  then show ?thesis unfolding movi32_def by (auto intro!: agrees_andthen simp: agrees_operands)
qed

lemma agrees_assemble_fmt: "agrees s (assemble_fmt pass a op ts s) (assemble_fmt pass a op ts (flat s))"
proof -
  have cmpi: "agrees s (put_word pass w (if b then asm_error s else s)) (put_word pass w (if b then asm_error (flat s) else flat s))"
    for w b s by (simp add: put_word_def agrees_def flat_simps emit_simps)
  show ?thesis unfolding assemble_fmt_eqs Let_def
    by (cases "oe_fmt op")
      (auto intro!: agrees_andthen agrees_formats agrees_movi32 agrees_pc_target agrees_parse_mem_operand cmpi
        simp: agrees_operands split: list.split)
qed


lemma follows_update: "as_relocs t = as_relocs s \<Longrightarrow> t' = flat t \<Longrightarrow> follows s t t'"
  by (simp add: follows_def)

lemma follows_expr: "follows s (snd (eval_expr pass ts s)) (snd (eval_expr pass ts (flat s)))"
  by (rule follows_snd [OF agrees_eval_expr])

text \<open>Evaluate an expression and go on with its value.\<close>

lemma follows_value:
  assumes "\<And>r t. follows t (f r t) (f r (flat t))"
  shows "follows s (case eval_expr pass ts s of (r, t) \<Rightarrow> f r t) (case eval_expr pass ts (flat s) of (r, t) \<Rightarrow> f r t)"
proof -
  obtain r t where e: "eval_expr pass ts s = (r, t)" by force
  have "agrees s (r, t) (eval_expr pass ts (flat s))" using agrees_eval_expr [of s pass ts] by (simp add: e)
  then show ?thesis using assms [of t r] by (auto simp: e agrees_def follows_def)
qed

lemma follows_if:
  "(b \<Longrightarrow> follows s t t') \<Longrightarrow> (\<not> b \<Longrightarrow> follows s u u') \<Longrightarrow> follows s (if b then t else u) (if b then t' else u')"
  by simp

lemma follows_data:
  "follows s (dir_word pass ts s) (dir_word pass ts (flat s))" "follows s (dir_byte pass ts s) (dir_byte pass ts (flat s))"
proof -
  have word: "follows s (if pass = 2 then emit_word w s else advance 4 s)
      (if pass = 2 then emit_word w (flat s) else advance 4 (flat s))" for w s
    by (rule follows_update) (simp_all add: flat_simps)
  show "follows s (dir_word pass ts s) (dir_word pass ts (flat s))"
  proof (cases "if as_obj s \<and> pass = 2 then peek_sym_ref s ts else None")
    case None
    then show ?thesis unfolding dir_word_def None Let_def
      by (simp only: flat_fields simp_thms if_False option.case) (intro follows_value word)
  next
    case (Some p)
    then show ?thesis unfolding dir_word_def Some
      by (cases p) (simp add: follows_def flat_simps relocs_emit_reloc)
  qed
  have byte: "follows s (if pass = 2 then emit_byte c s else advance 1 s)
      (if pass = 2 then emit_byte c (flat s) else advance 1 (flat s))" for c s
    by (rule follows_update) (simp_all add: flat_simps emit_simps)
  show "follows s (dir_byte pass ts s) (dir_byte pass ts (flat s))"
    unfolding dir_byte_def Let_def by (intro follows_value byte)
qed

lemma follows_symbols:
  "follows s (dir_equ pass ts s) (dir_equ pass ts (flat s))" "follows s (dir_global ts s) (dir_global ts (flat s))"
  "follows s (pass1_equ ts s) (pass1_equ ts (flat s))"
proof -
  have w: "follows s (with_symbol n f s) (with_symbol n f (flat s))" "follows s (asm_error s) (asm_error (flat s))" for n f s
    by (rule follows_update; simp add: flat_simps emit_simps)+
  show "follows s (dir_equ pass ts s) (dir_equ pass ts (flat s))"
    unfolding dir_equ_def
    by (auto intro!: follows_value w follows_refl split: list.split token.split option.split)
  show "follows s (dir_global ts s) (dir_global ts (flat s))"
    unfolding dir_global_def by (auto intro!: w follows_refl split: list.split token.split)
  show "follows s (pass1_equ ts s) (pass1_equ ts (flat s))"
    unfolding pass1_equ_def by (auto intro!: follows_value w follows_refl split: list.split token.split)
qed

lemma follows_basic:
  "follows s (asm_error s) (asm_error (flat s))" "follows s (dir_org pass a s) (dir_org pass a (flat s))"
  "follows s (emit_fill n s) (emit_fill n (flat s))" "follows s (emit_string t s) (emit_string t (flat s))"
  "follows s (advance n s) (advance n (flat s))" "follows s (with_symbol m f s) (with_symbol m f (flat s))"
  "follows s (dir_align pass a s) (dir_align pass a (flat s))" "follows s (count_error b s) (count_error b (flat s))"
  "follows s (s\<lparr>as_org := a\<rparr>) ((flat s)\<lparr>as_org := a\<rparr>)"
  by (rule follows_update; simp add: flat_simps emit_simps dir_align_def count_error_def Let_def)+

lemma follows_case_arg:
  "(\<And>v. follows s (f v) (f' v)) \<Longrightarrow> follows s e e' \<Longrightarrow>
    follows s (case ts of TInt v # _ \<Rightarrow> f v | _ \<Rightarrow> e) (case ts of TInt v # _ \<Rightarrow> f' v | _ \<Rightarrow> e')"
  "(\<And>t. follows s (g t) (g' t)) \<Longrightarrow> follows s e e' \<Longrightarrow>
    follows s (case ts of TString t # _ \<Rightarrow> g t | _ \<Rightarrow> e) (case ts of TString t # _ \<Rightarrow> g' t | _ \<Rightarrow> e')"
  "(\<And>n. follows s (h n) (h' n)) \<Longrightarrow> follows s e e' \<Longrightarrow>
    follows s (case ts of TIdent n # _ \<Rightarrow> h n | _ \<Rightarrow> e) (case ts of TIdent n # _ \<Rightarrow> h' n | _ \<Rightarrow> e')"
  by (simp_all split: list.split token.split)

lemma follows_process_directive:
  "follows s (process_directive pass dir ts s) (process_directive pass dir ts (flat s))"
  unfolding process_directive_def
  by (intro follows_if follows_case_arg follows_basic follows_data follows_symbols follows_refl)

lemma follows_assemble_line: "follows s (assemble_line pass toks s) (assemble_line pass toks (flat s))"
proof -
  have "follows s (case assemble_fmt pass a op ts s of (Some _, s) \<Rightarrow> s
        | (None, s) \<Rightarrow> if pass = 1 then advance n s else s)
      (case assemble_fmt pass a op ts (flat s) of (Some _, s) \<Rightarrow> s
        | (None, s) \<Rightarrow> if pass = 1 then advance n s else s)" for a op ts n
  proof (cases "assemble_fmt pass a op ts s")
    case (Pair r t)
    have ag: "agrees s (r, t) (assemble_fmt pass a op ts (flat s))"
      using agrees_assemble_fmt [of s pass a op ts] by (simp add: Pair)
    show ?thesis
      using ag unfolding Pair by (cases r) (auto simp: agrees_def follows_def flat_simps)
  qed
  note instr = this
  show ?thesis
  proof (cases "dropWhile is_label toks")
    case Nil
    show ?thesis unfolding assemble_line_def Nil list.case by (rule follows_refl)
  next
    case (Cons t ts)
    show ?thesis unfolding assemble_line_def Cons list.case flat_fields
      using instr by (cases t) (simp_all add: follows_basic follows_process_directive split: option.split)
  qed
qed

lemma follows_collect_labels:
  "fst (collect_labels ts (flat s)) = fst (collect_labels ts s) \<and>
   snd (collect_labels ts (flat s)) = flat (snd (collect_labels ts s)) \<and>
   as_relocs (snd (collect_labels ts s)) = as_relocs s"
proof (induction ts s rule: collect_labels.induct)
  case (1 n ts s)
  have "define_label n (flat s) = flat (define_label n s)" "as_relocs (define_label n s) = as_relocs s"
    by (simp_all add: define_label_def flat_simps emit_simps split: option.split)
  then show ?case using 1 by simp
qed simp_all

lemma follows_pass1_directive:
  "follows s (pass1_directive toks err dir ts s) (pass1_directive toks err dir ts (flat s))"
proof -
  have org: "follows s (pass1_org a s) (pass1_org a (flat s))" for a
    by (rule follows_update) (simp_all add: pass1_org_def flat_def Let_def)
  have adv: "follows s (advance n (count_error err s)) (advance n (count_error err (flat s)))" for n
    by (rule follows_update) (simp_all add: count_error_def flat_simps emit_simps)
  have align: "follows s (if c then s\<lparr>as_org := a (as_org s)\<rparr> else s) (if c then (flat s)\<lparr>as_org := a (as_org (flat s))\<rparr> else flat s)"
    for c a by (rule follows_update) (simp_all add: flat_simps)
  show ?thesis unfolding pass1_directive_def
    by (intro follows_if follows_case_arg follows_basic follows_symbols follows_refl org adv align)
qed

lemma follows_lines:
  "follows s (pass1_line text s) (pass1_line text (flat s))" "follows s (pass2_line text s) (pass2_line text (flat s))"
proof -
  obtain toks err where tk: "tokenize_line text = (toks, err)" by force
  have c: "count_error err (flat s) = flat (count_error err s)" "as_relocs (count_error err s) = as_relocs s"
    by (simp_all add: count_error_def flat_simps emit_simps)
  obtain rest t where l: "collect_labels toks (count_error err s) = (rest, t)" by force
  have l': "collect_labels toks (flat (count_error err s)) = (rest, flat t)" "as_relocs t = as_relocs s"
    using follows_collect_labels [of toks "count_error err s"] l c(2) by (auto simp: prod_eq_iff)
  have "follows t (case rest of TDotIdent dir # ts \<Rightarrow> pass1_directive toks err dir ts t
        | TIdent m # _ \<Rightarrow> advance (instr_size m) t | _ \<Rightarrow> t)
      (case rest of TDotIdent dir # ts \<Rightarrow> pass1_directive toks err dir ts (flat t)
        | TIdent m # _ \<Rightarrow> advance (instr_size m) (flat t) | _ \<Rightarrow> flat t)"
    by (simp add: follows_refl follows_basic follows_pass1_directive split: list.split token.split)
  then show "follows s (pass1_line text s) (pass1_line text (flat s))"
    by (simp add: pass1_line_def tk c(1) l l' follows_def)
  have "follows (count_error err s) (assemble_line 2 toks (count_error err s)) (assemble_line 2 toks (flat (count_error err s)))"
    by (rule follows_assemble_line)
  then show "follows s (pass2_line text s) (pass2_line text (flat s))"
    by (simp add: pass2_line_def tk c follows_def Let_def)
qed

lemma follows_fold:
  assumes "\<And>line s. follows s (f s line) (f (flat s) line)"
  shows "follows s (foldl f s ls) (foldl f (flat s) ls)"
proof (induction ls arbitrary: s)
  case (Cons line ls)
  show ?case using assms [of s line] Cons.IH [of "f s line"] by (auto simp: follows_def)
qed (simp add: follows_refl)

text \<open>The two runs.\<close>

lemma flat_assemble_lines:
  assumes "as_relocs (assemble_lines True ls) = []"
  shows "assemble_lines False ls = flat (assemble_lines True ls)"
proof -
  let ?s = "(asm0 True)\<lparr>as_errs := snd ls\<rparr>"
  have s: "(asm0 False)\<lparr>as_errs := snd ls\<rparr> = flat ?s" by (simp add: asm0_def flat_def)
  have p1: "follows s (pass1 (fst ls) s) (pass1 (fst ls) (flat s))" for s
  proof -
    have "(flat s)\<lparr>as_org := 0\<rparr> = flat (s\<lparr>as_org := 0\<rparr>)" by (simp add: flat_simps)
    then show ?thesis
      using follows_fold [where f = "\<lambda>s text. pass1_line text s", OF follows_lines(1), where s = "s\<lparr>as_org := 0\<rparr>" and ls = "fst ls"] by (simp add: pass1_def follows_def)
  qed
  have p2: "follows s (pass2 (fst ls) s) (pass2 (fst ls) (flat s))" for s
  proof -
    have "(flat s)\<lparr>as_org := 0, as_pos := 0, as_max := 0\<rparr> = flat (s\<lparr>as_org := 0, as_pos := 0, as_max := 0\<rparr>)"
      by (simp add: flat_def)
    then show ?thesis
      using follows_fold [where f = "\<lambda>s text. pass2_line text s", OF follows_lines(2), where s = "s\<lparr>as_org := 0, as_pos := 0, as_max := 0\<rparr>" and ls = "fst ls"]
      by (simp add: pass2_def follows_def)
  qed
  show ?thesis
    using follows_trans [OF p1 p2, of ?s] assms by (simp add: assemble_lines_def s follows_def)
qed

end
