(* ===== verification/FlatLink.thy ===== *)
theory FlatLink
  imports ObjectMode
begin

text \<open>
  Separate assembly against flat assembly: the object file of a source that needs no relocation,
  linked alone at address 0, is the file the assembler writes for the same source without -c.
\<close>

subsection \<open>The link of one object file\<close>

lemma build_from_ub:
  "list_all (\<lambda>(oi, ob, sy). sy_sec sy = SEC_UNDEF \<or> \<not> sym_ub ob sy) ss \<Longrightarrow> lk_ub (build_from ss l) = lk_ub l"
  by (induction ss l rule: build_from.induct) (auto simp: Let_def)

lemma all_syms_one: "all_syms [ob] = map (\<lambda>y. (0, ob, y)) (ob_syms ob)"
  by (simp add: all_syms_def)

text \<open>The object file's section at its address.\<close>

definition placed_obj :: "asm \<Rightarrow> ObjFile" where
  "placed_obj s = (obj_of s)\<lparr>ob_secs := map (\<lambda>sec. sec\<lparr>se_base := as_hint s\<rparr>) (ob_secs (obj_of s))\<rparr>"

lemma assign_one:
  "assign_addresses 0 (linker0\<lparr>lk_objs := [obj_of s]\<rparr>) = linker0\<lparr>lk_objs := [placed_obj s]\<rparr>"
  by (simp add: assign_addresses_def assign_section_def align4_def placed_obj_def obj_of_def linker0_def Let_def)

lemma global_names_distinct:
  assumes "asm_wf s"
  shows "distinct (map gl_name (global_entries (all_syms [placed_obj s]))) \<and>
    length (global_entries (all_syms [placed_obj s])) \<le> MAX_GLOB_SYMS"
proof -
  let ?f = "\<lambda>y. gl_name (glob_entry (0, placed_obj s, y))" and ?g = "\<lambda>y. defines_global (0, placed_obj s, y)"
  have eq: "global_entries (all_syms [placed_obj s]) =
      map (\<lambda>y. glob_entry (0, placed_obj s, y)) (filter ?g (map (link_sym (as_base s)) (as_syms s)))"
    by (simp add: global_entries_def all_syms_one placed_obj_def obj_of_def filter_map comp_def)
  have names: "map sy_name (map (link_sym (as_base s)) (as_syms s)) = map link_name (map sm_name (as_syms s))"
    by (simp add: link_sym_def)
  have "inj link_name"
  proof (rule injI)
    fix a b assume eq: "link_name a = link_name b"
    have "c = d" if "(of_char c :: u8) = of_char d" for c d :: char
    proof -
      have "(of_nat (of_char c) :: u8) = of_nat (of_char d)" using that by (simp only: of_nat_of_char)
      then have "(of_char c :: nat) = of_char d" by (simp add: word_unat_eq_iff unat_of_nat take_bit_eq_mod)
      then show "c = d" by (simp only: of_char_eq_iff)
    qed
    then have "inj (of_char :: char \<Rightarrow> u8)" by (rule injI)
    with eq show "a = b" by (simp add: link_name_def inj_map_eq_map)
  qed
  then have "distinct (map sy_name (map (link_sym (as_base s)) (as_syms s)))"
    unfolding names using assms
    by (subst distinct_map) (auto simp: asm_wf_def intro: inj_on_subset)
  then have "distinct (map sy_name (filter ?g (map (link_sym (as_base s)) (as_syms s))))"
    by (rule distinct_map_filter)
  moreover have "map gl_name (global_entries (all_syms [placed_obj s])) =
      map sy_name (filter ?g (map (link_sym (as_base s)) (as_syms s)))"
    by (simp add: eq)
  moreover have "length (global_entries (all_syms [placed_obj s])) \<le> length (as_syms s)"
    unfolding eq using length_filter_le [of ?g "map (link_sym (as_base s)) (as_syms s)"] by simp
  ultimately show ?thesis using assms by (simp add: asm_wf_def)
qed

lemma globals_one:
  assumes "asm_wf s" "list_all short_name (as_syms s)"
  shows "\<exists>gs. build_globals (linker0\<lparr>lk_objs := [placed_obj s]\<rparr>) = linker0\<lparr>lk_objs := [placed_obj s], lk_globs := gs\<rparr>"
proof -
  let ?l = "linker0\<lparr>lk_objs := [placed_obj s]\<rparr>"
  have short: "list_all (\<lambda>(oi, ob, sy). length (sy_name sy) \<le> 27) (all_syms (lk_objs ?l))"
    using assms(2) by (simp add: all_syms_one list_all_iff placed_obj_def obj_of_def link_sym_def link_name_def short_name_def)
  have "lk_errors (build_globals ?l) = []"
    using build_from_spec [of ?l, OF _ _ short] global_names_distinct [OF assms(1)]
    by (simp add: build_globals_def Let_def linker0_def)
  moreover have "lk_ub (build_globals ?l) = lk_ub ?l"
    unfolding build_globals_def
    by (rule build_from_ub) (simp add: all_syms_one list_all_iff placed_obj_def obj_of_def link_sym_def sym_ub_def)
  moreover have "lk_objs (build_globals ?l) = [placed_obj s]" by (simp add: build_globals_def)
  ultimately show ?thesis
    by (intro exI [of _ "lk_globs (build_globals ?l)"]) (simp add: linker0_def)
qed

lemma emit_one:
  assumes "lk_objs l = [placed_obj s]" "\<not> lk_ub l" "unat (as_hint s) + unat (section_size s) < 2 ^ 32"
  shows "emit_output l = (replicate (unat (as_hint s)) 0 @ out_bytes (as_base s) (section_size s) s, False)"
proof -
  let ?d = "out_bytes (as_base s) (section_size s) s" and ?b = "as_hint s" and ?n = "section_size s"
  have secs: "all_secs l = [\<lparr>se_hint = as_hint s, se_size = ?n, se_base = ?b, se_data = ?d\<rparr>]"
    by (simp add: all_secs_def assms(1) placed_obj_def obj_of_def)
  have sum: "unat (?b + ?n) = unat ?b + unat ?n" using assms(3) unat_add_lem [of ?b ?n] by simp
  have size: "unat (out_size l) = unat ?b + unat ?n"
    using sum by (auto simp: out_size_def secs Let_def word_less_nat_alt)
  have len: "length ?d = unat ?n" by (simp add: out_bytes_def)
  show ?thesis
  proof (cases "?n = 0")
    case True
    then show ?thesis using size assms(2) by (simp add: emit_output_def secs copy_sec_def out_bytes_def)
  next
    case False
    then have "0 < ?n" by (simp add: word_gt_0)
    then show ?thesis using size len assms(2) by (simp add: emit_output_def secs copy_sec_def Let_def)
  qed
qed

lemma link_one:
  assumes "asm_wf s" "list_all short_name (as_syms s)" "as_relocs s = []" "unat (as_hint s) + unat (section_size s) < 2 ^ 32"
  shows "\<exists>l. link 0 [write_dobj s] = (Some (replicate (unat (as_hint s)) 0 @ out_bytes (as_base s) (section_size s) s), l) \<and>
    \<not> lk_ub l"
proof -
  obtain gs where gs: "build_globals (linker0\<lparr>lk_objs := [placed_obj s]\<rparr>) = linker0\<lparr>lk_objs := [placed_obj s], lk_globs := gs\<rparr>"
    using globals_one [OF assms(1,2)] by blast
  let ?l = "linker0\<lparr>lk_objs := [placed_obj s], lk_globs := gs\<rparr>"
  have load: "load_all [write_dobj s] linker0 = Some (linker0\<lparr>lk_objs := [obj_of s]\<rparr>)"
    using load_dobj_written [OF assms(1,2), of linker0] by (simp add: linker0_def)
  have none: "resolve_relocs ?l = ?l"
    by (simp add: resolve_relocs_def reloc_indices_def placed_obj_def obj_of_def assms(3))
  have "emit_output ?l = (replicate (unat (as_hint s)) 0 @ out_bytes (as_base s) (section_size s) s, False)"
    by (rule emit_one [OF _ _ assms(4)]) (simp_all add: linker0_def)
  then show ?thesis
    using load by (simp add: link_def Let_def assign_one gs none) (simp add: linker0_def)
qed

subsection \<open>The flat image\<close>

lemma out_bytes_split:
  assumes "b \<le> m" "\<forall>a<b. as_out s a = 0"
  shows "out_bytes 0 m s = replicate (unat b) 0 @ out_bytes b (m - b) s"
proof (rule nth_equalityI)
  have m: "unat m = unat b + unat (m - b)" using assms(1) by (simp add: unat_sub word_le_nat_alt)
  show "length (out_bytes 0 m s) = length (replicate (unat b) 0 @ out_bytes b (m - b) s)"
    using m by (simp add: out_bytes_def)
  fix i assume "i < length (out_bytes 0 m s)"
  then have i: "i < unat m" by (simp add: out_bytes_def)
  show "out_bytes 0 m s ! i = (replicate (unat b) 0 @ out_bytes b (m - b) s) ! i"
  proof (cases "i < unat b")
    case True
    then have "unat (of_nat i :: u32) = i" using unat_u32_less [of b] by (intro unat_of_nat_u32) simp
    then have "(of_nat i :: u32) < b" using True by (simp add: word_less_nat_alt)
    then show ?thesis using True i assms(2) by (simp add: out_bytes_def nth_append)
  next
    case False
    then have "b + of_nat (i - unat b) = (of_nat i :: u32)" by (simp add: of_nat_diff)
    then show ?thesis using False i m by (simp add: out_bytes_def nth_append)
  qed
qed

interpretation hint: asm_rel "\<lambda>s t. as_hint s = as_base s \<longrightarrow> as_hint t = as_base t"
  by unfold_locales (auto simp: emit_simps with_symbol_def add_symbol_def emit_reloc_def Let_def)

lemma hint_is_base: "as_hint (assemble_lines obj ls) = as_base (assemble_lines obj ls)"
proof -
  have "as_hint s = as_base s \<longrightarrow> as_hint (pass2 ls (pass1 ls s)) = as_base (pass2 ls (pass1 ls s))" for ls s
    by (rule hint.R_assemble_lines) simp
  then show ?thesis by (simp add: assemble_lines_def asm0_def)
qed

text \<open>C6: Separate and flat assembly agree: for a source that assembles with -c without errors or relocations,
  with nothing in front of its first nonzero .org and names of at most 27 characters, the linker given
  its object file alone, with base address 0, succeeds without leaving its arrays, and the image it
  writes is, byte for byte, the flat file that the assembler writes without -c.\<close>

theorem link_flat:
  assumes "s = assemble_lines True ls" "as_errs s = 0" "as_relocs s = []"
    and "list_all (\<lambda>y. length (sm_name y) \<le> 27) (as_syms s)"
    and "as_base s \<le> as_max s" "\<forall>a<as_base s. as_out s a = 0"
  shows "\<exists>out l. link 0 [write_dobj s] = (Some out, l) \<and> \<not> lk_ub l \<and>
    assembler_output (assemble_lines False ls) = Some out"
proof -
  have wf: "asm_wf s" unfolding assms(1) by (rule asm_wf_assembled)
  then have names: "list_all short_name (as_syms s)"
    using assms(4) by (simp add: list_all_iff short_name_def asm_wf_def)
  have hint: "as_hint s = as_base s" unfolding assms(1) by (rule hint_is_base)
  have size: "section_size s = as_max s - as_base s"
    using assms(5) by (auto simp: section_size_def)
  then have "unat (as_hint s) + unat (section_size s) < 2 ^ 32"
    using assms(5) unat_u32_less [of "as_max s"] by (simp add: hint unat_sub word_le_nat_alt)
  from link_one [OF wf names assms(3) this] obtain l
    where "link 0 [write_dobj s] = (Some (out_bytes 0 (as_max s) s), l)" "\<not> lk_ub l"
    by (auto simp: hint size out_bytes_split [OF assms(5,6)])
  moreover have "assemble_lines False ls = flat s" using flat_assemble_lines [of ls] assms(1,3) by simp
  then have "assembler_output (assemble_lines False ls) = Some (out_bytes 0 (as_max s) s)"
    using assms(2) by (simp add: assembler_output_def out_bytes_def)
  ultimately show ?thesis by blast
qed

lemma link_flat_witness:
  "fst (link 0 [write_dobj (assemble_lines True ([''a: .byte 7''], 0))]) =
   assembler_output (assemble_lines False ([''a: .byte 7''], 0))"
proof -
  let ?s = "assemble_lines True ([''a: .byte 7''], 0)"
  have "as_syms ?s = [(new_symbol ''a'')\<lparr>sm_defined := True, sm_label := True\<rparr>]" "as_relocs ?s = []"
    "as_base ?s = 0" "as_errs ?s = 0"
    by (simp_all add: assemble_lines_def data_lines_tokens asm_eval emit_byte_eval)
  then show ?thesis using link_flat [of ?s "([''a: .byte 7''], 0)"] by (auto simp: new_symbol_def)
qed

end
