(* ===== verification/Debugger.thy ===== *)
theory Debugger
  imports Run Semantics Disasm Lexer
begin

text \<open>
  The debugger of the emulator (\<open>emulator.c\<close>, lines 780 to 880): the breakpoint table, the prompt
  with its commands, the dumps, and the loop of \<open>cpu_run\<close> with \<open>debug\<close> set, 1 for the prompt
  (option -d) and 2 for the trace (option -e). The record \<open>debugger\<close> has the static variables and
  the surroundings of the prompt:
  \<^item> \<open>commands\<close>: what successive calls of \<open>fgets\<close> return, its end being the end of the input;
  \<^item> \<open>stderr_q\<close>: the text written to standard error, oldest first;
  \<^item> \<open>junk\<close>: what the uninitialised variable \<open>a\<close> of the command \<open>mem\<close> holds, given the number of
    commands that are left;
  \<^item> \<open>dbg_ub\<close>: not a variable of the program; the prompt has read behind the end of \<open>mem\<close>, has
    converted a number that does not fit an \<open>int\<close>, or has overflowed the row counter of a dump.
  The UART and the prompt read the same standard input, one through \<open>read\<close>, the other through the
  buffer of \<open>stdin\<close>; which of them gets a byte is up to the host, so the model gives each its own
  queue.
\<close>

record debugger =
  breakpoints :: "u32 list"
  debug_step :: nat
  commands :: "string list"
  stderr_q :: string
  junk :: "nat \<Rightarrow> u32"
  dbg_ub :: bool

abbreviation MAX_BREAKPOINTS :: nat where "MAX_BREAKPOINTS \<equiv> 16"

definition say :: "string \<Rightarrow> debugger \<Rightarrow> debugger" where
  "say t d = d\<lparr>stderr_q := stderr_q d @ t\<rparr>"

definition debug_undefined :: "bool \<Rightarrow> debugger \<Rightarrow> debugger" where
  "debug_undefined b d = d\<lparr>dbg_ub := (dbg_ub d \<or> b)\<rparr>"

definition hex8 :: "u32 \<Rightarrow> string" where
  "hex8 v = ''0x'' @ hex 8 (unat v)"

subsection \<open>Reading numbers\<close>

definition c_space :: "char \<Rightarrow> bool" where
  "c_space c \<longleftrightarrow> c = CHR '' '' \<or> (CHR 0x09 \<le> c \<and> c \<le> CHR 0x0D)"

definition sign_split :: "string \<Rightarrow> bool \<times> string" where
  "sign_split s =
     (case s of
        c # r \<Rightarrow> if c = CHR ''-'' then (True, r) else if c = CHR ''+'' then (False, r) else (False, s)
      | [] \<Rightarrow> (False, []))"

definition digits_value :: "nat \<Rightarrow> string \<Rightarrow> nat" where
  "digits_value b s = foldl (\<lambda>v c. b * v + digit_val c) 0 (takeWhile (\<lambda>c. digit_val c < b) s)"

definition digits_rest :: "nat \<Rightarrow> string \<Rightarrow> string" where
  "digits_rest b s = dropWhile (\<lambda>c. digit_val c < b) s"

definition hex_prefix :: "string \<Rightarrow> bool" where
  "hex_prefix s \<longleftrightarrow> take 2 s = ''0x'' \<or> take 2 s = ''0X''"

text \<open>The base that base 0 stands for, given what follows the sign.\<close>

definition leading_base :: "string \<Rightarrow> nat" where
  "leading_base s = (if take 1 s = ''0'' then 8 else 10)"

text \<open>\<open>(uint32_t)strtoul(s, NULL, 0)\<close>; a number that does not fit 64 bits gives the largest one.\<close>

definition to_ulong :: "bool \<Rightarrow> nat \<Rightarrow> u32" where
  "to_ulong neg v = (if v > 0xFFFFFFFFFFFFFFFF then 0xFFFFFFFF else if neg then - of_nat v else of_nat v)"

definition hex_number :: "string \<Rightarrow> bool" where
  "hex_number s \<longleftrightarrow> hex_prefix s \<and> digits_rest 16 (drop 2 s) \<noteq> drop 2 s"

definition strtoul :: "string \<Rightarrow> u32" where
  "strtoul s =
     (case sign_split (dropWhile c_space s) of
        (neg, r) \<Rightarrow>
          to_ulong neg (if hex_number r then digits_value 16 (drop 2 r) else digits_value (leading_base r) r))"

text \<open>The conversion \<open>%i\<close> of \<open>sscanf\<close>; \<open>None\<close> when the input does not match.\<close>

definition scan_int :: "string \<Rightarrow> (int \<times> string) option" where
  "scan_int s =
     (case sign_split (dropWhile c_space s) of
        (neg, r) \<Rightarrow>
          let b = (if hex_prefix r then 16 else leading_base r);
              t = (if hex_prefix r then drop 2 r else r);
              v = int (digits_value b t)
          in if digits_rest b t = t then None else Some (if neg then - v else v, digits_rest b t))"

definition fits_int :: "int \<Rightarrow> bool" where
  "fits_int v \<longleftrightarrow> - 2147483648 \<le> v \<and> v < 2147483648"

subsection \<open>Dumps\<close>

definition dump_reg :: "machine \<Rightarrow> nat \<Rightarrow> string" where
  "dump_reg s i =
     ''  '' @ reg_name (of_nat i) @ ''='' @ hex8 (regs s (of_nat i)) @ (if i mod 4 = 3 then [NL] else [])"

definition dump_regs :: "machine \<Rightarrow> string" where
  "dump_regs s =
     concat (map (dump_reg s) [0..<16]) @
     ''  flags='' @ hex8 (flags s) @ ''  status='' @ hex8 (status s) @ ''  cause='' @ hex8 (cause s) @ [NL] @
     ''  satp='' @ hex8 (satp s) @ ''  badaddr='' @ hex8 (badaddr s) @ [NL]"

definition dump_byte :: "memory \<Rightarrow> u32 \<Rightarrow> u8" where
  "dump_byte m a = (if a < MEM_SIZE then m a else 0)"

definition printable :: "u8 \<Rightarrow> char" where
  "printable c = (if 32 \<le> c \<and> c < 127 then char_of (unat c) else CHR ''.'')"

text \<open>The row of \<open>dump_mem\<close> that starts \<open>i\<close> bytes behind \<open>addr\<close>.\<close>

definition dump_row :: "memory \<Rightarrow> u32 \<Rightarrow> nat \<Rightarrow> nat \<Rightarrow> string" where
  "dump_row m addr len i =
     (let bytes = map (\<lambda>j. dump_byte m (addr + of_nat i + of_nat j)) [0..<min 16 (len - i)]
      in ''  '' @ hex8 (addr + of_nat i) @ '': '' @
         concat (map (\<lambda>c. hex 2 (unat c) @ '' '') bytes) @ '' '' @ map printable bytes @ [NL])"

definition dump_mem :: "memory \<Rightarrow> u32 \<Rightarrow> int \<Rightarrow> string" where
  "dump_mem m addr len =
     concat (map (\<lambda>k. dump_row m addr (nat len) (16 * k)) [0..<(nat len + 15) div 16])"

subsection \<open>The prompt\<close>

text \<open>The characters of the line in front of the first newline.\<close>

definition chomp :: "string \<Rightarrow> string" where
  "chomp l = takeWhile (\<lambda>c. c \<noteq> NL) (c_str l)"

definition is_division :: "u32 \<Rightarrow> bool" where
  "is_division instr \<longleftrightarrow> drop_bit 24 instr \<in> {0x0A, 0x24, 0x25, 0x26}"

definition show_operand :: "machine \<Rightarrow> reg \<Rightarrow> string" where
  "show_operand s r =
     '' r'' @ dec (unat r) @ ''='' @ hex8 (regs s r) @ ''('' @ dec_signed (sint (regs s r)) @ '')''"

definition prompt_instr :: "machine \<Rightarrow> u32" where
  "prompt_instr s = (if regs s PC < MEM_SIZE then mem_read32 (mem s) (regs s PC) else 0)"

definition prompt_text :: "nat \<Rightarrow> machine \<Rightarrow> string" where
  "prompt_text debug s =
     (let pc = regs s PC; instr = prompt_instr s; dis = disasm pc instr
      in (if debug = 2 \<and> is_division instr then
            ''[DIVDBG] '' @ hex8 pc @ '': '' @ dis @ '' '' @
            show_operand s (d_rs1 (decode instr)) @ show_operand s (d_rs2 (decode instr)) @ [NL]
          else []) @
         ''[DBG] '' @ hex8 pc @ '': '' @ pad 40 dis @ '' > '')"

definition show_prompt :: "nat \<Rightarrow> machine \<Rightarrow> debugger \<Rightarrow> debugger" where
  "show_prompt debug s d =
     say (prompt_text debug s) (debug_undefined (regs s PC < MEM_SIZE \<and> \<not> in_mem (regs s PC) 4) d)"

definition break_command :: "string \<Rightarrow> debugger \<Rightarrow> debugger" where
  "break_command arg d =
     (if length (breakpoints d) < MAX_BREAKPOINTS then
        say (''  Breakpoint set at '' @ hex8 (strtoul arg) @ [NL]) (d\<lparr>breakpoints := breakpoints d @ [strtoul arg]\<rparr>)
      else d)"

definition mem_args :: "string \<Rightarrow> debugger \<Rightarrow> u32 \<times> int \<times> bool" where
  "mem_args arg d =
     (case scan_int arg of
        None \<Rightarrow> (junk d (length (commands d)), 64, False)
      | Some (a, r) \<Rightarrow>
          (case scan_int r of
             None \<Rightarrow> (word_of_int a, 64, \<not> fits_int a)
           | Some (l, _) \<Rightarrow> (word_of_int a, sint (word_of_int l :: u32), \<not> fits_int a \<or> \<not> fits_int l)))"

definition mem_command :: "string \<Rightarrow> machine \<Rightarrow> debugger \<Rightarrow> debugger" where
  "mem_command arg s d =
     (case mem_args arg d of
        (a, l, ub) \<Rightarrow> say (dump_mem (mem s) a l) (debug_undefined (ub \<or> 2147483648 - 16 < l) d))"

text \<open>The commands that leave the prompt waiting for another one.\<close>

definition inspect :: "string \<Rightarrow> machine \<Rightarrow> debugger \<Rightarrow> debugger" where
  "inspect line s d =
     (if line = ''regs'' then say (dump_regs s) d
      else if take 6 line = ''break '' then break_command (drop 6 line) d
      else if take 4 line = ''mem '' then mem_command (drop 4 line) s d
      else say (''  Commands: [s]tep, [c]ont, regs, break <addr>, mem <addr> [len]'' @ [NL]) d)"

text \<open>The loop of the prompt over the lines it is given.\<close>

fun prompt_loop :: "string list \<Rightarrow> machine \<Rightarrow> debugger \<Rightarrow> debugger \<times> machine" where
  "prompt_loop [] s d = ((show_prompt 1 s d)\<lparr>commands := []\<rparr>, s\<lparr>halted := True\<rparr>)"
| "prompt_loop (l # ls) s d =
     (let d1 = (show_prompt 1 s d)\<lparr>commands := ls\<rparr>; line = chomp l
      in if line \<in> {[], ''s'', ''step''} then (d1\<lparr>debug_step := 1\<rparr>, s)
         else if line \<in> {''cont'', ''c''} then (d1\<lparr>debug_step := 0\<rparr>, s)
         else prompt_loop ls s (inspect line s d1))"

definition debugger_prompt :: "nat \<Rightarrow> machine \<Rightarrow> debugger \<Rightarrow> debugger \<times> machine" where
  "debugger_prompt debug s d =
     (if debug = 2 then (say [NL] (show_prompt debug s d), s) else prompt_loop (commands d) s d)"

subsection \<open>The loop with the debugger\<close>

definition check_breakpoints :: "u32 \<Rightarrow> debugger \<Rightarrow> debugger" where
  "check_breakpoints pc d =
     (if pc \<in> set (breakpoints d)
      then (say (''  Hit breakpoint at '' @ hex8 pc @ [NL]) d)\<lparr>debug_step := 1\<rparr> else d)"

definition debug_iter :: "nat \<Rightarrow> debugger \<times> machine \<Rightarrow> debugger \<times> machine" where
  "debug_iter debug p =
     (case p of (d, s0) \<Rightarrow>
        let s = s0\<lparr>faulting_pc := regs s0 PC\<rparr>
        in if debug = 0 then (d, cpu_step s)
           else
             let d1 = check_breakpoints (regs s PC) d
             in case (if debug_step d1 \<noteq> 0 then debugger_prompt (debug_step d1) s d1 else (d1, s)) of
                  (d2, s2) \<Rightarrow> if halted s2 then (d2, s2) else (d2, cpu_step s2))"

partial_function (option) debug_loop :: "nat \<Rightarrow> debugger \<times> machine \<Rightarrow> (debugger \<times> machine) option" where
  "debug_loop debug p = (if stopped (snd p) then Some p else debug_loop debug (debug_iter debug p))"

definition cpu_run_debug :: "nat \<Rightarrow> debugger \<Rightarrow> machine \<Rightarrow> (debugger \<times> machine) option" where
  "cpu_run_debug debug d s = debug_loop debug (d\<lparr>debug_step := debug\<rparr>, s)"

fun debug_steps :: "nat \<Rightarrow> nat \<Rightarrow> debugger \<times> machine \<Rightarrow> debugger \<times> machine" where
  "debug_steps 0 debug p = p"
| "debug_steps (Suc n) debug p = (if stopped (snd p) then p else debug_steps n debug (debug_iter debug p))"

subsection \<open>The debugger observes the machine\<close>

text \<open>
  What happens to the machine when the input of the prompt ends: it halts in front of the
  instruction it was to execute.
\<close>

definition eof_halt :: "machine \<Rightarrow> machine" where
  "eof_halt s = s\<lparr>faulting_pc := regs s PC, halted := True\<rparr>"

lemma cpu_step_faulting_pc [simp]: "cpu_step (s\<lparr>faulting_pc := x\<rparr>) = cpu_step s"
  by (simp add: cpu_step_def)

lemma debugger_fields [simp]:
  "breakpoints (say t d) = breakpoints d" "debug_step (say t d) = debug_step d" "commands (say t d) = commands d"
  "breakpoints (debug_undefined b d) = breakpoints d" "debug_step (debug_undefined b d) = debug_step d"
  "commands (debug_undefined b d) = commands d"
  "breakpoints (show_prompt k s d) = breakpoints d" "debug_step (show_prompt k s d) = debug_step d"
  "commands (show_prompt k s d) = commands d"
  by (simp_all add: say_def debug_undefined_def show_prompt_def)

lemma prompt_loop_machine: "snd (prompt_loop ls s d) = s \<or> snd (prompt_loop ls s d) = s\<lparr>halted := True\<rparr>"
  by (induction ls s d rule: prompt_loop.induct) (auto simp: Let_def)

lemma debug_iter_machine:
  assumes "\<not> stopped s"
  shows "snd (debug_iter debug (d, s)) = cpu_step s \<or> snd (debug_iter debug (d, s)) = eof_halt s"
proof -
  let ?s = "s\<lparr>faulting_pc := regs s PC\<rparr>"
  have h: "\<not> halted ?s" using assms by (simp add: stopped_def)
  have p: "snd (debugger_prompt k ?s d') = ?s \<or> snd (debugger_prompt k ?s d') = eof_halt s" for k d'
    using prompt_loop_machine [of "commands d'" ?s d'] by (auto simp: debugger_prompt_def eof_halt_def)
  show ?thesis
    using h p [of "debug_step (check_breakpoints (regs s PC) d)" "check_breakpoints (regs s PC) d"]
    by (auto simp: debug_iter_def Let_def eof_halt_def split: prod.split)
qed

lemma debug_steps_stopped: "stopped (snd p) \<Longrightarrow> debug_steps n debug p = p"
  by (cases n) simp_all

lemma debug_steps_add: "debug_steps (m + n) debug p = debug_steps n debug (debug_steps m debug p)"
  by (induction m arbitrary: p) (simp_all add: debug_steps_stopped)

lemma stopped_eof_halt: "stopped (eof_halt s)"
  by (simp add: stopped_def eof_halt_def)

lemma debug_steps_machine:
  "snd (debug_steps n debug (d, s)) = run_steps n s \<or>
   (\<exists>m<n. \<not> stopped (run_steps m s) \<and> snd (debug_steps n debug (d, s)) = eof_halt (run_steps m s))"
proof (induction n arbitrary: d s)
  case (Suc n)
  obtain d1 s1 where i: "debug_iter debug (d, s) = (d1, s1)" by fastforce
  consider "stopped s" | "\<not> stopped s" "s1 = cpu_step s" | "\<not> stopped s" "s1 = eof_halt s"
    using debug_iter_machine [of s debug d] i by auto
  then show ?case
  proof cases
    case 2
    from Suc.IH [of d1 s1] show ?thesis
    proof (elim disjE exE conjE)
      fix m assume "m < n" "\<not> stopped (run_steps m s1)" "snd (debug_steps n debug (d1, s1)) = eof_halt (run_steps m s1)"
      then show ?thesis using 2 i by (intro disjI2 exI [of _ "Suc m"]) simp
    qed (simp add: 2 i)
  next
    case 3
    then show ?thesis using i by (intro disjI2 exI [of _ 0]) (simp add: debug_steps_stopped stopped_eof_halt)
  qed simp
qed simp

subsection \<open>The loop returns what its iterations reach\<close>

lemma debug_loop_debug_steps:
  "stopped (snd (debug_steps n debug p)) \<Longrightarrow> debug_loop debug p = Some (debug_steps n debug p)"
proof (induction n arbitrary: p)
  case 0
  then show ?case by (simp add: debug_loop.simps)
next
  case (Suc n)
  then show ?case by (cases "stopped (snd p)") (simp_all add: debug_loop.simps [of debug p])
qed

lemma debug_loop_Some:
  assumes "debug_loop debug p = Some q"
  shows "\<exists>n. q = debug_steps n debug p \<and> stopped (snd q)"
proof (rule debug_loop.raw_induct [OF _ assms])
  fix f debug p q
  assume IH: "\<And>debug p q. f debug p = Some q \<Longrightarrow> \<exists>n. q = debug_steps n debug p \<and> stopped (snd q)"
    and eq: "(if stopped (snd p) then Some p else f debug (debug_iter debug p)) = Some q"
  show "\<exists>n. q = debug_steps n debug p \<and> stopped (snd q)"
  proof (cases "stopped (snd p)")
    case True
    then show ?thesis using eq by (intro exI [of _ 0]) simp
  next
    case False
    with eq have "f debug (debug_iter debug p) = Some q" by simp
    from IH [OF this] obtain n where "q = debug_steps n debug (debug_iter debug p)" "stopped (snd q)" by blast
    then show ?thesis using False by (intro exI [of _ "Suc n"]) simp
  qed
qed

text \<open>The sessions without a prompt: no debugging, and the trace.\<close>

definition unprompted :: "nat \<Rightarrow> debugger \<Rightarrow> bool" where
  "unprompted debug d \<longleftrightarrow> debug = 0 \<or> debug = 2 \<and> debug_step d = 2 \<and> breakpoints d = []"

lemma debug_iter_unprompted:
  assumes "unprompted debug d" "\<not> stopped s"
  shows "unprompted debug (fst (debug_iter debug (d, s)))" "snd (debug_iter debug (d, s)) = cpu_step s"
  using assms
  by (auto simp: unprompted_def debug_iter_def check_breakpoints_def debugger_prompt_def stopped_def Let_def)

lemma debug_steps_unprompted:
  assumes "unprompted debug d"
  shows "snd (debug_steps n debug (d, s)) = run_steps n s"
  using assms
proof (induction n arbitrary: d s)
  case (Suc n)
  show ?case
  proof (cases "stopped s")
    case False
    obtain d1 where "debug_iter debug (d, s) = (d1, cpu_step s)" "unprompted debug d1"
      using debug_iter_unprompted [OF Suc.prems False] by (metis prod.collapse)
    then show ?thesis using Suc.IH False by simp
  qed simp
qed simp

lemma debug_loop_unprompted:
  assumes "unprompted debug d"
  shows "map_option snd (debug_loop debug (d, s)) = cpu_run s"
proof (cases "debug_loop debug (d, s)")
  case None
  have "\<not> stopped (run_steps n s)" for n
    using None debug_loop_debug_steps [of n debug "(d, s)"] debug_steps_unprompted [OF assms, of n s] by auto
  then have "cpu_run s = None" using cpu_run_Some [of s] by (metis option.exhaust)
  then show ?thesis by (simp add: None)
next
  case (Some q)
  from debug_loop_Some [OF this] obtain n where "snd q = run_steps n s" "stopped (run_steps n s)"
    using debug_steps_unprompted [OF assms] by metis
  then show ?thesis using Some cpu_run_run_steps by auto
qed

text \<open>C14: The debugger only observes. Whatever the commands, the breakpoints and the mode, after any number of
  iterations of its loop the machine is where the emulator without a debugger is after that many,
  unless the input of the prompt has ended, and then it is where that emulator once was, with the
  halt bit set. Without a debugger (mode 0) and in trace mode (2), where no prompt is shown, the
  whole run is the same: it returns when the plain loop does, with the same machine.\<close>

theorem debugger_transparent:
  "(snd (debug_steps n debug (d, s)) = run_steps n s \<or>
    (\<exists>m<n. \<not> stopped (run_steps m s) \<and> snd (debug_steps n debug (d, s)) = eof_halt (run_steps m s))) \<and>
   (mode \<in> {0, 2} \<and> breakpoints d = [] \<longrightarrow> map_option snd (cpu_run_debug mode d s) = cpu_run s)"
  using debug_steps_machine
  by (auto simp: cpu_run_debug_def unprompted_def intro!: debug_loop_unprompted)

subsection \<open>Breakpoints\<close>

definition breakpoints_kept :: "debugger \<Rightarrow> debugger \<Rightarrow> bool" where
  "breakpoints_kept d d' \<longleftrightarrow> prefix (breakpoints d) (breakpoints d') \<and>
     (length (breakpoints d) \<le> MAX_BREAKPOINTS \<longrightarrow> length (breakpoints d') \<le> MAX_BREAKPOINTS)"

lemma breakpoints_kept_same: "breakpoints d' = breakpoints d \<Longrightarrow> breakpoints_kept d d'"
  by (simp add: breakpoints_kept_def)

lemma breakpoints_kept_trans: "breakpoints_kept d d' \<Longrightarrow> breakpoints_kept d' d'' \<Longrightarrow> breakpoints_kept d d''"
  by (auto simp: breakpoints_kept_def)

lemma breakpoints_kept_inspect: "breakpoints_kept d (inspect line s d)"
  by (auto simp: inspect_def break_command_def mem_command_def breakpoints_kept_def split: prod.split)

lemma breakpoints_kept_loop: "breakpoints_kept d (fst (prompt_loop ls s d))"
proof (induction ls s d rule: prompt_loop.induct)
  case (2 l ls s d)
  let ?d = "(show_prompt 1 s d)\<lparr>commands := ls\<rparr>"
  have "breakpoints_kept d (inspect (chomp l) s ?d)"
    using breakpoints_kept_trans [OF breakpoints_kept_same breakpoints_kept_inspect, of ?d d] by simp
  then show ?case using 2 breakpoints_kept_trans by (auto simp: Let_def intro: breakpoints_kept_same)
qed (simp add: breakpoints_kept_same)

lemma breakpoints_kept_iter: "breakpoints_kept d (fst (debug_iter debug (d, s)))"
proof -
  have c: "breakpoints_kept d (check_breakpoints pc d)" for pc
    by (rule breakpoints_kept_same) (simp add: check_breakpoints_def)
  have "breakpoints_kept d (fst (debugger_prompt k t (check_breakpoints pc d)))" for k t pc
    using breakpoints_kept_trans [OF c breakpoints_kept_loop] c [of pc]
    by (auto simp: debugger_prompt_def breakpoints_kept_def)
  then show ?thesis using c
    by (auto simp: debug_iter_def Let_def breakpoints_kept_same split: prod.split)
       (metis fst_conv)+
qed

text \<open>The breakpoint table never overflows: however many breakpoints the user asks for, in any session,
  the array of 16 entries is not written behind its end, and a breakpoint that has been set stays
  set at its index.\<close>

theorem breakpoint_table:
  assumes "length (breakpoints d) \<le> MAX_BREAKPOINTS"
  shows "length (breakpoints (fst (debug_steps n debug (d, s)))) \<le> MAX_BREAKPOINTS \<and>
    prefix (breakpoints d) (breakpoints (fst (debug_steps n debug (d, s))))"
proof -
  have "breakpoints_kept d (fst (debug_steps n debug (d, s)))"
  proof (induction n arbitrary: d s)
    case (Suc n)
    obtain d1 s1 where i: "debug_iter debug (d, s) = (d1, s1)" by fastforce
    show ?case
      using breakpoints_kept_trans [OF breakpoints_kept_iter [of d debug s], of "fst (debug_steps n debug (d1, s1))"]
        Suc.IH [of d1 s1] i by (simp add: breakpoints_kept_same)
  qed (simp add: breakpoints_kept_same)
  then show ?thesis using assms by (simp add: breakpoints_kept_def)
qed

lemma debug_steps_running:
  assumes "debug_step d = 0" "\<And>m. m < n \<Longrightarrow> \<not> stopped (run_steps m s) \<and> regs (run_steps m s) PC \<notin> set (breakpoints d)"
  shows "debug_steps n 1 (d, s) = (d, run_steps n s)"
  using assms(2)
proof (induction n arbitrary: s)
  case (Suc n)
  from Suc.prems [of 0] have s: "\<not> stopped s" "\<not> halted s" "regs s PC \<notin> set (breakpoints d)"
    by (simp_all add: stopped_def)
  then have "debug_iter 1 (d, s) = (d, cpu_step s)"
    by (simp add: debug_iter_def check_breakpoints_def assms(1) Let_def)
  then show ?case using Suc.IH [of "cpu_step s"] Suc.prems [of "Suc _"] s by simp
qed simp

lemma run_steps_not_stopped: "\<not> stopped (run_steps n s) \<Longrightarrow> m \<le> n \<Longrightarrow> \<not> stopped (run_steps m s)"
  using run_steps_add [of m "n - m" s] by (auto simp: run_steps_stopped)

lemma prompt_break_continue:
  assumes "commands d = [l, ''c'' @ [NL]]" "chomp l = ''break '' @ arg" "breakpoints d = []"
  shows "\<exists>d'. prompt_loop (commands d) s d = (d', s) \<and> debug_step d' = 0 \<and> breakpoints d' = [strtoul arg] \<and> commands d' = []"
proof -
  have "chomp (''c'' @ [NL]) = ''c''" by (simp add: chomp_def c_str_def)
  then show ?thesis using assms
    by (simp add: Let_def inspect_def break_command_def)
qed

text \<open>C24: A breakpoint works: in a session whose commands are to set a breakpoint and to continue, the
  program runs undisturbed to the first arrival at that address (the start of the session does
  not count), and stops there before the instruction is executed: the prompt is shown, and as
  the input ends the emulator returns the machine of that moment, halted.\<close>

theorem run_to_breakpoint:
  assumes "commands d = [l, ''c'' @ [NL]]" "chomp l = ''break '' @ arg" "breakpoints d = []"
    and "0 < n" "regs (run_steps n s) PC = strtoul arg" "\<not> stopped (run_steps n s)"
    and "\<And>m. 0 < m \<Longrightarrow> m < n \<Longrightarrow> regs (run_steps m s) PC \<noteq> strtoul arg"
  shows "\<exists>d'. cpu_run_debug 1 d s = Some (d', eof_halt (run_steps n s)) \<and> breakpoints d' = [strtoul arg]"
proof -
  obtain k where n: "n = Suc k" using assms(4) by (cases n) auto
  note live = run_steps_not_stopped [OF assms(6)]
  have s: "\<not> stopped s" "\<not> halted s" using live [of 0] by (simp_all add: stopped_def)
  let ?d = "d\<lparr>debug_step := 1\<rparr>"
  obtain d1 where d1: "prompt_loop (commands ?d) (s\<lparr>faulting_pc := regs s PC\<rparr>) ?d = (d1, s\<lparr>faulting_pc := regs s PC\<rparr>)"
    "debug_step d1 = 0" "breakpoints d1 = [strtoul arg]" "commands d1 = []"
    using prompt_break_continue [of ?d l arg] assms(1-3) by auto
  then have i: "debug_iter 1 (?d, s) = (d1, cpu_step s)"
    using s assms(3) by (simp add: debug_iter_def check_breakpoints_def debugger_prompt_def Let_def)
  have "debug_steps k 1 (d1, cpu_step s) = (d1, run_steps k (cpu_step s))"
  proof (rule debug_steps_running [OF d1(2)])
    fix m assume "m < k"
    then show "\<not> stopped (run_steps m (cpu_step s)) \<and> regs (run_steps m (cpu_step s)) PC \<notin> set (breakpoints d1)"
      using live [of "Suc m"] assms(7) [of "Suc m"] s by (simp add: n d1(3))
  qed
  then have r: "debug_steps n 1 (?d, s) = (d1, run_steps n s)"
    by (simp add: n s i del: One_nat_def)
  let ?t = "run_steps n s"
  have "\<exists>d2. debug_iter 1 (d1, ?t) = (d2, eof_halt ?t) \<and> breakpoints d2 = [strtoul arg]"
    using d1(3,4) assms(5)
    by (simp add: debug_iter_def check_breakpoints_def debugger_prompt_def Let_def eof_halt_def)
  then obtain d2 where "debug_iter 1 (d1, ?t) = (d2, eof_halt ?t)" "breakpoints d2 = [strtoul arg]" by blast
  then have "debug_steps (n + 1) 1 (?d, s) = (d2, eof_halt ?t)"
    using assms(6) by (simp only: debug_steps_add r) simp
  then show ?thesis
    using debug_loop_debug_steps [of "n + 1" 1 "(?d, s)"] \<open>breakpoints d2 = _\<close>
    by (simp add: cpu_run_debug_def stopped_eof_halt)
qed

definition idle_debugger :: "string list \<Rightarrow> debugger" where
  "idle_debugger ls = \<lparr>breakpoints = [], debug_step = 0, commands = ls, stderr_q = [], junk = (\<lambda>n. 0), dbg_ub = False\<rparr>"

lemma debugger_transparent_witness:
  "map_option snd (cpu_run_debug 2 (idle_debugger []) zero_machine) = cpu_run zero_machine"
  using debugger_transparent [where mode = 2 and d = "idle_debugger []" and s = zero_machine]
  by (simp add: idle_debugger_def)

lemma quiet_end_of_step:
  assumes "timer_control s = 0" "uart_poll_divider s = 0" "status s = 0"
  shows "regs (end_of_step b s) = regs s" "halted (end_of_step b s) = halted s" "exited (end_of_step b s) = exited s"
  using assms by (simp_all add: end_of_step_def timer_tick_def poll_divided_def interrupt_check_def word_le_def Let_def)

lemma first_step_pc: "regs (cpu_step zero_machine) PC = 4 \<and> \<not> stopped (cpu_step zero_machine) \<and> \<not> stopped zero_machine"
proof -
  let ?d = "\<lparr>d_op = 0, d_rd = 0, d_rs1 = 0, d_rs2 = 0, d_shift = 0, d_imm16 = 0, d_simm = 0, d_soff = 0\<rparr>"
  let ?t = "exec_rtype ?d (set_reg PC 4 zero_machine)"
  have d: "decode 0 = ?d"
    by (simp add: decode_def Let_def)
  have f: "cpu_fetch 0 (zero_machine\<lparr>faulting_pc := 0\<rparr>) = (Some 0, zero_machine)"
    by (simp add: cpu_fetch_def mmu_translate_def mem_read32_def le32_def zero_machine_def touch_def in_mem_def)
  have z: "regs zero_machine PC = 0" by (simp add: zero_machine_def)
  have e: "cpu_step zero_machine = end_of_step (skips_irq ?d (set_reg PC 4 zero_machine)) ?t"
    by (simp add: cpu_step_def z f d exec_op(1) Let_def)
  have t: "?t = (set_reg PC 4 zero_machine)\<lparr>flags := flags ?t, regs := (regs zero_machine)(PC := 4, 0 := 0)\<rparr>"
    by (simp add: exec_rtype_def update_flags_add_def set_nzcv_def set_reg_def zero_machine_def Let_def)
  show ?thesis
   unfolding e by (subst (1 2) t) (simp add: quiet_end_of_step stopped_def set_reg_def zero_machine_def)
qed

lemma run_to_breakpoint_witness:
  "\<exists>d'. cpu_run_debug 1 (idle_debugger [''break 0x4'' @ [NL], ''c'' @ [NL]]) zero_machine =
     Some (d', eof_halt (cpu_step zero_machine)) \<and> breakpoints d' = [4]"
proof -
  have a: "strtoul ''0x4'' = 4"
    by (simp add: strtoul_def sign_split_def to_ulong_def hex_number_def hex_prefix_def digits_rest_def digits_value_def digit_val_def isdigit_def
        isupper_def islower_def c_space_def)
  have "chomp (''break 0x4'' @ [NL]) = ''break '' @ ''0x4''" by (simp add: chomp_def c_str_def)
  from run_to_breakpoint [where n = 1 and s = zero_machine and d = "idle_debugger [''break 0x4'' @ [NL], ''c'' @ [NL]]",
      OF _ this]
  show ?thesis using first_step_pc by (simp add: idle_debugger_def a)
qed

lemma breakpoint_table_witness:
  "length (breakpoints (fst (debug_steps 20 1 (idle_debugger (replicate 40 ''break 4''), zero_machine)))) \<le> MAX_BREAKPOINTS"
  by (rule breakpoint_table [THEN conjunct1]) (simp add: idle_debugger_def)

end
