(* ===== verification/Startup.thy ===== *)
theory Startup
  imports Debugger
begin

text \<open>
  \<open>main\<close> of the emulator (\<open>emulator.c\<close>, lines 1170 to 1231) from the command line to the exit
  status: the options, the failures before the machine runs, and the run. The files of the host
  are a map from names to contents; a name outside its domain cannot be opened. The program file
  and the disk image are opened independently, so writes to the disk do not show in the program.
  Setting the terminal to raw mode and back does not touch the machine.
\<close>

record options =
  opt_debug :: nat
  opt_binary :: "string option"
  opt_addr :: u32
  opt_blk :: "string option"

definition no_options :: options where
  "no_options = \<lparr>opt_debug = 0, opt_binary = None, opt_addr = 0, opt_blk = None\<rparr>"

definition positional :: "string \<Rightarrow> options \<Rightarrow> options" where
  "positional a o' = (if opt_binary o' = None then o'\<lparr>opt_binary := Some a\<rparr> else o')"

text \<open>The arguments behind the name of the program.\<close>

fun parse_args :: "string list \<Rightarrow> options \<Rightarrow> options" where
  "parse_args [] o' = o'"
| "parse_args (a # as) o' =
     (if a = ''-d'' then parse_args as (o'\<lparr>opt_debug := 1\<rparr>)
      else if a = ''-e'' then parse_args as (o'\<lparr>opt_debug := 2\<rparr>)
      else case as of
        v # bs \<Rightarrow>
          if a = ''-blk'' then parse_args bs (o'\<lparr>opt_blk := Some v\<rparr>)
          else if a = ''-a'' then parse_args bs (o'\<lparr>opt_addr := strtoul v\<rparr>)
          else parse_args as (positional a o')
      | [] \<Rightarrow> positional a o')"

text \<open>
  The state in which \<open>cpu_run\<close> is called; \<open>None\<close> when \<open>main\<close> returns 1 before. The disk image
  is opened behind the program, when one is asked for.
\<close>

definition start :: "options \<Rightarrow> (string \<rightharpoonup> u8 list) \<Rightarrow> u8 option list \<Rightarrow> machine option" where
  "start o' files input =
     (case opt_binary o' of
        None \<Rightarrow> None
      | Some binary \<Rightarrow>
          (case files binary of
             None \<Rightarrow> None
           | Some f \<Rightarrow>
               (case boot (opt_addr o') f None input of
                  None \<Rightarrow> None
                | Some s \<Rightarrow>
                    (case opt_blk o' of
                       None \<Rightarrow> Some s
                     | Some path \<Rightarrow> map_option (\<lambda>b. s\<lparr>blk_file := Some b\<rparr>) (files path)))))"

text \<open>The status of the process: 0 from the \<open>exit\<close> of the UART escape, or what \<open>main\<close> returns.\<close>

definition exit_status :: "machine \<Rightarrow> int" where
  "exit_status s = (if exited s then 0 else if halted s then 0 else sint (cause s))"

text \<open>The whole program: its exit status, \<open>None\<close> when it runs for ever.\<close>

definition emulator_main :: "string list \<Rightarrow> (string \<rightharpoonup> u8 list) \<Rightarrow> u8 option list \<Rightarrow> debugger \<Rightarrow> int option" where
  "emulator_main args files input d =
     (let o' = parse_args args no_options
      in case start o' files input of
           None \<Rightarrow> Some 1
         | Some s \<Rightarrow> map_option (\<lambda>p. exit_status (snd p)) (cpu_run_debug (opt_debug o') d s))"

subsection \<open>The exit status\<close>

lemma start_not_stopped: "start o' files input = Some s \<Longrightarrow> \<not> stopped s"
  using wf_boot by (fastforce simp: start_def stopped_def split: option.splits)

lemma debug_loop_stopped: "debug_loop debug p = Some q \<Longrightarrow> stopped (snd q)"
  using debug_loop_Some by blast

lemma parse_args_debug:
  "parse_args as (o'\<lparr>opt_debug := k\<rparr>) = (parse_args as o')\<lparr>opt_debug := k\<rparr> \<or>
   parse_args as (o'\<lparr>opt_debug := k\<rparr>) = parse_args as o'"
proof (induction as o' rule: parse_args.induct)
  case (2 a as o')
  have p: "positional a (o'\<lparr>opt_debug := k\<rparr>) = (positional a o')\<lparr>opt_debug := k\<rparr>"
    by (simp add: positional_def)
  have c: "o'\<lparr>opt_debug := k, opt_addr := v\<rparr> = o'\<lparr>opt_addr := v, opt_debug := k\<rparr>"
    "o'\<lparr>opt_debug := k, opt_blk := b\<rparr> = o'\<lparr>opt_blk := b, opt_debug := k\<rparr>" for v b
    by simp_all
  show ?case using "2.IH" p by (cases as) (auto simp: c)
qed simp

lemma start_debug [simp]: "start (o'\<lparr>opt_debug := k\<rparr>) files input = start o' files input"
  by (simp add: start_def cong: option.case_cong)

text \<open>C26: The exit status says whether the emulator could start, and nothing else: 1 when there is no program
  or a file cannot be opened or loaded, 0 whenever the machine ran and stopped, by HALT, by the
  escape of the console or by the end of the debugger's input, however many exceptions it took;
  the cause register, which \<open>main\<close> returns for a machine that is not halted, is never seen. The
  trace option in front of arguments that ask for no debugging changes neither the status nor
  whether the program ends.\<close>

theorem exit_status_start:
  "emulator_main args files input d \<in> {None, Some 0, Some 1} \<and>
   (emulator_main args files input d = Some 1 \<longleftrightarrow> start (parse_args args no_options) files input = None) \<and>
   (opt_debug (parse_args args no_options) = 0 \<and> breakpoints d = [] \<longrightarrow>
      emulator_main (''-e'' # args) files input d = emulator_main args files input d)"
proof (intro conjI impI)
  let ?o = "parse_args args no_options"
  have ran: "exit_status (snd q) = 0" if "cpu_run_debug k d s = Some q" for k s q
    using debug_loop_stopped [of k "(d\<lparr>debug_step := k\<rparr>, s)" q] that
    by (auto simp: cpu_run_debug_def exit_status_def stopped_def)
  then show "emulator_main args files input d \<in> {None, Some 0, Some 1}"
    by (auto simp: emulator_main_def Let_def split: option.split)
  show "emulator_main args files input d = Some 1 \<longleftrightarrow> start ?o files input = None"
    using ran by (auto simp: emulator_main_def Let_def split: option.split)
  assume a: "opt_debug ?o = 0 \<and> breakpoints d = []"
  have "parse_args (''-e'' # args) no_options = ?o\<lparr>opt_debug := 2\<rparr> \<or> parse_args (''-e'' # args) no_options = ?o"
    using parse_args_debug by simp
  moreover have "map_option snd (cpu_run_debug 2 d s) = map_option snd (cpu_run_debug 0 d s)" for s
    using a by (simp add: cpu_run_debug_def unprompted_def debug_loop_unprompted)
  then have "map_option (\<lambda>p. exit_status (snd p)) (cpu_run_debug 2 d s) =
      map_option (\<lambda>p. exit_status (snd p)) (cpu_run_debug 0 d s)" for s
    by (metis (no_types, lifting) option.map_comp comp_apply option.map_cong0 map_option_eq_Some)
  ultimately show "emulator_main (''-e'' # args) files input d = emulator_main args files input d"
    using a by (elim disjE; simp only: emulator_main_def Let_def; cases "start ?o files input"; simp)
qed

text \<open>A program file of one word, HALT, traced.\<close>

lemma exit_status_start_witness:
  "emulator_main [''-e'', ''a.bin''] [''a.bin'' \<mapsto> [0, 0, 0, 0x12]] [] (idle_debugger []) =
   emulator_main [''a.bin''] [''a.bin'' \<mapsto> [0, 0, 0, 0x12]] [] (idle_debugger [])"
  using exit_status_start [where args = "[''a.bin'']" and files = "[''a.bin'' \<mapsto> [0, 0, 0, 0x12]]"
      and input = "[]" and d = "idle_debugger []"]
  by (simp add: idle_debugger_def no_options_def positional_def)

end
