(* ===== verification/Commands.thy ===== *)
theory Commands
  imports FlatLink Startup
begin

text \<open>
  The command lines of the two tools: \<open>main\<close> of \<open>assembler.c\<close> and \<open>main\<close> of \<open>linker.c\<close>, from the
  arguments behind the program's name to the exit status and the files they leave. The files of
  the host are a map from names to contents; \<open>writable\<close> says which names \<open>fopen\<close> can open for
  writing. Messages are not modelled.
\<close>

type_synonym files = "string \<rightharpoonup> u8 list"

definition write_file :: "(string \<Rightarrow> bool) \<Rightarrow> string \<Rightarrow> u8 list \<Rightarrow> files \<Rightarrow> files" where
  "write_file writable path bytes fs = (if writable path then fs(path \<mapsto> bytes) else fs)"

definition text_of :: "u8 list \<Rightarrow> string" where
  "text_of bytes = map (\<lambda>b. char_of (unat b)) bytes"

text \<open>A line \<open>%08X %s\<close> of a map file.\<close>

definition map_line :: "u32 \<Rightarrow> u8 list \<Rightarrow> u8 list" where
  "map_line a name = map of_char (hex 8 (unat a) @ '' '') @ name @ [0x0A]"

subsection \<open>The assembler\<close>

record asm_options =
  ao_obj :: bool
  ao_in :: string
  ao_out :: string
  ao_map :: "string option"

definition asm_args :: "string list \<Rightarrow> asm_options option" where
  "asm_args args =
     (let obj = (args \<noteq> [] \<and> hd args = ''-c''); rest = (if obj then tl args else args)
      in case rest of
           infile # outfile # others \<Rightarrow>
             Some \<lparr>ao_obj = obj, ao_in = infile, ao_out = outfile, ao_map = (case others of [] \<Rightarrow> None | m # _ \<Rightarrow> Some m)\<rparr>
         | _ \<Rightarrow> None)"

text \<open>What is written for the final state; an object file that cannot be opened goes unnoticed.\<close>

definition asm_finish :: "asm_options \<Rightarrow> (string \<Rightarrow> bool) \<Rightarrow> files \<Rightarrow> asm \<Rightarrow> int \<times> files" where
  "asm_finish o' writable fs s =
     (if as_errs s > 0 then (1, fs)
      else if ao_obj o' then (0, write_file writable (ao_out o') (write_dobj s) fs)
      else if \<not> writable (ao_out o') then (1, fs)
      else
        let fs1 = write_file writable (ao_out o') (out_bytes 0 (as_max s) s) fs
        in (0, case ao_map o' of
                 None \<Rightarrow> fs1
               | Some m \<Rightarrow>
                   write_file writable m
                     (concat (map (\<lambda>(a, n). map_line a (map of_char n)) (symbol_map s))) fs1))"

text \<open>\<open>None\<close> when the assembler includes files for ever.\<close>

definition asm_command :: "string list \<Rightarrow> (string \<Rightarrow> bool) \<Rightarrow> files \<Rightarrow> (int \<times> files) option" where
  "asm_command args writable fs =
     (case asm_args args of
        None \<Rightarrow> Some (1, fs)
      | Some o' \<Rightarrow>
          (case fs (ao_in o') of
             None \<Rightarrow> Some (1, fs)
           | Some src \<Rightarrow>
               map_option (asm_finish o' writable fs)
                 (assemble_string (\<lambda>p. map_option text_of (fs p)) (include_dir (ao_in o')) (ao_obj o') (text_of src))))"

subsection \<open>The linker\<close>

record link_options =
  lo_out :: string
  lo_map :: "string option"
  lo_base :: u32
  lo_inputs :: "string list"

definition no_link_options :: link_options where
  "no_link_options = \<lparr>lo_out = ''out.bin'', lo_map = None, lo_base = 0, lo_inputs = []\<rparr>"

text \<open>\<open>(uint32_t)strtoul(s, &end, 16)\<close>\<close>

definition strtoul16 :: "string \<Rightarrow> u32" where
  "strtoul16 s =
     (case sign_split (dropWhile c_space s) of
        (neg, r) \<Rightarrow> to_ulong neg (digits_value 16 (if hex_number r then drop 2 r else r)))"

text \<open>An argument that is not an option with a value.\<close>

definition link_input :: "string \<Rightarrow> link_options \<Rightarrow> link_options option" where
  "link_input a o' =
     (if take 1 a \<noteq> ''-'' then
        Some (if length (lo_inputs o') < MAX_OBJS then o'\<lparr>lo_inputs := lo_inputs o' @ [a]\<rparr> else o')
      else None)"

fun link_args :: "string list \<Rightarrow> link_options \<Rightarrow> link_options option" where
  "link_args [] o' = Some o'"
| "link_args [a] o' = link_input a o'"
| "link_args (a # v # as) o' =
     (if a = ''-o'' then link_args as (o'\<lparr>lo_out := v\<rparr>)
      else if a = ''-T'' then link_args as (o'\<lparr>lo_base := strtoul16 v\<rparr>)
      else if a = ''-m'' then link_args as (o'\<lparr>lo_map := Some v\<rparr>)
      else Option.bind (link_input a o') (link_args (v # as)))"

definition link_finish :: "link_options \<Rightarrow> (string \<Rightarrow> bool) \<Rightarrow> files \<Rightarrow> u8 list \<Rightarrow> linker \<Rightarrow> int \<times> files" where
  "link_finish o' writable fs out l =
     (let fs1 = write_file writable (lo_out o') out fs
      in (0, case lo_map o' of
               None \<Rightarrow> fs1
             | Some m \<Rightarrow> write_file writable m (concat (map (\<lambda>(a, n). map_line a n) (write_map l))) fs1))"

definition link_command :: "string list \<Rightarrow> (string \<Rightarrow> bool) \<Rightarrow> files \<Rightarrow> int \<times> files" where
  "link_command args writable fs =
     (case link_args args no_link_options of
        None \<Rightarrow> (1, fs)
      | Some o' \<Rightarrow>
          let contents = map fs (lo_inputs o')
          in if contents = [] \<or> None \<in> set contents then (1, fs)
             else case link (lo_base o') (map the contents) of
                    (None, l) \<Rightarrow> (1, fs)
                  | (Some out, l) \<Rightarrow> link_finish o' writable fs out l)"

subsection \<open>Exit status and files\<close>

lemma write_file_same: "writable path \<Longrightarrow> write_file writable path bytes fs path = Some bytes"
  by (simp add: write_file_def)

lemma write_file_other: "path \<noteq> p \<Longrightarrow> write_file writable p bytes fs path = fs path"
  by (simp add: write_file_def)

text \<open>C29: What the tools leave behind: both exit with 0 or 1. When they report a failure every file is as it
  was, and when the linker reports success the output file, if it can be written (and the map
  file is another one), holds the image of a link without errors of the files it was given.\<close>

theorem tools_exit:
  "(asm_command args writable fs = Some (c, fs') \<longrightarrow> c \<in> {0, 1} \<and> (c = 1 \<longrightarrow> fs' = fs)) \<and>
   (link_command args writable fs = (d, fs'') \<longrightarrow>
      d \<in> {0, 1} \<and> (d = 1 \<longrightarrow> fs'' = fs) \<and>
      (d = 0 \<longrightarrow> (\<exists>o' out l. link_args args no_link_options = Some o' \<and> lo_inputs o' \<noteq> [] \<and>
         (\<forall>p \<in> set (lo_inputs o'). p \<in> dom fs) \<and>
         link (lo_base o') (map (\<lambda>p. the (fs p)) (lo_inputs o')) = (Some out, l) \<and>
         (writable (lo_out o') \<and> lo_map o' \<noteq> Some (lo_out o') \<longrightarrow> fs'' (lo_out o') = Some out))))"
proof (intro conjI impI)
  assume "asm_command args writable fs = Some (c, fs')"
  then show "c \<in> {0, 1}" "c = 1 \<Longrightarrow> fs' = fs"
    by (auto simp: asm_command_def asm_finish_def Let_def split: option.splits if_splits)
next
  assume l: "link_command args writable fs = (d, fs'')"
  then show "d \<in> {0, 1}" "d = 1 \<Longrightarrow> fs'' = fs"
    by (auto simp: link_command_def link_finish_def Let_def split: option.splits prod.splits if_splits)
  assume "d = 0"
  then obtain o' out l where o': "link_args args no_link_options = Some o'" "lo_inputs o' \<noteq> []" "None \<notin> set (map fs (lo_inputs o'))"
    and out: "link (lo_base o') (map the (map fs (lo_inputs o'))) = (Some out, l)" "link_finish o' writable fs out l = (d, fs'')"
    using l by (auto simp: link_command_def Let_def split: option.splits prod.splits if_splits)
  have "fs'' (lo_out o') = Some out" if "writable (lo_out o')" "lo_map o' \<noteq> Some (lo_out o')"
    using out(2) that by (auto simp: link_finish_def Let_def write_file_same write_file_other split: option.splits)
  moreover have "\<forall>p \<in> set (lo_inputs o'). p \<in> dom fs"
    using o'(3) by (metis domIff imageI set_map)
  ultimately show "\<exists>o' out l. link_args args no_link_options = Some o' \<and> lo_inputs o' \<noteq> [] \<and>
         (\<forall>p \<in> set (lo_inputs o'). p \<in> dom fs) \<and>
         link (lo_base o') (map (\<lambda>p. the (fs p)) (lo_inputs o')) = (Some out, l) \<and>
         (writable (lo_out o') \<and> lo_map o' \<noteq> Some (lo_out o') \<longrightarrow> fs'' (lo_out o') = Some out)"
    using o'(1,2) out(1) by (auto simp: comp_def)
qed

text \<open>Linking the object file of one line.\<close>

definition one_file :: files where
  "one_file = [''a.dobj'' \<mapsto> write_dobj (assemble_lines True ([''a: .byte 7''], 0))]"

lemma link_one_file: "\<exists>l. link 0 [write_dobj (assemble_lines True ([''a: .byte 7''], 0))] = (Some [7], l)"
proof -
  let ?s = "assemble_lines True ([''a: .byte 7''], 0)"
  have s: "as_syms ?s = [(new_symbol ''a'')\<lparr>sm_defined := True, sm_label := True\<rparr>]" "as_relocs ?s = []"
    "as_base ?s = 0" "as_hint ?s = 0" "as_max ?s = 1" "as_out ?s 0 = 7"
    by (simp_all add: assemble_lines_def data_lines_tokens asm_eval emit_byte_eval)
  have "list_all short_name (as_syms ?s)"
    using asm_wf_assembled [of True "([''a: .byte 7''], 0)"] by (simp add: asm_wf_def short_name_def s new_symbol_def)
  from link_one [OF asm_wf_assembled this s(2)] show ?thesis
    by (auto simp: s section_size_def out_bytes_def)
qed

lemma tools_exit_witness:
  "snd (link_command [''a.dobj'', ''-o'', ''b.bin''] (\<lambda>p. True) one_file) ''b.bin'' = Some [7]"
proof -
  have args: "link_args [''a.dobj'', ''-o'', ''b.bin''] no_link_options =
      Some \<lparr>lo_out = ''b.bin'', lo_map = None, lo_base = 0, lo_inputs = [''a.dobj'']\<rparr>"
    by (simp add: link_input_def no_link_options_def)
  obtain l where l: "link 0 [write_dobj (assemble_lines True ([''a: .byte 7''], 0))] = (Some [7], l)"
    using link_one_file by blast
  obtain d fs' where run: "link_command [''a.dobj'', ''-o'', ''b.bin''] (\<lambda>p. True) one_file = (d, fs')" by fastforce
  then have d: "d = 0"
    by (simp add: link_command_def args one_file_def l link_finish_def Let_def del: link_args.simps)
  from tools_exit [THEN conjunct2, THEN mp, OF run [unfolded d]]
  have "fs' ''b.bin'' = Some [7]" using l by (simp add: args one_file_def del: link_args.simps)
  then show ?thesis by (simp add: run)
qed

end
